(* ===== verification/Prelude.thy ===== *)
theory Prelude
  imports Main "HOL-Library.AList" "HOL-Library.Char_ord" "HOL-Library.List_Lexorder"
    "HOL-Library.Product_Lexorder" "HOL-Library.Multiset"
begin

text \<open>
  Shared vocabulary of the development: Python exceptions as values, the error monad on sums,
  effectful calls as world-passing actions, insertion-ordered dictionaries, and the list lemmas
  the components share.

  A Python call that may raise has type \<open>'a res\<close> (\<open>Inl\<close> the exception, \<open>Inr\<close> the value).
  A call that also talks to the outside (HTTP, a socket, the clock) has type \<open>('w, 'a) act\<close>: it
  takes the outside world and returns its result together with the world after it.
\<close>

named_theorems monad_simps \<open>equations of the error monad and of the world-passing monad\<close>
named_theorems dict_simps \<open>equations of insertion-ordered dictionaries\<close>
named_theorems str_simps \<open>equations of the string library\<close>

section \<open>Exceptions\<close>

datatype py_exc =
    KeyError string
  | ValueError string
  | IndexError
  | TypeError string
  | AttributeError string
  | NameError string
  | UnboundLocalError string
  | ZeroDivisionError
  | OSError string
  | RuntimeError string
  | SaltInvocationError string
  | CommandExecutionError string
  | SystemExit string
  | PyException string

text \<open>
  \<open>str(e)\<close>: the message of the exception. The messages of exceptions that the interpreter itself
  raises are abbreviated.
\<close>

fun exc_str :: "py_exc \<Rightarrow> string" where
  "exc_str (KeyError s) = CHR 0x27 # s @ [CHR 0x27]"
| "exc_str (ValueError s) = s"
| "exc_str IndexError = ''list index out of range''"
| "exc_str (TypeError s) = s"
| "exc_str (AttributeError s) = s"
| "exc_str (NameError s) = s"
| "exc_str (UnboundLocalError s) = s"
| "exc_str ZeroDivisionError = ''division by zero''"
| "exc_str (OSError s) = s"
| "exc_str (RuntimeError s) = s"
| "exc_str (SaltInvocationError s) = s"
| "exc_str (CommandExecutionError s) = s"
| "exc_str (SystemExit s) = s"
| "exc_str (PyException s) = s"

text \<open>What \<open>except Exception\<close> catches: every exception but \<open>SystemExit\<close>, which is a \<open>BaseException\<close> only.\<close>

definition ordinary :: "py_exc \<Rightarrow> bool" where
  "ordinary e \<longleftrightarrow> (case e of SystemExit s \<Rightarrow> False | _ \<Rightarrow> True)"

lemma ordinary_simps [simp]:
  "ordinary (KeyError s)" "ordinary (ValueError s)" "ordinary (TypeError s)" "ordinary (OSError s)"
  "ordinary (AttributeError s)" "\<not> ordinary (SystemExit s)"
  by (simp_all add: ordinary_def)

type_synonym 'a res = "py_exc + 'a"
type_synonym ('w, 'a) act = "'w \<Rightarrow> 'a res \<times> 'w"

text \<open>
  What \<open>__virtual__\<close> of a Salt module returns to the loader: the name to load it by, or \<open>False\<close> with the
  reason why it is not loaded.
\<close>

datatype loader_ret = Loaded string | Unavailable string

section \<open>The error monad\<close>

definition rbind :: "'a res \<Rightarrow> ('a \<Rightarrow> 'b res) \<Rightarrow> 'b res" where
  "rbind m f = (case m of Inl e \<Rightarrow> Inl e | Inr x \<Rightarrow> f x)"

lemma rbind_Inl [simp, monad_simps]: "rbind (Inl e) f = Inl e"
  by (simp add: rbind_def)

lemma rbind_Inr [simp, monad_simps]: "rbind (Inr x) f = f x"
  by (simp add: rbind_def)

lemma rbind_cong [fundef_cong]:
  assumes "m = m'" and "\<And>x. m' = Inr x \<Longrightarrow> f x = f' x"
  shows "rbind m f = rbind m' f'"
  using assms by (cases m') (auto simp: rbind_def)

lemma rbind_eq_Inr: "rbind m f = Inr y \<longleftrightarrow> (\<exists>x. m = Inr x \<and> f x = Inr y)"
  by (cases m) auto

lemma rbind_eq_Inl: "rbind m f = Inl e \<longleftrightarrow> m = Inl e \<or> (\<exists>x. m = Inr x \<and> f x = Inl e)"
  by (cases m) auto

lemma rbind_assoc [monad_simps]: "rbind (rbind m f) g = rbind m (\<lambda>x. rbind (f x) g)"
  by (cases m) auto

lemma rbind_split:
  "P (rbind m f) \<longleftrightarrow> (\<forall>e. m = Inl e \<longrightarrow> P (Inl e)) \<and> (\<forall>x. m = Inr x \<longrightarrow> P (f x))"
  by (cases m) auto

text \<open>A list comprehension whose body may raise: the first exception ends it.\<close>

fun rmap :: "('a \<Rightarrow> 'b res) \<Rightarrow> 'a list \<Rightarrow> 'b list res" where
  "rmap f [] = Inr []"
| "rmap f (x # xs) = rbind (f x) (\<lambda>y. rbind (rmap f xs) (\<lambda>ys. Inr (y # ys)))"

lemma rmap_Inr_iff: "rmap f xs = Inr ys \<longleftrightarrow> list_all2 (\<lambda>x y. f x = Inr y) xs ys"
  by (induction xs arbitrary: ys) (auto simp: rbind_eq_Inr list_all2_Cons1)

lemma rmap_Inr_projr:
  assumes "rmap f xs = Inr ys"
  shows "\<forall>x \<in> set xs. f x = Inr (projr (f x))" and "map (\<lambda>x. projr (f x)) xs = ys"
  using assms by (induction xs arbitrary: ys) (auto simp: rbind_eq_Inr)

lemma rmap_total: "(\<And>x. x \<in> set xs \<Longrightarrow> f x = Inr (g x)) \<Longrightarrow> rmap f xs = Inr (map g xs)"
  by (induction xs) auto

lemma rmap_Inr_ex: "(\<And>x. x \<in> set xs \<Longrightarrow> \<exists>y. f x = Inr y) \<Longrightarrow> \<exists>ys. rmap f xs = Inr ys"
  by (induction xs) fastforce+

lemma rmap_append: "rmap f (xs @ ys) = rbind (rmap f xs) (\<lambda>as. rbind (rmap f ys) (\<lambda>bs. Inr (as @ bs)))"
  by (induction xs) (simp_all add: rbind_def split: sum.splits)

lemma rmap_length: "rmap f xs = Inr ys \<Longrightarrow> length ys = length xs"
  by (auto simp: rmap_Inr_iff dest: list_all2_lengthD)

lemma rmap_cong [fundef_cong]:
  assumes "xs = ys" and "\<And>x. x \<in> set ys \<Longrightarrow> f x = g x"
  shows "rmap f xs = rmap g ys"
  using assms by (induction ys arbitrary: xs) auto

text \<open>A \<open>for\<close> loop whose body updates the state and may raise.\<close>

fun rfold :: "('a \<Rightarrow> 's \<Rightarrow> 's res) \<Rightarrow> 'a list \<Rightarrow> 's \<Rightarrow> 's res" where
  "rfold f [] s = Inr s"
| "rfold f (x # xs) s = rbind (f x s) (rfold f xs)"

lemma rfold_append: "rfold f (xs @ ys) s = rbind (rfold f xs s) (rfold f ys)"
  by (induction xs arbitrary: s) (auto simp: rbind_def split: sum.splits)

lemma rfold_invariant:
  assumes "rfold f xs s = Inr t" and "P s"
    and "\<And>x s t. x \<in> set xs \<Longrightarrow> P s \<Longrightarrow> f x s = Inr t \<Longrightarrow> P t"
  shows "P t"
  using assms by (induction xs arbitrary: s) (auto simp: rbind_eq_Inr)

text \<open>An optional argument with a default, as in \<open>d.get(k, default)\<close>.\<close>

definition get_default :: "'a option \<Rightarrow> 'a \<Rightarrow> 'a" where
  "get_default v d = (case v of None \<Rightarrow> d | Some x \<Rightarrow> x)"

lemma get_default_simps [simp]: "get_default None d = d" "get_default (Some x) d = x"
  by (simp_all add: get_default_def)

section \<open>World-passing actions\<close>

definition areturn :: "'a \<Rightarrow> ('w, 'a) act" where
  "areturn x w = (Inr x, w)"

definition araise :: "py_exc \<Rightarrow> ('w, 'a) act" where
  "araise e w = (Inl e, w)"

definition alift :: "'a res \<Rightarrow> ('w, 'a) act" where
  "alift r w = (r, w)"

definition abind :: "('w, 'a) act \<Rightarrow> ('a \<Rightarrow> ('w, 'b) act) \<Rightarrow> ('w, 'b) act" where
  "abind m f w = (case m w of (Inl e, w') \<Rightarrow> (Inl e, w') | (Inr x, w') \<Rightarrow> f x w')"

lemmas act_defs = areturn_def araise_def alift_def abind_def

lemma abind_cases [monad_simps]:
  "m w = (Inl e, w') \<Longrightarrow> abind m f w = (Inl e, w')"
  "m w = (Inr x, w') \<Longrightarrow> abind m f w = f x w'"
  by (simp_all add: abind_def)

lemma abind_simps [simp]:
  "abind (areturn x) f = f x"
  "abind (araise e) f = araise e"
  "abind (alift (Inr x)) f = f x"
  "abind (alift (Inl e)) f = araise e"
  by (auto simp: act_defs fun_eq_iff)

lemma abind_eq_Inr:
  "abind m f w = (Inr y, w'') \<longleftrightarrow> (\<exists>x w'. m w = (Inr x, w') \<and> f x w' = (Inr y, w''))"
  by (auto simp: abind_def split: prod.splits sum.splits)

lemma abind_InrE:
  assumes "abind m f w = (Inr y, w'')"
  obtains x w' where "m w = (Inr x, w')" and "f x w' = (Inr y, w'')"
  using assms by (auto simp: abind_eq_Inr)

lemma areturn_eq [simp]: "areturn x w = (r, w') \<longleftrightarrow> r = Inr x \<and> w' = w"
  by (auto simp: areturn_def)

text \<open>
  A loop over a list in the world, and an action of the outer world run beside the state of an
  object, which keeps its changes when an exception is raised.
\<close>

fun amap :: "('a \<Rightarrow> ('w, 'b) act) \<Rightarrow> 'a list \<Rightarrow> ('w, 'b list) act" where
  "amap f [] = areturn []"
| "amap f (x # xs) = abind (f x) (\<lambda>y. abind (amap f xs) (\<lambda>ys. areturn (y # ys)))"

fun afold :: "('a \<Rightarrow> 's \<Rightarrow> ('w, 's) act) \<Rightarrow> 'a list \<Rightarrow> 's \<Rightarrow> ('w, 's) act" where
  "afold f [] s = areturn s"
| "afold f (x # xs) s = abind (f x s) (afold f xs)"

definition outer :: "('w, 'a) act \<Rightarrow> ('w \<times> 's, 'a) act" where
  "outer m ws = (case m (fst ws) of (r, w') \<Rightarrow> (r, (w', snd ws)))"

definition get_obj :: "('w \<times> 's, 's) act" where
  "get_obj ws = (Inr (snd ws), ws)"

definition put_obj :: "'s \<Rightarrow> ('w \<times> 's, unit) act" where
  "put_obj s ws = (Inr (), (fst ws, s))"

lemma outer_eq: "outer m (w, s) = (fst (m w), (snd (m w), s))"
  by (simp add: outer_def split: prod.split)

lemma abind_obj [simp]:
  "abind get_obj f (w, s) = f s (w, s)"
  "abind (put_obj t) f (w, s) = f () (w, t)"
  by (simp_all add: abind_def get_obj_def put_obj_def)

text \<open>\<open>try: ... except: handler\<close> for every exception.\<close>

definition atry :: "('w, 'a) act \<Rightarrow> 'a \<Rightarrow> ('w, 'a) act" where
  "atry m x w = (case m w of (Inl e, w') \<Rightarrow> (Inr x, w') | (Inr y, w') \<Rightarrow> (Inr y, w'))"

text \<open>
  Two rules of reasoning about actions: \<open>yields P m\<close> says that every result of \<open>m\<close> satisfies \<open>P\<close>, and
  \<open>keeps I m\<close> that \<open>m\<close> does not change the part \<open>I\<close> of the world, also when it raises.
\<close>

named_theorems keeps_rules \<open>introduction rules for actions that keep a part of the world\<close>

definition yields :: "('a \<Rightarrow> bool) \<Rightarrow> ('w, 'a) act \<Rightarrow> bool" where
  "yields P m \<longleftrightarrow> (\<forall>w x w'. m w = (Inr x, w') \<longrightarrow> P x)"

definition keeps :: "('w \<Rightarrow> 'v) \<Rightarrow> ('w, 'a) act \<Rightarrow> bool" where
  "keeps I m \<longleftrightarrow> (\<forall>w. I (snd (m w)) = I w)"

lemma yields_abind: "(\<And>x. yields P (f x)) \<Longrightarrow> yields P (abind m f)"
  unfolding yields_def by (auto elim!: abind_InrE)

lemma yields_abind_with: "yields Q m \<Longrightarrow> (\<And>x. Q x \<Longrightarrow> yields P (f x)) \<Longrightarrow> yields P (abind m f)"
  unfolding yields_def by (blast elim: abind_InrE)

lemma yieldsD: "yields P m \<Longrightarrow> m w = (Inr x, w') \<Longrightarrow> P x"
  by (auto simp: yields_def)

lemma yields_areturn: "P x \<Longrightarrow> yields P (areturn x)"
  by (simp add: yields_def)

lemma yields_alift: "(\<And>x. r = Inr x \<Longrightarrow> P x) \<Longrightarrow> yields P (alift r)"
  by (auto simp: yields_def alift_def)

lemma keeps_basic [keeps_rules]: "keeps I (areturn x)" "keeps I (araise e)" "keeps I (alift r)"
  by (simp_all add: keeps_def areturn_def araise_def alift_def)

lemma keeps_abind [keeps_rules]: "keeps I m \<Longrightarrow> (\<And>x. keeps I (f x)) \<Longrightarrow> keeps I (abind m f)"
  unfolding keeps_def abind_def by (auto split: prod.splits sum.splits) (metis snd_conv)+

lemma keeps_if [keeps_rules]: "keeps I m \<Longrightarrow> keeps I n \<Longrightarrow> keeps I (if b then m else n)"
  by simp

lemma keeps_afold [keeps_rules]: "(\<And>x s. keeps I (f x s)) \<Longrightarrow> keeps I (afold f xs s)"
  by (induction xs arbitrary: s) (auto intro: keeps_rules)

lemma keeps_atry [keeps_rules]: "keeps I m \<Longrightarrow> keeps I (atry m x)"
  unfolding keeps_def atry_def by (auto split: prod.splits sum.splits) (metis snd_conv)+

lemma keeps_outer [keeps_rules]: "keeps I m \<Longrightarrow> keeps (\<lambda>ws. I (fst ws)) (outer m)"
  by (simp add: keeps_def outer_def split: prod.splits) (metis snd_conv)

lemma keeps_obj [keeps_rules]: "keeps (\<lambda>ws. I (fst ws)) get_obj" "keeps (\<lambda>ws. I (fst ws)) (put_obj s)"
  by (simp_all add: keeps_def get_obj_def put_obj_def)

lemma keeps_case_prod [keeps_rules]: "(\<And>a b. keeps I (f a b)) \<Longrightarrow> keeps I (case p of (a, b) \<Rightarrow> f a b)"
  by (cases p) simp

lemma keeps_case_option [keeps_rules]:
  "keeps I m \<Longrightarrow> (\<And>x. keeps I (f x)) \<Longrightarrow> keeps I (case v of None \<Rightarrow> m | Some x \<Rightarrow> f x)"
  by (cases v) simp_all

section \<open>Dictionaries\<close>

text \<open>
  A Python \<open>dict\<close> keeps its keys in the order of their first insertion; storing under a key that
  is present keeps its place. \<open>AList.update\<close> does exactly this on an association list.
\<close>

type_synonym ('k, 'v) dict = "('k \<times> 'v) list"

definition dict_get :: "('k, 'v) dict \<Rightarrow> 'k \<Rightarrow> 'v option" where
  "dict_get d k = map_of d k"

definition dict_set :: "'k \<Rightarrow> 'v \<Rightarrow> ('k, 'v) dict \<Rightarrow> ('k, 'v) dict" where
  "dict_set k v d = AList.update k v d"

definition dict_keys :: "('k, 'v) dict \<Rightarrow> 'k list" where
  "dict_keys d = map fst d"

definition dict_values :: "('k, 'v) dict \<Rightarrow> 'v list" where
  "dict_values d = map snd d"

definition dict_has :: "('k, 'v) dict \<Rightarrow> 'k \<Rightarrow> bool" where
  "dict_has d k \<longleftrightarrow> dict_get d k \<noteq> None"

definition dict_setdefault :: "'k \<Rightarrow> 'v \<Rightarrow> ('k, 'v) dict \<Rightarrow> ('k, 'v) dict" where
  "dict_setdefault k v d = (if dict_has d k then d else dict_set k v d)"

definition dict_index :: "(string, 'v) dict \<Rightarrow> string \<Rightarrow> 'v res" where
  "dict_index d k = (case dict_get d k of None \<Rightarrow> Inl (KeyError k) | Some v \<Rightarrow> Inr v)"

definition wf_dict :: "('k, 'v) dict \<Rightarrow> bool" where
  "wf_dict d \<longleftrightarrow> distinct (dict_keys d)"

text \<open>What a client of a dictionary may rely on: the contract of \<open>d[k] = v\<close> and \<open>d.get(k)\<close>.\<close>

locale dict_interface =
  fixes empty :: 'd
    and get :: "'d \<Rightarrow> 'k \<Rightarrow> 'v option"
    and store :: "'k \<Rightarrow> 'v \<Rightarrow> 'd \<Rightarrow> 'd"
    and keys :: "'d \<Rightarrow> 'k list"
  assumes get_empty: "get empty k = None"
    and keys_empty: "keys empty = []"
    and get_store: "get (store k v d) k' = (if k' = k then Some v else get d k')"
    and keys_store: "keys (store k v d) = (if k \<in> set (keys d) then keys d else keys d @ [k])"
begin

definition build :: "('k \<times> 'v) list \<Rightarrow> 'd" where
  "build kvs = fold (\<lambda>(k, v) d. store k v d) kvs empty"

text \<open>A dictionary filled from a list of pairs: the last pair of a key wins.\<close>

lemma get_fold: "get (fold (\<lambda>(k, v) d. store k v d) kvs d) k =
    (case map_of (rev kvs) k of Some v \<Rightarrow> Some v | None \<Rightarrow> get d k)"
  by (induction kvs rule: rev_induct) (auto simp: get_store map_of_append split: option.splits)

lemma get_build: "get (build kvs) k = map_of (rev kvs) k"
  unfolding build_def get_fold by (simp add: get_empty split: option.splits)

lemma set_keys_fold: "set (keys (fold (\<lambda>(k, v) d. store k v d) kvs d)) = set (keys d) \<union> fst ` set kvs"
  by (induction kvs arbitrary: d) (auto simp: keys_store split: if_splits)

lemma set_keys_build: "set (keys (build kvs)) = fst ` set kvs"
  unfolding build_def set_keys_fold by (simp add: keys_empty)

lemma distinct_keys_store: "distinct (keys d) \<Longrightarrow> distinct (keys (store k v d))"
  by (simp add: keys_store)

lemma distinct_keys_fold: "distinct (keys d) \<Longrightarrow> distinct (keys (fold (\<lambda>(k, v) d. store k v d) kvs d))"
  by (induction kvs arbitrary: d) (auto simp: keys_store)

lemma distinct_keys_build: "distinct (keys (build kvs))"
  unfolding build_def by (rule distinct_keys_fold) (simp add: keys_empty)

text \<open>With distinct keys the dictionary lists them in the order of the pairs.\<close>

lemma keys_build_distinct: "distinct (map fst kvs) \<Longrightarrow> keys (build kvs) = map fst kvs"
proof (induction kvs rule: rev_induct)
  case Nil
  then show ?case by (simp add: build_def keys_empty)
next
  case (snoc kv kvs)
  obtain k v where kv: "kv = (k, v)" by force
  with snoc have "keys (build kvs) = map fst kvs" and "k \<notin> set (map fst kvs)" by auto
  then show ?case using kv by (simp add: build_def keys_store)
qed

end

lemma dict_keys_set:
  "dict_keys (dict_set k v d) = (if k \<in> set (dict_keys d) then dict_keys d else dict_keys d @ [k])"
  by (simp add: dict_keys_def dict_set_def update_keys)

interpretation pyd: dict_interface "[]" dict_get dict_set dict_keys
  by unfold_locales
    (simp_all add: dict_get_def dict_keys_set update_conv' dict_set_def del: update_keys,
      simp_all add: dict_keys_def update_keys)

definition dict_of :: "('k \<times> 'v) list \<Rightarrow> ('k, 'v) dict" where
  "dict_of kvs = fold (\<lambda>(k, v) d. dict_set k v d) kvs []"

lemma dict_of_build: "dict_of kvs = pyd.build kvs"
  by (simp add: dict_of_def pyd.build_def)

lemma dict_get_of [dict_simps]: "dict_get (dict_of kvs) k = map_of (rev kvs) k"
  by (simp add: dict_of_build pyd.get_build)

lemma wf_dict_of [dict_simps, simp]: "wf_dict (dict_of kvs)"
  by (simp add: wf_dict_def dict_of_build pyd.distinct_keys_build)

lemma set_dict_keys_of [dict_simps]: "set (dict_keys (dict_of kvs)) = fst ` set kvs"
  by (simp add: dict_of_build pyd.set_keys_build)

lemma dict_get_set [dict_simps]: "dict_get (dict_set k v d) k' = (if k' = k then Some v else dict_get d k')"
  by (rule pyd.get_store)

lemma wf_dict_Nil [simp]: "wf_dict []"
  by (simp add: wf_dict_def dict_keys_def)

lemma wf_dict_set [simp, intro]: "wf_dict d \<Longrightarrow> wf_dict (dict_set k v d)"
  by (simp add: wf_dict_def pyd.distinct_keys_store)

lemma wf_dict_setdefault [simp, intro]: "wf_dict d \<Longrightarrow> wf_dict (dict_setdefault k v d)"
  by (simp add: dict_setdefault_def)

lemma dict_get_setdefault [dict_simps]:
  "dict_get (dict_setdefault k v d) k' =
    (if k' = k \<and> dict_get d k = None then Some v else dict_get d k')"
  by (auto simp: dict_setdefault_def dict_has_def dict_get_set)

lemma dict_get_in: "wf_dict d \<Longrightarrow> dict_get d k = Some v \<longleftrightarrow> (k, v) \<in> set d"
  by (simp add: wf_dict_def dict_get_def dict_keys_def)

lemma dict_get_None: "dict_get d k = None \<longleftrightarrow> k \<notin> set (dict_keys d)"
  by (simp add: dict_get_def dict_keys_def map_of_eq_None_iff)

lemma dict_get_SomeD: "dict_get d k = Some v \<Longrightarrow> (k, v) \<in> set d"
  by (simp add: dict_get_def map_of_SomeD)

lemma dict_set_append: "k \<notin> set (dict_keys d) \<Longrightarrow> dict_set k v d = d @ [(k, v)]"
  by (induction d) (auto simp: dict_set_def dict_keys_def)

lemma dict_set_mem: "kv \<in> set (dict_set k v d) \<Longrightarrow> kv = (k, v) \<or> kv \<in> set d"
  by (induction d) (auto simp: dict_set_def split: if_splits)

section \<open>List lemmas\<close>

lemma sort_key_mset: "mset (sort_key f xs) = mset xs"
  by simp

lemma sorted_append_before:
  assumes "sorted (map f (xs @ x # ys @ y # zs))"
  shows "f x \<le> f y"
  using assms by (auto simp: sorted_append)

lemma mset_concat_map: "mset (concat (map f xs)) = (\<Sum>x\<leftarrow>xs. mset (f x))"
  by (induction xs) auto

lemma concat_if: "concat (map (\<lambda>k. if P k then [f k] else []) xs) = map f (filter P xs)"
  by (induction xs) auto

lemma set_map_if:
  "set (map (\<lambda>x. if f x = i then r else x) xs) = {x \<in> set xs. f x \<noteq> i} \<union> {y. y = r \<and> (\<exists>x \<in> set xs. f x = i)}"
  by (induction xs) auto

lemma filter_const_concat:
  "(\<And>y. y \<in> set xs \<Longrightarrow> y \<noteq> x \<Longrightarrow> filter P (f y) = []) \<Longrightarrow> distinct xs \<Longrightarrow> x \<in> set xs \<Longrightarrow>
    filter P (concat (map f xs)) = filter P (f x)"
proof (induction xs)
  case Nil
  then show ?case by simp
next
  case (Cons y ys)
  have rest: "filter P (concat (map f ys)) = []" if "\<And>y. y \<in> set ys \<Longrightarrow> filter P (f y) = []"
    using that by (induction ys) auto
  show ?case
  proof (cases "y = x")
    case True
    with Cons.prems have "\<And>z. z \<in> set ys \<Longrightarrow> filter P (f z) = []" by auto
    with True rest show ?thesis by simp
  next
    case False
    with Cons show ?thesis by simp
  qed
qed

section \<open>Grouping into a dictionary of lists\<close>

text \<open>\<open>if k not in d: d[k] = []\<close> followed by \<open>d[k].append(x)\<close>.\<close>

text \<open>A loop that stores one pair per element: the last element of a key wins.\<close>

lemma rfold_store:
  assumes "rfold (\<lambda>x d. rbind (f x) (\<lambda>(k, v). Inr (dict_set k v d))) xs d = Inr d'"
  shows "\<exists>kvs. rmap f xs = Inr kvs \<and> d' = fold (\<lambda>(k, v) d. dict_set k v d) kvs d"
  using assms by (induction xs arbitrary: d) (fastforce simp: rbind_eq_Inr)+

lemma map_of_rev_find:
  assumes "list_all2 (\<lambda>x (k, v). key x = Some k \<and> val x = v) xs kvs"
  shows "map_of (rev kvs) k = map_option val (find (\<lambda>x. key x = Some k) (rev xs))"
proof -
  have "list_all2 (\<lambda>x (k, v). key x = Some k \<and> val x = v) (rev xs) (rev kvs)"
    using assms by simp
  then show ?thesis by (induction rule: list_all2_induct) auto
qed

definition dict_append :: "'k \<Rightarrow> 'v \<Rightarrow> ('k, 'v list) dict \<Rightarrow> ('k, 'v list) dict" where
  "dict_append k x d = dict_set k ((case dict_get d k of None \<Rightarrow> [] | Some l \<Rightarrow> l) @ [x]) d"

definition group_by :: "('v \<Rightarrow> 'k) \<Rightarrow> 'v list \<Rightarrow> ('k, 'v list) dict" where
  "group_by f xs = fold (\<lambda>x d. dict_append (f x) x d) xs []"

lemma group_by_Nil [simp]: "group_by f [] = []"
  by (simp add: group_by_def)

lemma group_by_snoc: "group_by f (xs @ [x]) = dict_append (f x) x (group_by f xs)"
  by (simp add: group_by_def)

lemma wf_group_by [simp]: "wf_dict (group_by f xs)"
  by (induction xs rule: rev_induct) (auto simp: group_by_snoc dict_append_def)

lemma dict_get_group_by:
  "dict_get (group_by f xs) k =
     (if \<exists>x \<in> set xs. f x = k then Some (filter (\<lambda>x. f x = k) xs) else None)"
proof (induction xs rule: rev_induct)
  case Nil
  then show ?case by (simp add: dict_get_def)
next
  case (snoc x xs)
  show ?case
  proof (cases "f x = k")
    case True
    then show ?thesis using snoc
      by (cases "\<exists>y \<in> set xs. f y = k") (auto simp: group_by_snoc dict_append_def dict_get_set filter_empty_conv)
  next
    case False
    then show ?thesis using snoc by (auto simp: group_by_snoc dict_append_def dict_get_set)
  qed
qed

lemma group_by_entry:
  assumes "(k, ys) \<in> set (group_by f xs)"
  shows "ys = filter (\<lambda>x. f x = k) xs" and "ys \<noteq> []"
proof -
  have "dict_get (group_by f xs) k = Some ys" using assms by (simp add: dict_get_in)
  then show "ys = filter (\<lambda>x. f x = k) xs" and "ys \<noteq> []"
    by (auto simp: dict_get_group_by filter_empty_conv split: if_splits)
qed

lemma group_by_keys: "k \<in> fst ` set (group_by f xs) \<longleftrightarrow> (\<exists>x \<in> set xs. f x = k)"
  using dict_get_None [of "group_by f xs" k] by (auto simp: dict_get_group_by dict_keys_def split: if_splits)

lemma mset_dict_append:
  "mset (concat (map snd (dict_append k x d))) = add_mset x (mset (concat (map snd d)))"
  by (induction d) (auto simp: dict_append_def dict_set_def dict_get_def split: option.splits)

lemma mset_group_by: "mset (concat (map snd (group_by f xs))) = mset xs"
  by (induction xs rule: rev_induct) (auto simp: group_by_snoc mset_dict_append)

lemma mset_concat_cong:
  "(\<And>k ys. mset (g k ys) = mset ys) \<Longrightarrow>
     mset (concat (map (\<lambda>(k, ys). g k ys) d)) = mset (concat (map snd d))"
  by (induction d) auto

lemma mset_concat_groups:
  "(\<And>k ys. mset (g k ys) = mset ys) \<Longrightarrow> mset (concat (map (\<lambda>(k, ys). g k ys) (group_by f xs))) = mset xs"
  by (simp add: mset_concat_cong mset_group_by)

text \<open>Whatever permutation is applied to each group, the elements of one group keep its order.\<close>

lemma filter_concat_groups:
  assumes "\<And>k ys. mset (g k ys) = mset ys"
  shows "filter (\<lambda>x. f x = k) (concat (map (\<lambda>(k, ys). g k ys) (group_by f xs))) =
    g k (filter (\<lambda>x. f x = k) xs)"
proof -
  let ?d = "group_by f xs"
  have g_set: "set (g k ys) = set ys" for k ys using assms [of k ys] by (metis set_mset_mset)
  have own: "filter (\<lambda>x. f x = k') (g k' (filter (\<lambda>x. f x = k') xs)) = g k' (filter (\<lambda>x. f x = k') xs)" for k'
    by (simp add: filter_id_conv g_set)
  have other: "filter (\<lambda>x. f x = k) (case kys of (k', ys) \<Rightarrow> g k' ys) = []"
    if "kys \<in> set ?d" and "fst kys \<noteq> k" for kys
    using that group_by_entry [of "fst kys" "snd kys" f xs]
    by (auto simp: filter_empty_conv g_set split: prod.splits)
  show ?thesis
  proof (cases "\<exists>x \<in> set xs. f x = k")
    case True
    let ?ks = "(k, filter (\<lambda>x. f x = k) xs)"
    have mem: "?ks \<in> set ?d" using True by (simp flip: dict_get_in add: dict_get_group_by)
    have "filter (\<lambda>x. f x = k) (concat (map (\<lambda>(k, ys). g k ys) ?d)) =
        filter (\<lambda>x. f x = k) (case ?ks of (k', ys) \<Rightarrow> g k' ys)"
    proof (rule filter_const_concat)
      show "distinct ?d" using wf_group_by [of f xs] by (simp add: wf_dict_def dict_keys_def distinct_map)
      fix y
      assume y: "y \<in> set ?d" "y \<noteq> ?ks"
      then have "fst y \<noteq> k" using group_by_entry(1) [of "fst y" "snd y" f xs] by (metis prod.collapse)
      with y show "filter (\<lambda>x. f x = k) (case y of (k', ys) \<Rightarrow> g k' ys) = []" by (intro other)
    qed (rule mem)
    then show ?thesis by (simp add: own)
  next
    case False
    have "filter (\<lambda>x. f x = k) (concat (map (\<lambda>(k, ys). g k ys) ?d)) = []"
      using False other group_by_keys [of k f xs] by (auto simp: filter_concat)
    moreover have "g k [] = []" using assms [of k "[]"] by simp
    ultimately show ?thesis using False by (simp add: filter_empty_conv)
  qed
qed

lemma sorted_prefix_mem:
  assumes "sorted (map f (ps @ qs))" and "a \<in> set ps" and "r \<in> set (ps @ qs)" and "f r < f a"
  shows "r \<in> set ps"
  using assms by (force simp: sorted_append)

end
