(* ===== verification/PyStr.thy ===== *)
theory PyStr
  imports Prelude
begin

text \<open>
  The part of Python's \<open>str\<close> the sources use, on \<^typ>\<open>string\<close>; a character stands for the code
  point of its number (0 to 255). Whitespace and line boundaries are Python's for that range.
\<close>

abbreviation TAB :: char where "TAB \<equiv> CHR 0x09"
abbreviation NL :: char where "NL \<equiv> CHR 0x0A"
abbreviation CR :: char where "CR \<equiv> CHR 0x0D"
abbreviation DQUOTE :: char where "DQUOTE \<equiv> CHR 0x22"
abbreviation SQUOTE :: char where "SQUOTE \<equiv> CHR 0x27"
abbreviation BACKSLASH :: char where "BACKSLASH \<equiv> CHR 0x5C"

section \<open>Character classes\<close>

definition is_space :: "char \<Rightarrow> bool" where
  "is_space c \<longleftrightarrow> (let n = (of_char c :: nat) in
     (9 \<le> n \<and> n \<le> 13) \<or> (28 \<le> n \<and> n \<le> 32) \<or> n = 133 \<or> n = 160)"

definition is_digit :: "char \<Rightarrow> bool" where
  "is_digit c \<longleftrightarrow> (let n = (of_char c :: nat) in 48 \<le> n \<and> n \<le> 57)"

definition is_hexdigit :: "char \<Rightarrow> bool" where
  "is_hexdigit c \<longleftrightarrow> (let n = (of_char c :: nat) in
     (48 \<le> n \<and> n \<le> 57) \<or> (65 \<le> n \<and> n \<le> 70) \<or> (97 \<le> n \<and> n \<le> 102))"

definition is_line_break :: "char \<Rightarrow> bool" where
  "is_line_break c \<longleftrightarrow> (let n = (of_char c :: nat) in
     (10 \<le> n \<and> n \<le> 13) \<or> (28 \<le> n \<and> n \<le> 30) \<or> n = 133)"

definition digit_val :: "char \<Rightarrow> nat" where
  "digit_val c = of_char c - 48"

definition hex_val :: "char \<Rightarrow> nat" where
  "hex_val c = (let n = (of_char c :: nat) in
     if n \<le> 57 then n - 48 else if n \<le> 70 then n - 55 else n - 87)"

definition digit_char :: "nat \<Rightarrow> char" where
  "digit_char n = char_of (48 + n)"

definition hex_char :: "nat \<Rightarrow> char" where
  "hex_char n = (if n < 10 then char_of (48 + n) else char_of (87 + n))"

definition to_lower :: "char \<Rightarrow> char" where
  "to_lower c = (let n = (of_char c :: nat) in if 65 \<le> n \<and> n \<le> 90 then char_of (n + 32) else c)"

lemma of_char_digit_char: "n < 10 \<Longrightarrow> of_char (digit_char n) = 48 + n"
  by (simp add: digit_char_def of_char_of)

lemma of_char_hex_char: "n < 16 \<Longrightarrow> of_char (hex_char n) = (if n < 10 then 48 + n else 87 + n)"
  by (simp add: hex_char_def of_char_of)

lemma digit_char_digit [simp]: "n < 10 \<Longrightarrow> is_digit (digit_char n)"
  by (simp add: is_digit_def of_char_digit_char)

lemma digit_val_char [simp]: "n < 10 \<Longrightarrow> digit_val (digit_char n) = n"
  by (simp add: digit_val_def of_char_digit_char)

lemma hex_char_hexdigit [simp]: "n < 16 \<Longrightarrow> is_hexdigit (hex_char n)"
  by (auto simp: is_hexdigit_def of_char_hex_char Let_def)

lemma hex_val_char [simp]: "n < 16 \<Longrightarrow> hex_val (hex_char n) = n"
  by (auto simp: hex_val_def of_char_hex_char Let_def)

lemma digit_not_space: "is_digit c \<Longrightarrow> \<not> is_space c"
  by (auto simp: is_digit_def is_space_def Let_def)

lemma digit_val_less: "is_digit c \<Longrightarrow> digit_val c < 10"
  by (auto simp: is_digit_def digit_val_def Let_def)

lemma hex_val_less: "is_hexdigit c \<Longrightarrow> hex_val c < 16"
  by (auto simp: is_hexdigit_def hex_val_def Let_def)

lemma digit_char_val: "is_digit c \<Longrightarrow> digit_char (digit_val c) = c"
  by (auto simp: is_digit_def digit_val_def digit_char_def Let_def)

section \<open>Prefixes, suffixes and substrings\<close>

fun startswith :: "string \<Rightarrow> string \<Rightarrow> bool" where
  "startswith s [] = True"
| "startswith [] (p # ps) = False"
| "startswith (c # s) (p # ps) = (c = p \<and> startswith s ps)"

definition endswith :: "string \<Rightarrow> string \<Rightarrow> bool" where
  "endswith s t = startswith (rev s) (rev t)"

fun str_contains :: "string \<Rightarrow> string \<Rightarrow> bool" where
  "str_contains [] t = (t = [])"
| "str_contains (c # s) t = (startswith (c # s) t \<or> str_contains s t)"

lemma startswith_iff: "startswith s p \<longleftrightarrow> (\<exists>r. s = p @ r)"
  by (induction s p rule: startswith.induct) auto

lemma endswith_iff: "endswith s t \<longleftrightarrow> (\<exists>r. s = r @ t)"
  unfolding endswith_def startswith_iff by (metis rev_append rev_rev_ident)

lemma str_contains_iff: "str_contains s t \<longleftrightarrow> (\<exists>a b. s = a @ t @ b)"
proof (induction s t rule: str_contains.induct)
  case (1 t)
  then show ?case by auto
next
  case (2 c s t)
  have "(\<exists>a b. c # s = a @ t @ b) \<longleftrightarrow> (\<exists>b. c # s = t @ b) \<or> (\<exists>a b. s = a @ t @ b)"
    by (metis append_Cons append_Nil neq_Nil_conv list.inject)
  then show ?case using 2 by (simp add: startswith_iff del: startswith.simps)
qed

section \<open>Stripping\<close>

definition lstrip_by :: "(char \<Rightarrow> bool) \<Rightarrow> string \<Rightarrow> string" where
  "lstrip_by p s = dropWhile p s"

definition rstrip_by :: "(char \<Rightarrow> bool) \<Rightarrow> string \<Rightarrow> string" where
  "rstrip_by p s = rev (dropWhile p (rev s))"

definition strip :: "string \<Rightarrow> string" where
  "strip s = rstrip_by is_space (lstrip_by is_space s)"

lemma rstrip_by_id: "s = [] \<or> \<not> p (last s) \<Longrightarrow> rstrip_by p s = s"
  by (cases s rule: rev_cases) (auto simp: rstrip_by_def)

lemma lstrip_by_id: "s = [] \<or> \<not> p (hd s) \<Longrightarrow> lstrip_by p s = s"
  by (cases s) (auto simp: lstrip_by_def)

lemma rstrip_by_last: "rstrip_by p s \<noteq> [] \<Longrightarrow> \<not> p (last (rstrip_by p s))"
  unfolding rstrip_by_def by (metis hd_dropWhile last_rev rev_is_Nil_conv)

lemma strip_no_space: "\<forall>c \<in> set s. \<not> is_space c \<Longrightarrow> strip s = s"
proof (cases "s = []")
  case True
  then show ?thesis by (simp add: strip_def lstrip_by_def rstrip_by_def)
next
  case False
  moreover assume "\<forall>c \<in> set s. \<not> is_space c"
  ultimately have "\<not> is_space (hd s)" and "\<not> is_space (last s)" by auto
  then show ?thesis by (simp add: strip_def lstrip_by_id rstrip_by_id)
qed

section \<open>Splitting and joining\<close>

text \<open>\<open>s.split(sep)\<close> for a one-character separator.\<close>

fun split_on :: "char \<Rightarrow> string \<Rightarrow> string list" where
  "split_on x [] = [[]]"
| "split_on x (c # cs) =
     (if c = x then [] # split_on x cs
      else (case split_on x cs of [] \<Rightarrow> [[c]] | p # ps \<Rightarrow> (c # p) # ps))"

text \<open>\<open>s.split(sep, n)\<close>: at most \<open>n\<close> splits, the rest is left whole.\<close>

fun split_max :: "char \<Rightarrow> nat \<Rightarrow> string \<Rightarrow> string list" where
  "split_max x 0 s = [s]"
| "split_max x (Suc n) s =
     (case dropWhile (\<lambda>c. c \<noteq> x) s of
        [] \<Rightarrow> [s]
      | _ # rest \<Rightarrow> takeWhile (\<lambda>c. c \<noteq> x) s # split_max x n rest)"

text \<open>\<open>s.partition(sep)\<close>: the parts before and after the first separator, and whether there is one.\<close>

definition partition_on :: "char \<Rightarrow> string \<Rightarrow> string \<times> bool \<times> string" where
  "partition_on x s =
     (case dropWhile (\<lambda>c. c \<noteq> x) s of
        [] \<Rightarrow> (s, False, [])
      | _ # rest \<Rightarrow> (takeWhile (\<lambda>c. c \<noteq> x) s, True, rest))"

text \<open>\<open>s.split()\<close>: runs of whitespace separate, no empty parts.\<close>

function split_ws :: "string \<Rightarrow> string list" where
  "split_ws s = (case dropWhile is_space s of
     [] \<Rightarrow> []
   | c # cs \<Rightarrow> takeWhile (\<lambda>x. \<not> is_space x) (c # cs) #
        split_ws (dropWhile (\<lambda>x. \<not> is_space x) cs))"
  by pat_completeness auto
termination
proof (relation "measure length", simp)
  fix s c cs
  assume "dropWhile is_space s = c # cs"
  then have "length (c # cs) \<le> length s" by (metis length_dropWhile_le)
  moreover have "length (dropWhile (\<lambda>x. \<not> is_space x) cs) \<le> length cs" by (rule length_dropWhile_le)
  ultimately show "(dropWhile (\<lambda>x. \<not> is_space x) cs, s) \<in> measure length" by simp
qed

declare split_ws.simps [simp del]

text \<open>\<open>s.splitlines()\<close>: a line break ends a line, \<open>\r\n\<close> is one break, a final break adds no line.\<close>

fun splitlines_acc :: "string \<Rightarrow> string \<Rightarrow> string list" where
  "splitlines_acc acc [] = (if acc = [] then [] else [rev acc])"
| "splitlines_acc acc (c # cs) =
     (if c = CR \<and> cs \<noteq> [] \<and> hd cs = NL then rev acc # splitlines_acc [] (tl cs)
      else if is_line_break c then rev acc # splitlines_acc [] cs
      else splitlines_acc (c # acc) cs)"

definition splitlines :: "string \<Rightarrow> string list" where
  "splitlines s = splitlines_acc [] s"

text \<open>\<open>s.replace(old, new)\<close> for a non-empty \<open>old\<close>: non-overlapping occurrences from the left.\<close>

function str_replace :: "string \<Rightarrow> string \<Rightarrow> string \<Rightarrow> string" where
  "str_replace old new [] = []"
| "str_replace old new (c # cs) =
     (if old \<noteq> [] \<and> startswith (c # cs) old then new @ str_replace old new (drop (length old) (c # cs))
      else c # str_replace old new cs)"
  by pat_completeness auto
termination by (relation "measure (\<lambda>(old, new, s). length s)") auto

fun join :: "string \<Rightarrow> string list \<Rightarrow> string" where
  "join sep [] = []"
| "join sep [s] = s"
| "join sep (s # t # ts) = s @ sep @ join sep (t # ts)"

lemma join_Cons: "ts \<noteq> [] \<Longrightarrow> join sep (s # ts) = s @ sep @ join sep ts"
  by (cases ts) auto

lemma split_on_nonempty [simp]: "split_on x s \<noteq> []"
  by (induction s) (auto split: list.splits)

lemma split_on_no_sep: "p \<in> set (split_on x s) \<Longrightarrow> x \<notin> set p"
proof (induction s arbitrary: p)
  case Nil
  then show ?case by simp
next
  case (Cons c cs)
  then show ?case by (auto split: if_splits list.splits) 
qed

lemma split_on_fresh: "x \<notin> set s \<Longrightarrow> split_on x s = [s]"
  by (induction s) auto

lemma split_on_append: "x \<notin> set s \<Longrightarrow> split_on x (s @ x # t) = s # split_on x t"
  by (induction s) auto

text \<open>Joining what was split gives the string back, and splitting what was joined the parts.\<close>

lemma join_split_on: "join [x] (split_on x s) = s"
proof (induction s)
  case Nil
  then show ?case by simp
next
  case (Cons c cs)
  obtain p ps where ps: "split_on x cs = p # ps" by (cases "split_on x cs") auto
  with Cons show ?case by (cases ps) auto
qed

lemma split_on_join:
  "ps \<noteq> [] \<Longrightarrow> \<forall>p \<in> set ps. x \<notin> set p \<Longrightarrow> split_on x (join [x] ps) = ps"
proof (induction ps)
  case Nil
  then show ?case by simp
next
  case (Cons p ps)
  then show ?case
    by (cases ps) (auto simp: split_on_fresh split_on_append)
qed

lemma split_max_length: "length (split_max x n s) \<le> Suc n"
  by (induction x n s rule: split_max.induct) (auto split: list.splits)

lemma join_split_max: "join [x] (split_max x n s) = s"
proof (induction x n s rule: split_max.induct)
  case (1 x s)
  then show ?case by simp
next
  case (2 x n s)
  show ?case
  proof (cases "dropWhile (\<lambda>c. c \<noteq> x) s")
    case Nil
    then show ?thesis by (simp del: dropWhile_eq_Nil_conv)
  next
    case (Cons y rest)
    then have "y = x" by (metis (mono_tags, lifting) dropWhile_eq_Cons_conv)
    moreover have "split_max x n rest \<noteq> []" by (cases n) (auto split: list.splits)
    moreover have "s = takeWhile (\<lambda>c. c \<noteq> x) s @ x # rest"
      using Cons \<open>y = x\<close> by (metis takeWhile_dropWhile_id)
    ultimately show ?thesis using 2 Cons by (simp add: join_Cons)
  qed
qed

lemma partition_on_fresh: "x \<notin> set s \<Longrightarrow> partition_on x s = (s, False, [])"
proof -
  assume "x \<notin> set s"
  then have "dropWhile (\<lambda>c. c \<noteq> x) s = []" by auto
  then show ?thesis by (simp add: partition_on_def del: dropWhile_eq_Nil_conv)
qed

lemma partition_on_append: "x \<notin> set s \<Longrightarrow> partition_on x (s @ x # t) = (s, True, t)"
  by (induction s) (auto simp: partition_on_def split: list.splits)

lemma splitlines_acc_line:
  assumes "\<forall>c \<in> set s. \<not> is_line_break c"
  shows "splitlines_acc acc (s @ NL # t) = (rev acc @ s) # splitlines_acc [] t"
  using assms
proof (induction s arbitrary: acc)
  case Nil
  then show ?case by (simp add: is_line_break_def)
next
  case (Cons c cs)
  have "\<not> is_line_break CR \<Longrightarrow> False" by (simp add: is_line_break_def)
  with Cons show ?case by auto
qed

lemma splitlines_line:
  "\<forall>c \<in> set s. \<not> is_line_break c \<Longrightarrow> splitlines (s @ NL # t) = s # splitlines t"
  by (simp add: splitlines_def splitlines_acc_line)

lemma splitlines_Nil [simp]: "splitlines [] = []"
  by (simp add: splitlines_def)

section \<open>Integers\<close>

fun show_nat :: "nat \<Rightarrow> string" where
  "show_nat n = (if n < 10 then [digit_char n] else show_nat (n div 10) @ [digit_char (n mod 10)])"

declare show_nat.simps [simp del]

definition show_int :: "int \<Rightarrow> string" where
  "show_int i = (if i < 0 then CHR ''-'' # show_nat (nat (- i)) else show_nat (nat i))"

text \<open>
  \<open>int(s)\<close>: surrounding whitespace is ignored, one sign, then digits with single underscores
  between them; anything else is a \<open>ValueError\<close>.
\<close>

fun int_digits :: "string \<Rightarrow> nat \<Rightarrow> bool \<Rightarrow> nat option" where
  "int_digits [] acc prev = (if prev then Some acc else None)"
| "int_digits (c # cs) acc prev =
     (if is_digit c then int_digits cs (10 * acc + digit_val c) True
      else if c = CHR ''_'' \<and> prev then int_digits cs acc False
      else None)"

definition py_int :: "string \<Rightarrow> int res" where
  "py_int s = (let t = strip s;
       (neg, ds) = (case t of [] \<Rightarrow> (False, [])
                    | c # cs \<Rightarrow> if c = CHR ''-'' then (True, cs)
                                else if c = CHR ''+'' then (False, cs) else (False, t))
     in case int_digits ds 0 False of
          None \<Rightarrow> Inl (ValueError ''invalid literal for int() with base 10'')
        | Some n \<Rightarrow> Inr (if neg then - int n else int n))"

definition isdigit :: "string \<Rightarrow> bool" where
  "isdigit s \<longleftrightarrow> s \<noteq> [] \<and> (\<forall>c \<in> set s. is_digit c)"

lemma show_nat_digits: "\<forall>c \<in> set (show_nat n). is_digit c"
  by (induction n rule: show_nat.induct) (subst show_nat.simps, auto)

lemma show_nat_nonempty [simp]: "show_nat n \<noteq> []"
  by (subst show_nat.simps) auto

lemma isdigit_show_nat: "isdigit (show_nat n)"
  using show_nat_digits by (simp add: isdigit_def)

lemma int_digits_append_digit:
  "is_digit c \<Longrightarrow> int_digits ds a p = Some n \<Longrightarrow>
     int_digits (ds @ [c]) a p = Some (10 * n + digit_val c)"
  by (induction ds a p rule: int_digits.induct) (auto split: if_splits)

lemma int_digits_show_nat: "int_digits (show_nat n) 0 False = Some n"
proof (induction n rule: show_nat.induct)
  case (1 n)
  show ?case
  proof (cases "n < 10")
    case True
    then show ?thesis by (simp add: show_nat.simps [of n])
  next
    case False
    with 1 have "int_digits (show_nat (n div 10)) 0 False = Some (n div 10)" by simp
    then have "int_digits (show_nat (n div 10) @ [digit_char (n mod 10)]) 0 False =
        Some (10 * (n div 10) + n mod 10)"
      by (subst int_digits_append_digit) auto
    with False show ?thesis by (simp add: show_nat.simps [of n])
  qed
qed

lemma isdigit_int_digits: "\<forall>c \<in> set s. is_digit c \<Longrightarrow> s \<noteq> [] \<or> p \<Longrightarrow> \<exists>n. int_digits s a p = Some n"
  by (induction s a p rule: int_digits.induct) auto

lemma sign_not_digit [simp]: "\<not> is_digit (CHR ''-'')" "\<not> is_digit (CHR ''+'')"
  "\<not> is_space (CHR ''-'')" "\<not> is_space (CHR ''+'')"
  by (simp_all add: is_digit_def is_space_def)

lemma show_nat_hd: "\<exists>c cs. show_nat n = c # cs \<and> is_digit c"
  using show_nat_digits [of n] by (cases "show_nat n") auto

lemma strip_show_nat: "strip (show_nat n) = show_nat n"
  using show_nat_digits by (auto intro!: strip_no_space dest: digit_not_space)

lemma strip_show_int: "strip (show_int i) = show_int i"
proof (rule strip_no_space, rule ballI)
  fix c
  assume "c \<in> set (show_int i)"
  then have "is_digit c \<or> c = CHR ''-''"
    using show_nat_digits by (auto simp: show_int_def split: if_splits)
  then show "\<not> is_space c" using digit_not_space by auto
qed

text \<open>Printing an integer and reading it back.\<close>

lemma py_int_show_int: "py_int (show_int i) = Inr i"
proof (cases "i < 0")
  case True
  then show ?thesis
    by (simp add: py_int_def strip_show_int) (simp add: show_int_def int_digits_show_nat)
next
  case False
  obtain c cs where c: "show_nat (nat i) = c # cs" "is_digit c" using show_nat_hd by blast
  then have "c \<noteq> CHR ''-''" "c \<noteq> CHR ''+''" by auto
  with c False have "py_int (show_int i) =
      (case int_digits (show_nat (nat i)) 0 False of
         None \<Rightarrow> Inl (ValueError ''invalid literal for int() with base 10'')
       | Some n \<Rightarrow> Inr (int n))"
    by (simp add: py_int_def strip_show_int) (simp add: show_int_def split: option.splits)
  with False show ?thesis by (simp add: int_digits_show_nat)
qed

lemma show_int_chars: "c \<in> set (show_int i) \<Longrightarrow> is_digit c \<or> c = CHR ''-''"
  using show_nat_digits by (auto simp: show_int_def split: if_splits)

lemma inj_show_int: "show_int i = show_int j \<Longrightarrow> i = j"
  by (metis py_int_show_int sum.inject(2))

lemma inj_show_nat: "show_nat i = show_nat j \<Longrightarrow> i = j"
  by (metis int_digits_show_nat option.inject)

lemma hd_split_on [str_simps]: "hd (split_on c s) = takeWhile (\<lambda>x. x \<noteq> c) s"
  by (induction c s rule: split_on.induct) (auto split: list.splits)

text \<open>The loop that reads a socket: it ends with the first empty chunk.\<close>

fun recv_all :: "string \<Rightarrow> string list \<Rightarrow> string" where
  "recv_all received [] = received"
| "recv_all received (chunk # chunks) = (if chunk = [] then received else recv_all (received @ chunk) chunks)"

end
