(* ===== verification/PyRegex.thy ===== *)
theory PyRegex
  imports PyStr
begin

text \<open>
  Python's \<open>re\<close> module for the patterns of the sources: a syntax tree for compiled patterns and a
  backtracking matcher. The matcher lists every way a pattern can match a prefix of the text, in
  the order in which the backtracking search tries them; \<open>re.match\<close> is the first. A group's
  capture is the text it last consumed. No pattern of the sources has a star over a body that
  matches the empty string, so an iteration that consumes nothing is not repeated.
\<close>

datatype rx =
    REps
  | RCls "char \<Rightarrow> bool"
  | RSeq rx rx
  | RAlt rx rx
  | RStar bool rx   \<comment> \<open>True: greedy, False: lazy\<close>
  | RGrp nat rx
  | REol

type_synonym caps = "(nat \<times> string) list"

function rx_run :: "rx \<Rightarrow> string \<Rightarrow> caps \<Rightarrow> (string \<times> caps) list" where
  "rx_run REps s cs = [(s, cs)]"
| "rx_run (RCls p) s cs = (case s of [] \<Rightarrow> [] | x # xs \<Rightarrow> if p x then [(xs, cs)] else [])"
| "rx_run (RSeq a b) s cs = concat (map (\<lambda>(s', cs'). rx_run b s' cs') (rx_run a s cs))"
| "rx_run (RAlt a b) s cs = rx_run a s cs @ rx_run b s cs"
| "rx_run (RStar g a) s cs =
     (let more = concat (map (\<lambda>(s', cs'). if length s' < length s then rx_run (RStar g a) s' cs' else [])
                   (rx_run a s cs))
      in if g then more @ [(s, cs)] else (s, cs) # more)"
| "rx_run (RGrp i a) s cs =
     map (\<lambda>(s', cs'). (s', (i, take (length s - length s') s) # cs')) (rx_run a s cs)"
| "rx_run REol s cs = (if s = [] \<or> s = [NL] then [(s, cs)] else [])"
  by pat_completeness auto
termination
  by (relation "measures [\<lambda>(r, s, cs). size r, \<lambda>(r, s, cs). length s]") auto

declare rx_run.simps(5) [simp del]

lemma rx_star_mem: "x \<in> set (rx_run (RStar g a) s cs) \<longleftrightarrow> x = (s, cs) \<or>
    (\<exists>t d. (t, d) \<in> set (rx_run a s cs) \<and> length t < length s \<and> x \<in> set (rx_run (RStar g a) t d))"
  by (subst rx_run.simps(5)) (auto simp: Let_def split: if_splits)

text \<open>\<open>re.match\<close>: the text left after the match and the captures, \<open>None\<close> where there is no match.\<close>

definition rx_match :: "rx \<Rightarrow> string \<Rightarrow> (string \<times> caps) option" where
  "rx_match r s = (case rx_run r s [] of [] \<Rightarrow> None | m # _ \<Rightarrow> Some m)"

fun rx_search :: "rx \<Rightarrow> string \<Rightarrow> (string \<times> caps) option" where
  "rx_search r [] = rx_match r []"
| "rx_search r (c # cs) = (case rx_match r (c # cs) of Some m \<Rightarrow> Some m | None \<Rightarrow> rx_search r cs)"

definition rx_group :: "caps \<Rightarrow> nat \<Rightarrow> string" where
  "rx_group cs i = (case map_of cs i of None \<Rightarrow> [] | Some s \<Rightarrow> s)"

text \<open>\<open>re.findall\<close>: the captures of the successive non-empty matches.\<close>

function rx_findall :: "rx \<Rightarrow> string \<Rightarrow> caps list" where
  "rx_findall r [] = []"
| "rx_findall r (c # cs) = (case rx_match r (c # cs) of
      Some (rest, m) \<Rightarrow> if length rest < Suc (length cs) then m # rx_findall r rest else rx_findall r cs
    | None \<Rightarrow> rx_findall r cs)"
  by pat_completeness auto
termination by (relation "measure (\<lambda>(r, s). length s)") auto

text \<open>\<open>re.sub\<close> with the replacement computed from the captures.\<close>

function rx_sub :: "rx \<Rightarrow> (caps \<Rightarrow> string) \<Rightarrow> string \<Rightarrow> string" where
  "rx_sub r f [] = []"
| "rx_sub r f (c # cs) = (case rx_match r (c # cs) of
      Some (rest, m) \<Rightarrow> if length rest < Suc (length cs) then f m @ rx_sub r f rest else c # rx_sub r f cs
    | None \<Rightarrow> c # rx_sub r f cs)"
  by pat_completeness auto
termination by (relation "measure (\<lambda>(r, f, s). length s)") auto

section \<open>Building patterns\<close>

definition rx_chr :: "char \<Rightarrow> rx" where
  "rx_chr c = RCls (\<lambda>x. x = c)"

fun rx_lit :: "string \<Rightarrow> rx" where
  "rx_lit [] = REps"
| "rx_lit [c] = rx_chr c"
| "rx_lit (c # d # cs) = RSeq (rx_chr c) (rx_lit (d # cs))"

fun rx_cat :: "rx list \<Rightarrow> rx" where
  "rx_cat [] = REps"
| "rx_cat [r] = r"
| "rx_cat (r # q # rs) = RSeq r (rx_cat (q # rs))"

fun rx_any :: "rx list \<Rightarrow> rx" where
  "rx_any [] = RCls (\<lambda>_. False)"
| "rx_any [r] = r"
| "rx_any (r # q # rs) = RAlt r (rx_any (q # rs))"

abbreviation rx_star :: "rx \<Rightarrow> rx" where "rx_star r \<equiv> RStar True r"
abbreviation rx_plus :: "rx \<Rightarrow> rx" where "rx_plus r \<equiv> RSeq r (RStar True r)"
abbreviation rx_plus_lazy :: "rx \<Rightarrow> rx" where "rx_plus_lazy r \<equiv> RSeq r (RStar False r)"
abbreviation rx_s :: rx where "rx_s \<equiv> RCls is_space"
abbreviation rx_S :: rx where "rx_S \<equiv> RCls (\<lambda>c. \<not> is_space c)"
abbreviation rx_d :: rx where "rx_d \<equiv> RCls is_digit"
abbreviation rx_dot :: rx where "rx_dot \<equiv> RCls (\<lambda>c. c \<noteq> NL)"
abbreviation rx_not :: "string \<Rightarrow> rx" where "rx_not cs \<equiv> RCls (\<lambda>c. c \<notin> set cs)"
abbreviation rx_set :: "string \<Rightarrow> rx" where "rx_set cs \<equiv> RCls (\<lambda>c. c \<in> set cs)"

section \<open>What a match means\<close>

text \<open>\<open>rx_matches r s t\<close>: the pattern can consume a prefix of \<open>s\<close> and leave \<open>t\<close>.\<close>

inductive rx_matches :: "rx \<Rightarrow> string \<Rightarrow> string \<Rightarrow> bool" where
  eps: "rx_matches REps s s"
| cls: "p x \<Longrightarrow> rx_matches (RCls p) (x # xs) xs"
| seq: "rx_matches a s t \<Longrightarrow> rx_matches b t u \<Longrightarrow> rx_matches (RSeq a b) s u"
| altL: "rx_matches a s t \<Longrightarrow> rx_matches (RAlt a b) s t"
| altR: "rx_matches b s t \<Longrightarrow> rx_matches (RAlt a b) s t"
| star0: "rx_matches (RStar g a) s s"
| star1: "rx_matches a s t \<Longrightarrow> length t < length s \<Longrightarrow> rx_matches (RStar g a) t u \<Longrightarrow>
    rx_matches (RStar g a) s u"
| grp: "rx_matches a s t \<Longrightarrow> rx_matches (RGrp i a) s t"
| eol: "s = [] \<or> s = [NL] \<Longrightarrow> rx_matches REol s s"

inductive_cases rx_eps_elim [elim!]: "rx_matches REps s t"
inductive_cases rx_cls_elim [elim!]: "rx_matches (RCls p) s t"
inductive_cases rx_seq_elim [elim!]: "rx_matches (RSeq a b) s t"
inductive_cases rx_alt_elim [elim!]: "rx_matches (RAlt a b) s t"
inductive_cases rx_star_elim: "rx_matches (RStar g a) s t"
inductive_cases rx_grp_elim [elim!]: "rx_matches (RGrp i a) s t"
inductive_cases rx_eol_elim [elim!]: "rx_matches REol s t"

lemma rx_run_sound: "(t, cs') \<in> set (rx_run r s cs) \<Longrightarrow> rx_matches r s t"
proof (induction r s cs arbitrary: t cs' rule: rx_run.induct)
  case (3 a b s cs)
  then show ?case by (fastforce intro: rx_matches.seq)
next
  case (5 g a s cs)
  from "5.prems" consider "t = s" |
    s' d where "(s', d) \<in> set (rx_run a s cs)" "length s' < length s"
      "(t, cs') \<in> set (rx_run (RStar g a) s' d)"
    using rx_star_mem [of "(t, cs')" g a s cs] by blast
  then show ?case
  proof cases
    case 1
    then show ?thesis by (auto intro: rx_matches.star0)
  next
    case 2
    then have "rx_matches a s s'" "rx_matches (RStar g a) s' t" using 5 by auto
    with 2 show ?thesis by (auto intro: rx_matches.star1)
  qed
qed (auto intro: rx_matches.intros split: list.splits if_splits)

lemma rx_run_complete: "rx_matches r s t \<Longrightarrow> \<exists>cs'. (t, cs') \<in> set (rx_run r s cs)"
proof (induction r s t arbitrary: cs rule: rx_matches.induct)
  case (seq a s t b u)
  obtain c1 where c1: "(t, c1) \<in> set (rx_run a s cs)" using seq.IH(1) by blast
  obtain c2 where "(u, c2) \<in> set (rx_run b t c1)" using seq.IH(2) by blast
  with c1 show ?case by force
next
  case (star1 a s t g u)
  obtain c1 where c1: "(t, c1) \<in> set (rx_run a s cs)" using star1.IH(1) by blast
  obtain c2 where c2: "(u, c2) \<in> set (rx_run (RStar g a) t c1)" using star1.IH(2) by blast
  with c1 star1.hyps(2) show ?case using rx_star_mem [of "(u, c2)" g a s cs] by blast
next
  case (grp a s t i)
  obtain c1 where "(t, c1) \<in> set (rx_run a s cs)" using grp.IH by blast
  then show ?case by force
next
  case (star0 g a s)
  show ?case using rx_star_mem [of "(s, cs)" g a s cs] by blast
qed fastforce+

text \<open>The matcher succeeds exactly where the pattern matches some prefix.\<close>

theorem rx_match_None_iff: "rx_match r s = None \<longleftrightarrow> (\<forall>t. \<not> rx_matches r s t)"
proof -
  have "rx_match r s = None \<longleftrightarrow> rx_run r s [] = []"
    by (simp add: rx_match_def split: list.splits)
  also have "\<dots> \<longleftrightarrow> (\<forall>t. \<not> rx_matches r s t)"
    using rx_run_sound [of _ _ r s "[]"] rx_run_complete [of r s _ "[]"]
    by (metis list.set_intros(1) list.exhaust surj_pair empty_iff list.set(1))
  finally show ?thesis .
qed

lemma rx_match_SomeD: "rx_match r s = Some (t, cs) \<Longrightarrow> rx_matches r s t"
  using rx_run_sound [of t cs r s "[]"] by (auto simp: rx_match_def split: list.splits)

lemma rx_matches_suffix: "rx_matches r s t \<Longrightarrow> \<exists>w. s = w @ t"
  by (induction rule: rx_matches.induct) auto

end
