(* ===== verification/Cloudflare_Record.thy ===== *)
theory Cloudflare_Record
  imports PyStr
begin

text \<open>
  The record layer of \<open>src/_states/cloudflare.py\<close>: the dictionaries that come from the pillar or
  from the Cloudflare API, their validation, the \<open>Record\<close> tuple and its methods.

  A record dictionary is a \<^theory_text>\<open>record\<close> with one optional field per key the code reads, of the
  type the module's documentation gives it; \<open>None\<close> is an absent key. \<open>d_id\<close> is optional twice: the
  key may be absent, and present with the value \<open>None\<close>.
\<close>

record rdict =
  d_name :: "string option"
  d_content :: "string option"
  d_type :: "string option"
  d_priority :: "int option"
  d_proxied :: "bool option"
  d_id :: "string option option"
  d_ttl :: "int option"
  d_salt_managed :: "bool option"

definition validate_record :: "rdict \<Rightarrow> unit res" where
  "validate_record record =
     (case d_name record of
        None \<Rightarrow> Inl (SaltInvocationError (SQUOTE # ''name'' @ SQUOTE # '' is required''))
      | Some name \<Rightarrow>
          if d_content record = None then
            Inl (SaltInvocationError (''Required field '' @ SQUOTE # ''content'' @ SQUOTE #
              '' is missing for entry <'' @ name @ ''>''))
          else if d_type record = Some ''MX'' \<and> d_priority record = None then
            Inl (SaltInvocationError (''Required field '' @ SQUOTE # ''priority'' @ SQUOTE #
              '' is missing for MX entry <'' @ name @ ''>''))
          else Inr ())"

record cf_record =
  r_id :: "string option"
  r_type :: string
  r_name :: string
  r_content :: string
  r_priority :: "int option"
  r_proxied :: bool
  r_ttl :: int
  r_salt_managed :: bool

text \<open>\<open>setdefault\<close> on the five optional keys, then the lookups in the order of the source.\<close>

definition record_from_dict :: "rdict \<Rightarrow> cf_record res" where
  "record_from_dict record =
     (let type = get_default (d_type record) ''A'';
          proxied = get_default (d_proxied record) False;
          ident = get_default (d_id record) None;
          ttl = get_default (d_ttl record) 1;
          salt_managed = get_default (d_salt_managed record) True
      in rbind (if type = ''MX''
                then (case d_priority record of None \<Rightarrow> Inl (KeyError ''priority'') | Some p \<Rightarrow> Inr (Some p))
                else Inr None) (\<lambda>priority.
         case d_name record of None \<Rightarrow> Inl (KeyError ''name'') | Some name \<Rightarrow>
         case d_content record of None \<Rightarrow> Inl (KeyError ''content'') | Some content \<Rightarrow>
           Inr \<lparr>r_id = ident, r_type = type, r_name = name, r_content = content,
                r_priority = priority, r_proxied = proxied, r_ttl = ttl,
                r_salt_managed = salt_managed\<rparr>))"

definition pure :: "cf_record \<Rightarrow> cf_record" where
  "pure r = r\<lparr>r_id := None\<rparr>"

text \<open>The \<open>data\<close> attribute of SRV and CAA records, synthesised from \<open>content\<close>.\<close>

datatype rdata =
    DNone
  | DSrv (srv_service: string) (srv_proto: string) (srv_name: string) (srv_priority: int)
      (srv_weight: int) (srv_port: int) (srv_target: string)
  | DCaa (caa_name: string) (caa_flags: int) (caa_tag: string) (caa_value: string)

definition srv_data :: "string \<Rightarrow> string \<Rightarrow> string \<Rightarrow> int res \<Rightarrow> string \<Rightarrow> string \<Rightarrow> string \<Rightarrow> rdata res" where
  "srv_data service proto name priority weight port target =
     rbind priority (\<lambda>p. rbind (py_int weight) (\<lambda>w. rbind (py_int port) (\<lambda>q.
       Inr (DSrv service proto name p w q target))))"

definition record_data :: "cf_record \<Rightarrow> rdata res" where
  "record_data r =
     (if r_type r = ''SRV'' then
        (case split_max (CHR ''.'') 2 (r_name r) of
           [service, proto, name] \<Rightarrow>
             (case split_on TAB (r_content r) of
                [weight, port, target] \<Rightarrow> srv_data service proto name (Inr 10) weight port target
              | [priority, weight, port, target] \<Rightarrow>
                  srv_data service proto name (py_int priority) weight port target
              | _ \<Rightarrow> Inl (ValueError ''values to unpack''))
         | _ \<Rightarrow> Inl (ValueError ''values to unpack''))
      else if r_type r = ''CAA'' then
        (case split_on TAB (r_content r) of
           [flags, tag, value] \<Rightarrow>
             rbind (py_int flags) (\<lambda>f. Inr (DCaa (r_name r) f tag (butlast (tl value))))
         | _ \<Rightarrow> Inl (ValueError ''values to unpack''))
      else Inr DNone)"

definition show_opt_int :: "int option \<Rightarrow> string" where
  "show_opt_int v = (case v of None \<Rightarrow> ''None'' | Some i \<Rightarrow> show_int i)"

definition show_bool_lower :: "bool \<Rightarrow> string" where
  "show_bool_lower b = (if b then ''true'' else ''false'')"

text \<open>
  \<open>Record.__str__\<close>: \<open>str.format\<close> fills the five placeholders with its first five arguments, which
  are the type, the name, the content, the priority text and the proxied flag; the sixth argument,
  the TTL text, is dropped.
\<close>

definition str_format_record :: "string list \<Rightarrow> string" where
  "str_format_record args =
     args ! 0 @ '' '' @ args ! 1 @ '' -> '' @ SQUOTE # args ! 2 @ SQUOTE # '' (proxied: '' @ args ! 3 @
     '', ttl: '' @ args ! 4 @ '')''"

definition record_str :: "cf_record \<Rightarrow> string" where
  "record_str r =
     (let ttl_str = (if r_ttl r = 1 then ''auto'' else show_int (r_ttl r) @ ''s'');
          priority_string = (if r_type r = ''MX''
            then ''priority: '' @ show_opt_int (r_priority r) @ '', '' else [])
      in str_format_record
           [r_type r, r_name r, r_content r, priority_string, show_bool_lower (r_proxied r), ttl_str])"

record cf_json =
  j_type :: string
  j_name :: string
  j_content :: string
  j_proxied :: bool
  j_data :: rdata
  j_ttl :: int
  j_priority :: "int option option"

definition record_json :: "cf_record \<Rightarrow> cf_json res" where
  "record_json r =
     rbind (record_data r) (\<lambda>d. Inr
       \<lparr>j_type = r_type r, j_name = r_name r, j_content = r_content r, j_proxied = r_proxied r,
        j_data = d, j_ttl = r_ttl r,
        j_priority = (if r_type r = ''MX'' then Some (r_priority r) else None)\<rparr>)"

section \<open>Lemmas\<close>

lemma validate_record_ok_iff:
  "validate_record d = Inr () \<longleftrightarrow>
     d_name d \<noteq> None \<and> d_content d \<noteq> None \<and> (d_type d = Some ''MX'' \<longrightarrow> d_priority d \<noteq> None)"
  by (auto simp: validate_record_def split: option.splits)

lemma validate_record_error: "validate_record d = Inl e \<Longrightarrow> \<exists>m. e = SaltInvocationError m"
  by (auto simp: validate_record_def split: option.splits if_splits)

text \<open>A dictionary that passes validation always converts, so \<open>desired\<close> cannot raise later.\<close>

lemma validated_converts: "validate_record d = Inr () \<Longrightarrow> \<exists>r. record_from_dict d = Inr r"
  by (auto simp: validate_record_ok_iff record_from_dict_def Let_def get_default_def split: option.splits)

lemma record_from_dict_fields:
  assumes "record_from_dict d = Inr r"
  shows "d_name d = Some (r_name r)" "d_content d = Some (r_content r)"
    "r_type r = get_default (d_type d) ''A''" "r_ttl r = get_default (d_ttl d) 1"
    "r_id r = get_default (d_id d) None" "r_proxied r = get_default (d_proxied d) False"
    "r_salt_managed r = get_default (d_salt_managed d) True"
    "r_type r \<noteq> ''MX'' \<Longrightarrow> r_priority r = None"
  using assms
  by (cases "d_name d"; cases "d_content d"; cases "d_priority d";
      auto simp: record_from_dict_def Let_def split: if_splits)+

lemma pure_simps [simp]:
  "r_id (pure r) = None" "r_type (pure r) = r_type r" "r_name (pure r) = r_name r"
  "r_content (pure r) = r_content r" "r_priority (pure r) = r_priority r"
  "r_proxied (pure r) = r_proxied r" "r_ttl (pure r) = r_ttl r"
  "r_salt_managed (pure r) = r_salt_managed r" "pure (pure r) = pure r"
  by (simp_all add: pure_def)

lemma pure_id: "r_id r = None \<Longrightarrow> pure r = r"
  by (simp add: pure_def)

lemma pure_upd_id [simp]: "pure (r\<lparr>r_id := i\<rparr>) = pure r"
  by (simp add: pure_def)

lemma record_data_other: "r_type r \<noteq> ''SRV'' \<Longrightarrow> r_type r \<noteq> ''CAA'' \<Longrightarrow> record_data r = Inr DNone"
  by (simp add: record_data_def)

lemma record_json_total_iff: "(\<exists>j. record_json r = Inr j) \<longleftrightarrow> (\<exists>d. record_data r = Inr d)"
  by (auto simp: record_json_def rbind_eq_Inr)

end
