(* ===== verification/Cloudflare_Zone.thy ===== *)
theory Cloudflare_Zone
  imports Cloudflare_Record PyRegex
begin

text \<open>
  The \<open>Zone\<close> class of \<open>src/_states/cloudflare.py\<close> up to the listing of records: its constructor,
  the HTTP request wrapper, \<open>sanity_check\<close>, the paginated listing \<open>existing\<close> and \<open>desired\<close>.

  The \<open>requests\<close> package and the Cloudflare service behind it are outside the repository: they are
  the parameter \<open>http\<close>, which takes a request and the outside world and gives a response or an
  exception, and the world after it. A response body is the decoded JSON in one of the two shapes
  the code reads. Exclusion patterns are compiled patterns.
\<close>

record zdict =
  zd_api_token :: "string option"
  zd_auth_email :: "string option"
  zd_auth_key :: "string option"
  zd_zone_id :: "string option"
  zd_records :: "rdict list option"
  zd_exclude :: "rx list option"

record Zone =
  zn_name :: string
  zn_api_token :: "string option"
  zn_auth_email :: "string option"
  zn_auth_key :: "string option"
  zn_zone_id :: string
  zn_records :: "rdict list"
  zn_exclude :: "rx list"

definition truthy :: "string option \<Rightarrow> bool" where
  "truthy v \<longleftrightarrow> v \<noteq> None \<and> v \<noteq> Some []"

definition zone_init :: "string \<Rightarrow> zdict \<Rightarrow> Zone res" where
  "zone_init name zone =
     (case zd_zone_id zone of None \<Rightarrow> Inl (KeyError ''zone_id'') | Some zid \<Rightarrow>
      case zd_records zone of None \<Rightarrow> Inl (KeyError ''records'') | Some rs \<Rightarrow>
        if \<not> truthy (zd_api_token zone) \<and> \<not> (truthy (zd_auth_email zone) \<and> truthy (zd_auth_key zone))
        then Inl (PyException ''Either api_token or auth_email and auth_key must be provided'')
        else Inr \<lparr>zn_name = name, zn_api_token = zd_api_token zone, zn_auth_email = zd_auth_email zone,
               zn_auth_key = zd_auth_key zone, zn_zone_id = zid, zn_records = rs,
               zn_exclude = get_default (zd_exclude zone) []\<rparr>)"

section \<open>HTTP\<close>

record http_req =
  q_method :: string
  q_uri :: string
  q_headers :: "(string \<times> string option) list"
  q_json :: "cf_json option"

datatype payload =
    ZonePayload string                 \<comment> \<open>\<open>{"result": {"name": \<dots>}}\<close>\<close>
  | PagePayload "rdict list" int int   \<comment> \<open>\<open>result\<close>, \<open>result_info.page\<close>, \<open>result_info.total_pages\<close>\<close>
  | OtherPayload

record http_resp =
  p_ok :: bool
  p_status :: int
  p_text :: string
  p_json :: "payload option"

type_synonym 'w http = "http_req \<Rightarrow> ('w, http_resp) act"

definition zones_uri :: "Zone \<Rightarrow> string" where
  "zones_uri z = ''https://api.cloudflare.com/client/v4/zones/'' @ zn_zone_id z"

definition records_uri :: "Zone \<Rightarrow> int \<Rightarrow> string" where
  "records_uri z page = zones_uri z @ ''/dns_records?page='' @ show_int page @ ''&per_page=50''"

definition add_record_uri :: "Zone \<Rightarrow> string" where
  "add_record_uri z = zones_uri z @ ''/dns_records''"

definition record_uri :: "Zone \<Rightarrow> string option \<Rightarrow> string" where
  "record_uri z ident =
     zones_uri z @ ''/dns_records/'' @ (case ident of None \<Rightarrow> ''None'' | Some i \<Rightarrow> i)"

definition auth_headers :: "Zone \<Rightarrow> (string \<times> string option) list" where
  "auth_headers z =
     (if truthy (zn_api_token z)
      then [(''Authorization'', map_option (\<lambda>t. ''Bearer '' @ t) (zn_api_token z))]
      else [(''X-Auth-Email'', zn_auth_email z), (''X-Auth-Key'', zn_auth_key z)])"

definition request :: "'w http \<Rightarrow> Zone \<Rightarrow> string \<Rightarrow> string \<Rightarrow> cf_json option \<Rightarrow> ('w, payload) act" where
  "request http z uri meth js =
     (let headers = auth_headers z in
      abind (if meth = ''GET'' then http \<lparr>q_method = meth, q_uri = uri, q_headers = headers, q_json = None\<rparr>
             else if meth = ''POST'' then http \<lparr>q_method = meth, q_uri = uri, q_headers = headers, q_json = js\<rparr>
             else if meth = ''PUT'' then http \<lparr>q_method = meth, q_uri = uri, q_headers = headers, q_json = js\<rparr>
             else if meth = ''DELETE'' then http \<lparr>q_method = meth, q_uri = uri, q_headers = headers, q_json = None\<rparr>
             else araise (PyException (''Unknown request method: '' @ meth)))
       (\<lambda>resp. if \<not> p_ok resp
         then araise (PyException (''Got HTTP code '' @ show_int (p_status resp) @ '': '' @ p_text resp))
         else (case p_json resp of None \<Rightarrow> araise (ValueError ''response body is not JSON'')
               | Some body \<Rightarrow> areturn body)))"

section \<open>Desired records and the sanity check\<close>

text \<open>
  \<open>desired\<close> validates every dictionary and then converts them. The source converts lazily; a
  validated dictionary always converts (\<open>validated_converts\<close>), so no exception moves.
\<close>

definition desired :: "Zone \<Rightarrow> cf_record list res" where
  "desired z = rbind (rmap validate_record (zn_records z)) (\<lambda>_. rmap record_from_dict (zn_records z))"

definition in_zone :: "string \<Rightarrow> string \<Rightarrow> bool" where
  "in_zone zone name \<longleftrightarrow> endswith name (''.'' @ zone) \<or> name = zone"

fun sanity_loop :: "string \<Rightarrow> string set \<Rightarrow> string set \<Rightarrow> cf_record list \<Rightarrow> unit res" where
  "sanity_loop zone As CNAMEs [] = Inr ()"
| "sanity_loop zone As CNAMEs (r # rs) =
     (if \<not> in_zone zone (r_name r)
      then Inl (PyException (''Record '' @ r_name r @ '' does not belong to zone '' @ zone))
      else if r_ttl r \<noteq> 1 \<and> r_ttl r < 120
      then Inl (PyException (''Record '' @ r_name r @ '' has invalid TTL: '' @ show_int (r_ttl r)))
      else if r_ttl r \<noteq> 1 \<and> r_proxied r
      then Inl (PyException (''Record '' @ r_name r @
             '' has TTL set, but TTL for proxied records is managed by Cloudflare''))
      else case record_data r of
        Inl e \<Rightarrow> Inl (PyException (''Record '' @ record_str r @
                  '' cannot synthesize data from content: '' @ exc_str e))
      | Inr _ \<Rightarrow>
          if r_type r = ''A'' \<or> r_type r = ''AAAA'' then
            (if r_name r \<in> CNAMEs
             then Inl (PyException (''Record '' @ r_name r @ '' has both A/AAAA and CNAME records''))
             else sanity_loop zone (insert (r_name r) As) CNAMEs rs)
          else if r_type r = ''CNAME'' then
            (if r_name r \<in> CNAMEs
             then Inl (PyException (''Record '' @ r_name r @ '' has serveral CNAME records''))
             else if r_name r \<in> As
             then Inl (PyException (''Record '' @ r_name r @ '' has both A/AAAA and CNAME records''))
             else sanity_loop zone As (insert (r_name r) CNAMEs) rs)
          else sanity_loop zone As CNAMEs rs)"

definition sanity_check :: "'w http \<Rightarrow> Zone \<Rightarrow> ('w, unit) act" where
  "sanity_check http z =
     abind (request http z (zones_uri z) ''GET'' None) (\<lambda>found.
       case found of
         ZonePayload found_name \<Rightarrow>
           if zn_name z \<noteq> found_name
           then araise (PyException (''Zone name does not match: '' @ zn_name z @ '' != '' @ found_name))
           else alift (rbind (desired z) (sanity_loop (zn_name z) {} {}))
       | _ \<Rightarrow> araise (KeyError ''name''))"

section \<open>Existing records\<close>

definition excluded :: "Zone \<Rightarrow> string \<Rightarrow> bool" where
  "excluded z name \<longleftrightarrow> (\<exists>pattern \<in> set (zn_exclude z). rx_match pattern name \<noteq> None)"

definition add_existing :: "Zone \<Rightarrow> rdict \<Rightarrow> (string option, cf_record) dict \<Rightarrow> (string option, cf_record) dict res" where
  "add_existing z d records =
     rbind (record_from_dict d) (\<lambda>r.
       Inr (if excluded z (r_name r) then records else dict_set (r_id r) r records))"

partial_function (option) existing_loop ::
  "'w http \<Rightarrow> Zone \<Rightarrow> int \<Rightarrow> (string option, cf_record) dict \<Rightarrow> 'w \<Rightarrow> (cf_record list res \<times> 'w) option" where
  "existing_loop http z page records w =
     (case request http z (records_uri z page) ''GET'' None w of
        (Inl e, w') \<Rightarrow> Some (Inl e, w')
      | (Inr found, w') \<Rightarrow>
         (case found of
            PagePayload ds current_page total_pages \<Rightarrow>
              (case rfold (add_existing z) ds records of
                 Inl e \<Rightarrow> Some (Inl e, w')
               | Inr records' \<Rightarrow>
                   if current_page = total_pages \<or> total_pages = 0
                   then Some (Inr (dict_values records'), w')
                   else existing_loop http z (page + 1) records' w')
          | ZonePayload n \<Rightarrow> Some (Inl (KeyError ''result_info''), w')
          | OtherPayload \<Rightarrow> Some (Inl (KeyError ''result''), w')))"

declare existing_loop.simps [code]

definition existing :: "'w http \<Rightarrow> Zone \<Rightarrow> 'w \<Rightarrow> (cf_record list res \<times> 'w) option" where
  "existing http z w = existing_loop http z 1 [] w"

section \<open>The sanity check decides a declarative condition\<close>

definition sane_record :: "string \<Rightarrow> cf_record \<Rightarrow> bool" where
  "sane_record zone r \<longleftrightarrow> in_zone zone (r_name r) \<and> (r_ttl r = 1 \<or> 120 \<le> r_ttl r \<and> \<not> r_proxied r) \<and>
     (\<exists>d. record_data r = Inr d)"

definition is_addr :: "cf_record \<Rightarrow> bool" where
  "is_addr r \<longleftrightarrow> r_type r = ''A'' \<or> r_type r = ''AAAA''"

definition is_cname :: "cf_record \<Rightarrow> bool" where
  "is_cname r \<longleftrightarrow> r_type r = ''CNAME''"

definition addr_names :: "cf_record list \<Rightarrow> string list" where
  "addr_names rs = map r_name (filter is_addr rs)"

definition cname_names :: "cf_record list \<Rightarrow> string list" where
  "cname_names rs = map r_name (filter is_cname rs)"

text \<open>A CNAME is alone at its name: no second CNAME, no address record.\<close>

definition cname_alone :: "cf_record list \<Rightarrow> bool" where
  "cname_alone rs \<longleftrightarrow> distinct (cname_names rs) \<and> set (cname_names rs) \<inter> set (addr_names rs) = {}"

lemma sanity_loop_iff:
  "sanity_loop zone As Cs rs = Inr () \<longleftrightarrow>
     (\<forall>r \<in> set rs. sane_record zone r) \<and> distinct (cname_names rs) \<and>
     set (cname_names rs) \<inter> (Cs \<union> As \<union> set (addr_names rs)) = {} \<and> set (addr_names rs) \<inter> Cs = {}"
proof (induction rs arbitrary: As Cs)
  case Nil
  then show ?case by (simp add: cname_names_def addr_names_def)
next
  case (Cons r rs)
  have names: "cname_names (r # rs) = (if is_cname r then [r_name r] else []) @ cname_names rs"
    "addr_names (r # rs) = (if is_addr r then [r_name r] else []) @ addr_names rs"
    by (simp_all add: cname_names_def addr_names_def)
  have excl: "is_addr r \<Longrightarrow> \<not> is_cname r" by (auto simp: is_addr_def is_cname_def)
  have step: "sanity_loop zone As Cs (r # rs) = Inr () \<longleftrightarrow> sane_record zone r \<and>
      (if is_addr r then r_name r \<notin> Cs \<and> sanity_loop zone (insert (r_name r) As) Cs rs = Inr ()
       else if is_cname r then r_name r \<notin> Cs \<and> r_name r \<notin> As \<and>
         sanity_loop zone As (insert (r_name r) Cs) rs = Inr ()
       else sanity_loop zone As Cs rs = Inr ())"
    by (cases "record_data r") (auto simp: sane_record_def is_addr_def is_cname_def)
  show ?case
    unfolding step Cons.IH names using excl by (cases "is_addr r"; cases "is_cname r") auto
qed

lemma sanity_loop_ok_iff:
  "sanity_loop zone {} {} rs = Inr () \<longleftrightarrow> (\<forall>r \<in> set rs. sane_record zone r) \<and> cname_alone rs"
  unfolding sanity_loop_iff cname_alone_def by auto

lemma desired_ok_iff:
  "(\<exists>rs. desired z = Inr rs) \<longleftrightarrow> (\<forall>d \<in> set (zn_records z). validate_record d = Inr ())"
proof
  assume "\<exists>rs. desired z = Inr rs"
  then obtain us where "rmap validate_record (zn_records z) = Inr us"
    by (auto simp: desired_def rbind_eq_Inr)
  then show "\<forall>d \<in> set (zn_records z). validate_record d = Inr ()"
    by (auto simp: rmap_Inr_iff list_all2_conv_all_nth in_set_conv_nth)
next
  assume ok: "\<forall>d \<in> set (zn_records z). validate_record d = Inr ()"
  then obtain us where "rmap validate_record (zn_records z) = Inr us"
    by (metis rmap_Inr_ex)
  moreover obtain rs where "rmap record_from_dict (zn_records z) = Inr rs"
    using ok validated_converts rmap_Inr_ex by metis
  ultimately show "\<exists>rs. desired z = Inr rs" by (simp add: desired_def)
qed

lemma desired_error: "desired z = Inl e \<Longrightarrow> \<exists>m. e = SaltInvocationError m"
proof -
  assume err: "desired z = Inl e"
  have val: "rmap validate_record ds = Inl e' \<Longrightarrow> \<exists>m. e' = SaltInvocationError m" for ds e'
    by (induction ds) (auto simp: rbind_eq_Inl dest: validate_record_error)
  show ?thesis
  proof (cases "rmap validate_record (zn_records z)")
    case (Inl e')
    with err val show ?thesis by (auto simp: desired_def)
  next
    case (Inr us)
    then have "\<forall>d \<in> set (zn_records z). validate_record d = Inr ()"
      by (auto simp: rmap_Inr_iff list_all2_conv_all_nth in_set_conv_nth)
    then have "\<exists>rs. desired z = Inr rs" by (simp add: desired_ok_iff)
    with err show ?thesis by simp
  qed
qed

section \<open>The listing loop\<close>

definition list_req :: "Zone \<Rightarrow> int \<Rightarrow> http_req" where
  "list_req z page = \<lparr>q_method = ''GET'', q_uri = records_uri z page, q_headers = auth_headers z, q_json = None\<rparr>"

text \<open>
  The documented behaviour of the paginated listing, in the worlds of \<open>I\<close> (which a listing request
  does not leave): page \<open>p\<close> of \<open>n\<close> answers with its records, its own number and the number of pages. An
  empty listing has no pages; its first page answers with no records, the number one, and zero pages.
\<close>

definition paginated :: "'w http \<Rightarrow> Zone \<Rightarrow> ('w \<Rightarrow> bool) \<Rightarrow> nat \<Rightarrow> (nat \<Rightarrow> rdict list) \<Rightarrow> bool" where
  "paginated http z I n pages \<longleftrightarrow> (n = 0 \<longrightarrow> pages 1 = []) \<and> (\<forall>p w. 1 \<le> p \<and> p \<le> max 1 n \<and> I w \<longrightarrow>
     (\<exists>resp w'. http (list_req z (int p)) w = (Inr resp, w') \<and> p_ok resp \<and>
        p_json resp = Some (PagePayload (pages p) (int p) (int n)) \<and> I w'))"

lemma request_GET_page:
  assumes "paginated http z I n pages" and "1 \<le> p" and "p \<le> max 1 n" and "I w"
  shows "\<exists>w'. request http z (records_uri z (int p)) ''GET'' None w =
      (Inr (PagePayload (pages p) (int p) (int n)), w') \<and> I w'"
proof -
  obtain resp w' where "http (list_req z (int p)) w = (Inr resp, w')" "p_ok resp"
    "p_json resp = Some (PagePayload (pages p) (int p) (int n))" "I w'"
    using assms unfolding paginated_def by blast
  then show ?thesis by (simp add: request_def Let_def list_req_def abind_def areturn_def)
qed

lemma existing_loop_terminates:
  assumes api: "paginated http z I n pages"
    and ok: "rfold (add_existing z) (concat (map pages [p..<Suc n])) records = Inr records'"
    and "1 \<le> p" and "p \<le> n" and "I w"
  shows "\<exists>w'. existing_loop http z (int p) records w = Some (Inr (dict_values records'), w') \<and> I w'"
  using ok \<open>1 \<le> p\<close> \<open>p \<le> n\<close> \<open>I w\<close>
proof (induction "n - p" arbitrary: p records w)
  case 0
  then have [simp]: "p = n" by simp
  obtain w' where "request http z (records_uri z (int n)) ''GET'' None w =
      (Inr (PagePayload (pages n) (int n) (int n)), w')" "I w'"
    using request_GET_page [OF api, of n w] 0 by auto
  with 0 show ?case by (simp add: existing_loop.simps [of http z "int n"])
next
  case (Suc k)
  then have less: "p < n" by simp
  obtain w' where req: "request http z (records_uri z (int p)) ''GET'' None w =
      (Inr (PagePayload (pages p) (int p) (int n)), w')" "I w'"
    using request_GET_page [OF api, of p w] Suc.prems by auto
  from Suc.prems less have "rfold (add_existing z) (pages p @ concat (map pages [Suc p..<Suc n])) records =
      Inr records'"
    by (simp add: upt_rec [of p])
  then obtain recs where recs: "rfold (add_existing z) (pages p) records = Inr recs"
    "rfold (add_existing z) (concat (map pages [Suc p..<Suc n])) recs = Inr records'"
    unfolding rfold_append rbind_eq_Inr by blast
  have "k = n - Suc p" using Suc.hyps(2) by simp
  then obtain w'' where "existing_loop http z (int (Suc p)) recs w' = Some (Inr (dict_values records'), w'')"
    "I w''"
    using Suc.hyps(1) [of "Suc p" recs w'] recs(2) less req(2) by auto
  with req recs(1) less show ?case
    by (simp add: existing_loop.simps [of http z "int p"] add.commute)
qed

lemma add_existing_distinct:
  assumes "\<forall>d \<in> set ds. record_from_dict d = Inr (f d)"
    and "distinct (map (r_id \<circ> f) ds)" and "set (dict_keys recs) \<inter> r_id ` f ` set ds = {}"
  shows "rfold (add_existing z) ds recs =
    Inr (recs @ map (\<lambda>r. (r_id r, r)) (filter (\<lambda>r. \<not> excluded z (r_name r)) (map f ds)))"
  using assms
proof (induction ds arbitrary: recs)
  case Nil
  then show ?case by simp
next
  case (Cons d ds)
  then have conv: "record_from_dict d = Inr (f d)" and fresh: "r_id (f d) \<notin> set (dict_keys recs)" by auto
  show ?case
  proof (cases "excluded z (r_name (f d))")
    case True
    then show ?thesis using Cons conv by (simp add: add_existing_def)
  next
    case False
    have "rfold (add_existing z) (d # ds) recs = rfold (add_existing z) ds (recs @ [(r_id (f d), f d)])"
      using conv False fresh by (simp add: add_existing_def dict_set_append)
    also have "\<dots> = Inr ((recs @ [(r_id (f d), f d)]) @
        map (\<lambda>r. (r_id r, r)) (filter (\<lambda>r. \<not> excluded z (r_name r)) (map f ds)))"
      using Cons.prems by (intro Cons.IH) (auto simp: dict_keys_def)
    finally show ?thesis using False by simp
  qed
qed

lemma existing_no_pages:
  assumes "paginated http z I 0 pages" and "I w"
  shows "\<exists>w'. existing http z w = Some (Inr [], w') \<and> I w'"
proof -
  obtain w' where req: "request http z (records_uri z 1) ''GET'' None w = (Inr (PagePayload (pages 1) 1 0), w')" and "I w'"
    using request_GET_page [OF assms(1), of 1 w] assms(2) by auto
  moreover have "pages 1 = []" using assms(1) by (simp add: paginated_def)
  ultimately show ?thesis by (simp add: existing_def existing_loop.simps [of http z 1] dict_values_def)
qed

lemma existing_pages:
  assumes "paginated http z I n pages" and "I w"
    and "\<forall>d \<in> set (concat (map pages [1..<Suc n])). record_from_dict d = Inr (f d)"
    and "distinct (map (r_id \<circ> f) (concat (map pages [1..<Suc n])))"
  shows "\<exists>w'. existing http z w = Some (Inr (filter (\<lambda>r. \<not> excluded z (r_name r))
            (map f (concat (map pages [1..<Suc n])))), w') \<and> I w'"
proof (cases "n = 0")
  case True
  with existing_no_pages [of http z I pages w] assms(1,2) show ?thesis by simp
next
  case False
  let ?rs = "filter (\<lambda>r. \<not> excluded z (r_name r)) (map f (concat (map pages [1..<Suc n])))"
  have "rfold (add_existing z) (concat (map pages [1..<Suc n])) [] = Inr (map (\<lambda>r. (r_id r, r)) ?rs)"
    using add_existing_distinct [OF assms(3,4), of "[]" z] by (simp add: dict_keys_def)
  then obtain w' where "existing_loop http z (int 1) [] w =
      Some (Inr (dict_values (map (\<lambda>r. (r_id r, r)) ?rs)), w')" "I w'"
    using existing_loop_terminates [OF assms(1), of 1] False \<open>I w\<close> by force
  moreover have "dict_values (map (\<lambda>r. (r_id r, r)) ?rs) = ?rs"
    by (simp add: dict_values_def comp_def)
  ultimately show ?thesis by (simp add: existing_def)
qed

end
