(* ===== verification/Cloudflare_Diff.thy ===== *)
theory Cloudflare_Diff
  imports Cloudflare_Zone
begin

text \<open>
  \<open>Zone.diff\<close> and \<open>Zone._order\<close> of \<open>src/_states/cloudflare.py\<close>: the edit script from the existing to
  the desired records and the order in which it is applied.

  Python iterates a \<open>set\<close> in an unspecified order. The parameter \<open>ord\<close> stands for it: it permutes the
  list of elements it is given (\<open>set_order\<close>).
\<close>

type_synonym rkey = "string \<times> string \<times> string \<times> bool"

definition rec_key :: "cf_record \<Rightarrow> rkey" where
  "rec_key r = (r_type r, r_name r, r_content r, r_salt_managed r)"

definition tuples :: "cf_record list \<Rightarrow> (rkey, cf_record) dict" where
  "tuples rs = dict_of (map (\<lambda>r. (rec_key r, r)) rs)"

datatype action = ADD | REMOVE | UPDATE

record cf_op =
  op_action :: action
  op_record :: cf_record

definition set_order :: "('k list \<Rightarrow> 'k list) \<Rightarrow> bool" where
  "set_order ord \<longleftrightarrow> (\<forall>xs. mset (ord xs) = mset xs)"

definition update_record :: "cf_record \<Rightarrow> cf_record \<Rightarrow> cf_record" where
  "update_record ex de =
     \<lparr>r_id = r_id ex, r_type = r_type de, r_name = r_name de, r_content = r_content de,
      r_priority = r_priority de, r_proxied = r_proxied de, r_ttl = r_ttl de, r_salt_managed = True\<rparr>"

text \<open>
  The three loops of \<open>diff\<close>. A key of a dictionary is looked up in that dictionary, so \<open>the\<close> is
  applied to \<open>Some\<close> only.
\<close>

definition diff_changes :: "(rkey list \<Rightarrow> rkey list) \<Rightarrow> cf_record list \<Rightarrow> cf_record list \<Rightarrow> cf_op list" where
  "diff_changes ord exs des =
     (let existing_tuples = tuples exs;
          desired_tuples = tuples des;
          desired_salt_managed = dict_of (map (\<lambda>r. (r_name r, r_salt_managed r)) des);
          ex = (\<lambda>k. the (dict_get existing_tuples k));
          de = (\<lambda>k. the (dict_get desired_tuples k));
          added = ord (filter (\<lambda>k. \<not> dict_has existing_tuples k) (dict_keys desired_tuples));
          removed = ord (filter (\<lambda>k. \<not> dict_has desired_tuples k) (dict_keys existing_tuples));
          common = ord (filter (\<lambda>k. dict_has desired_tuples k) (dict_keys existing_tuples))
      in [\<lparr>op_action = ADD, op_record = de k\<rparr>. k \<leftarrow> added, r_salt_managed (de k)] @
         [\<lparr>op_action = REMOVE, op_record = ex k\<rparr>. k \<leftarrow> removed,
            dict_get desired_salt_managed (fst (snd k)) \<noteq> Some False] @
         [\<lparr>op_action = UPDATE, op_record = update_record (ex k) (de k)\<rparr>. k \<leftarrow> common,
            \<not> (pure (ex k) = de k \<or> \<not> r_salt_managed (de k))])"

fun SPECIAL_APPLY_ORDER :: "action \<Rightarrow> nat" where
  "SPECIAL_APPLY_ORDER REMOVE = 0"
| "SPECIAL_APPLY_ORDER ADD = 1"
| "SPECIAL_APPLY_ORDER UPDATE = 2"

fun REGULAR_APPLY_ORDER :: "action \<Rightarrow> nat" where
  "REGULAR_APPLY_ORDER ADD = 0"
| "REGULAR_APPLY_ORDER UPDATE = 1"
| "REGULAR_APPLY_ORDER REMOVE = 2"

definition op_name :: "cf_op \<Rightarrow> string" where
  "op_name op = r_name (op_record op)"

definition op_primary :: "cf_op \<Rightarrow> bool" where
  "op_primary op \<longleftrightarrow> r_type (op_record op) \<in> {''A'', ''AAAA'', ''CNAME''}"

definition op_cname :: "cf_op \<Rightarrow> bool" where
  "op_cname op \<longleftrightarrow> r_type (op_record op) = ''CNAME''"

type_synonym op_groups = "(string, cf_op list) dict \<times> (string, cf_op list) dict"

definition add_to_group :: "cf_op \<Rightarrow> op_groups \<Rightarrow> op_groups" where
  "add_to_group op groups = (case groups of (primary, rest) \<Rightarrow>
     if op_primary op then (dict_append (op_name op) op primary, rest)
     else (primary, dict_append (op_name op) op rest))"

definition append_in_order :: "cf_op list \<Rightarrow> (action \<Rightarrow> nat) \<Rightarrow> cf_op list" where
  "append_in_order ops order = sort_key (\<lambda>op. order (op_action op)) ops"

definition primary_in_order :: "cf_op list \<Rightarrow> cf_op list" where
  "primary_in_order ops =
     (if \<exists>op \<in> set ops. op_cname op then append_in_order ops SPECIAL_APPLY_ORDER
      else append_in_order ops REGULAR_APPLY_ORDER)"

definition order_ops :: "cf_op list \<Rightarrow> cf_op list" where
  "order_ops diff =
     (case fold add_to_group diff ([], []) of (primary, rest) \<Rightarrow>
        concat (map (\<lambda>(name, ops). primary_in_order ops) primary) @
        concat (map (\<lambda>(name, ops). append_in_order ops REGULAR_APPLY_ORDER) rest))"

definition diff_records :: "(rkey list \<Rightarrow> rkey list) \<Rightarrow> cf_record list \<Rightarrow> cf_record list \<Rightarrow> cf_op list" where
  "diff_records ord exs des = order_ops (diff_changes ord exs des)"

text \<open>\<open>Zone.diff\<close>: list the existing records, compute the desired ones, compare.\<close>

definition zone_diff :: "(rkey list \<Rightarrow> rkey list) \<Rightarrow> 'w http \<Rightarrow> Zone \<Rightarrow> 'w \<Rightarrow> (cf_op list res \<times> 'w) option" where
  "zone_diff ord http z w =
     (case existing http z w of
        None \<Rightarrow> None
      | Some (Inl e, w') \<Rightarrow> Some (Inl e, w')
      | Some (Inr ex, w') \<Rightarrow>
          Some (rbind (desired z) (\<lambda>de. Inr (diff_records ord ex de)), w'))"

section \<open>Sorting by action\<close>

text \<open>
  The contract the two apply orders share: ranks that tell the three actions apart. A stable sort
  by such a rank lists one action after the other, each in its given order.
\<close>

locale apply_order =
  fixes rank :: "action \<Rightarrow> nat" and first second third :: action
  assumes rank_less: "rank first < rank second" "rank second < rank third"
    and all_actions: "a = first \<or> a = second \<or> a = third"
begin

definition only :: "action \<Rightarrow> cf_op list \<Rightarrow> cf_op list" where
  "only a ops = filter (\<lambda>op. op_action op = a) ops"

lemma rank_inj: "rank a = rank b \<longleftrightarrow> a = b"
  using rank_less all_actions [of a] all_actions [of b] by auto

lemma sorted_only: "sorted (map (\<lambda>op. rank (op_action op)) (only a ops))"
  by (induction ops) (auto simp: only_def)

lemma blocks: "append_in_order ops rank = only first ops @ only second ops @ only third ops"
  unfolding append_in_order_def
proof (rule properties_for_sort_key)
  have dist: "first \<noteq> second" "first \<noteq> third" "second \<noteq> third" using rank_less by auto
  show "mset (only first ops @ only second ops @ only third ops) = mset ops"
  proof (induction ops)
    case Nil
    then show ?case by (simp add: only_def)
  next
    case (Cons op ops)
    with all_actions [of "op_action op"] dist show ?case by (auto simp: only_def)
  qed
  show "filter (\<lambda>x. rank (op_action k) = rank (op_action x)) (only first ops @ only second ops @ only third ops) =
      filter (\<lambda>x. rank (op_action k) = rank (op_action x)) ops" for k
    using all_actions [of "op_action k"] dist
    by (auto simp: only_def rank_inj intro!: filter_cong)
  show "sorted (map (\<lambda>op. rank (op_action op)) (only first ops @ only second ops @ only third ops))"
    using rank_less sorted_only by (auto simp: only_def sorted_append)
qed

end

interpretation special: apply_order SPECIAL_APPLY_ORDER REMOVE ADD UPDATE
  by unfold_locales (simp_all, metis action.exhaust)

interpretation regular: apply_order REGULAR_APPLY_ORDER ADD UPDATE REMOVE
  by unfold_locales (simp_all, metis action.exhaust)

end
