(* ===== verification/Cloudflare_Script.thy ===== *)
theory Cloudflare_Script
  imports Cloudflare_Diff
begin

text \<open>
  What the edit script of \<open>Zone.diff\<close> does. The order keeps the operations and sorts each name's
  group; running the script on the listed records settles the zone: the managed desired records are
  there, as they were listed or in the form that the service shows them in, and of the others only the excluded ones and those of names
  that are not managed; and, where no name mixes managed address or CNAME records with an unmanaged last
  one, no prefix of it leaves a CNAME next to another record of its name.
\<close>

section \<open>The order\<close>

lemma mset_append_in_order [simp]: "mset (append_in_order ops f) = mset ops"
  by (simp add: append_in_order_def)

lemma mset_primary_in_order [simp]: "mset (primary_in_order ops) = mset ops"
  by (simp add: primary_in_order_def)

lemma fold_add_to_group:
  "fold add_to_group ops ([], []) =
     (group_by op_name (filter op_primary ops), group_by op_name (filter (\<lambda>op. \<not> op_primary op) ops))"
  by (induction ops rule: rev_induct) (auto simp: add_to_group_def group_by_snoc)

definition primary_part :: "cf_op list \<Rightarrow> cf_op list" where
  "primary_part ops = concat (map (\<lambda>(name, g). primary_in_order g) (group_by op_name (filter op_primary ops)))"

definition rest_part :: "cf_op list \<Rightarrow> cf_op list" where
  "rest_part ops = concat (map (\<lambda>(name, g). append_in_order g REGULAR_APPLY_ORDER)
     (group_by op_name (filter (\<lambda>op. \<not> op_primary op) ops)))"

lemma order_ops_parts: "order_ops ops = primary_part ops @ rest_part ops"
  by (simp add: order_ops_def fold_add_to_group primary_part_def rest_part_def)

lemma mset_parts [simp]:
  "mset (primary_part ops) = mset (filter op_primary ops)"
  "mset (rest_part ops) = mset (filter (\<lambda>op. \<not> op_primary op) ops)"
  by (simp_all add: primary_part_def rest_part_def mset_concat_groups)

lemma set_parts [simp]:
  "set (primary_part ops) = {op \<in> set ops. op_primary op}"
  "set (rest_part ops) = {op \<in> set ops. \<not> op_primary op}"
  using mset_parts [of ops] by (metis set_filter set_mset_mset)+

lemma mset_order_ops [simp]: "mset (order_ops ops) = mset ops"
  by (simp add: order_ops_parts)

lemma set_order_ops [simp]: "set (order_ops ops) = set ops"
  by (metis mset_order_ops set_mset_mset)

text \<open>One name's group of primary operations, as it stands in the ordered script.\<close>

lemma filter_primary_group:
  "filter (\<lambda>op. op_primary op \<and> op_name op = n) (order_ops ops) =
     primary_in_order (filter (\<lambda>op. op_primary op \<and> op_name op = n) ops)"
proof -
  have "filter (\<lambda>op. op_primary op \<and> op_name op = n) (rest_part ops) = []"
    by (auto simp: filter_empty_conv)
  moreover have "filter (\<lambda>op. op_primary op \<and> op_name op = n) (primary_part ops) =
      filter (\<lambda>op. op_name op = n) (primary_part ops)"
    by (rule filter_cong) auto
  ultimately have "filter (\<lambda>op. op_primary op \<and> op_name op = n) (order_ops ops) =
      filter (\<lambda>op. op_name op = n) (primary_part ops)"
    by (simp add: order_ops_parts)
  also have "\<dots> = primary_in_order (filter (\<lambda>op. op_name op = n) (filter op_primary ops))"
    unfolding primary_part_def by (rule filter_concat_groups) simp
  finally show ?thesis by (simp add: conj_commute)
qed

lemma filter_rest_group:
  "filter (\<lambda>op. \<not> op_primary op \<and> op_name op = n) (order_ops ops) =
     append_in_order (filter (\<lambda>op. \<not> op_primary op \<and> op_name op = n) ops) REGULAR_APPLY_ORDER"
proof -
  have "filter (\<lambda>op. \<not> op_primary op \<and> op_name op = n) (primary_part ops) = []"
    by (auto simp: filter_empty_conv)
  moreover have "filter (\<lambda>op. \<not> op_primary op \<and> op_name op = n) (rest_part ops) =
      filter (\<lambda>op. op_name op = n) (rest_part ops)"
    by (rule filter_cong) auto
  ultimately have "filter (\<lambda>op. \<not> op_primary op \<and> op_name op = n) (order_ops ops) =
      filter (\<lambda>op. op_name op = n) (rest_part ops)"
    by (simp add: order_ops_parts)
  also have "\<dots> = append_in_order (filter (\<lambda>op. op_name op = n) (filter (\<lambda>op. \<not> op_primary op) ops)) REGULAR_APPLY_ORDER"
    unfolding rest_part_def by (rule filter_concat_groups [where g = "\<lambda>k g. append_in_order g REGULAR_APPLY_ORDER"]) simp
  finally show ?thesis by (simp add: conj_commute)
qed

section \<open>The operations of the script\<close>

lemma set_set_order: "set_order ord \<Longrightarrow> set (ord xs) = set xs"
  unfolding set_order_def by (metis set_mset_mset)

lemma set_order_distinct: "set_order ord \<Longrightarrow> distinct (ord xs) = distinct xs"
  unfolding set_order_def by (metis mset_eq_imp_distinct_iff)

lemma tuples_get: "dict_get (tuples rs) k = map_of (rev (map (\<lambda>r. (rec_key r, r)) rs)) k"
  by (simp add: tuples_def dict_simps)

lemma tuples_distinct:
  assumes "distinct (map rec_key rs)"
  shows "dict_get (tuples rs) k = Some r \<longleftrightarrow> r \<in> set rs \<and> rec_key r = k"
proof -
  have "distinct (map fst (rev (map (\<lambda>r. (rec_key r, r)) rs)))"
    using assms by (simp add: comp_def rev_map [symmetric])
  then have "dict_get (tuples rs) k = Some r \<longleftrightarrow> (k, r) \<in> set (rev (map (\<lambda>r. (rec_key r, r)) rs))"
    unfolding tuples_get by (simp only: map_of_eq_Some_iff)
  then show ?thesis by auto
qed

lemma tuples_has: "dict_has (tuples rs) k \<longleftrightarrow> k \<in> rec_key ` set rs"
proof -
  have "dict_get (tuples rs) k = None \<longleftrightarrow> k \<notin> rec_key ` set rs"
    unfolding dict_get_None by (auto simp: tuples_def set_dict_keys_of image_image)
  then show ?thesis by (simp add: dict_has_def)
qed

lemma tuples_keys: "set (dict_keys (tuples rs)) = rec_key ` set rs"
  by (simp add: tuples_def set_dict_keys_of image_image)

lemma tuples_the:
  assumes "k \<in> rec_key ` set rs"
  shows "the (dict_get (tuples rs) k) \<in> set rs" and "rec_key (the (dict_get (tuples rs) k)) = k"
proof -
  obtain r where "dict_get (tuples rs) k = Some r"
    using assms tuples_has [of rs k] by (auto simp: dict_has_def)
  then have "(k, r) \<in> set (map (\<lambda>r. (rec_key r, r)) rs)"
    unfolding tuples_get using map_of_SomeD by fastforce
  with \<open>dict_get (tuples rs) k = Some r\<close>
  show "the (dict_get (tuples rs) k) \<in> set rs" and "rec_key (the (dict_get (tuples rs) k)) = k" by auto
qed

lemma tuples_the_distinct: "distinct (map rec_key rs) \<Longrightarrow> r \<in> set rs \<Longrightarrow> the (dict_get (tuples rs) (rec_key r)) = r"
  using tuples_distinct [of rs "rec_key r" r] by simp

text \<open>
  The flag that protects the existing records of a name: the \<open>salt_managed\<close> of the last desired
  record of that name.
\<close>

definition name_managed :: "cf_record list \<Rightarrow> string \<Rightarrow> bool option" where
  "name_managed des n = map_of (rev (map (\<lambda>r. (r_name r, r_salt_managed r)) des)) n"

lemma name_managed_all: "\<forall>r \<in> set des. r_salt_managed r \<Longrightarrow> name_managed des n \<noteq> Some False"
  unfolding name_managed_def by (auto dest!: map_of_SomeD)

text \<open>A flag that is not false: no desired record of the name, or a managed one.\<close>

lemma name_managed_flag:
  "name_managed des n \<noteq> Some False \<Longrightarrow> n \<notin> r_name ` set des \<or> (\<exists>d \<in> set des. r_name d = n \<and> r_salt_managed d)"
proof -
  assume flag: "name_managed des n \<noteq> Some False"
  show ?thesis
  proof (cases "name_managed des n")
    case None
    then have "n \<notin> fst ` set (rev (map (\<lambda>r. (r_name r, r_salt_managed r)) des))"
      unfolding name_managed_def map_of_eq_None_iff .
    then show ?thesis by force
  next
    case (Some b)
    then have "(n, b) \<in> set (rev (map (\<lambda>r. (r_name r, r_salt_managed r)) des))"
      unfolding name_managed_def by (rule map_of_SomeD)
    with Some flag show ?thesis by auto
  qed
qed

definition the_existing :: "cf_record list \<Rightarrow> rkey \<Rightarrow> cf_record" where
  "the_existing exs k = the (dict_get (tuples exs) k)"

lemma diff_changes_mem:
  assumes "set_order ord"
  shows "op \<in> set (diff_changes ord exs des) \<longleftrightarrow>
    (\<exists>k. k \<in> rec_key ` set des \<and> k \<notin> rec_key ` set exs \<and> r_salt_managed (the_existing des k) \<and>
        op = \<lparr>op_action = ADD, op_record = the_existing des k\<rparr>) \<or>
    (\<exists>k. k \<in> rec_key ` set exs \<and> k \<notin> rec_key ` set des \<and> name_managed des (fst (snd k)) \<noteq> Some False \<and>
        op = \<lparr>op_action = REMOVE, op_record = the_existing exs k\<rparr>) \<or>
    (\<exists>k. k \<in> rec_key ` set exs \<and> k \<in> rec_key ` set des \<and> pure (the_existing exs k) \<noteq> the_existing des k \<and>
        r_salt_managed (the_existing des k) \<and>
        op = \<lparr>op_action = UPDATE, op_record = update_record (the_existing exs k) (the_existing des k)\<rparr>)"
  unfolding diff_changes_def Let_def
  by (simp add: set_set_order [OF assms] tuples_keys tuples_has dict_simps the_existing_def
      name_managed_def) blast

section \<open>Running the script\<close>

text \<open>
  The documented effect of the three API calls on the list of records of the zone. The identifier
  the service gives a new record is not known to this run; it is left \<open>None\<close>, which no existing
  record has.
\<close>

definition cf_exec :: "cf_record list \<Rightarrow> cf_op \<Rightarrow> cf_record list" where
  "cf_exec store op =
     (case op_action op of
        ADD \<Rightarrow> store @ [pure (op_record op)]
      | REMOVE \<Rightarrow> filter (\<lambda>x. r_id x \<noteq> r_id (op_record op)) store
      | UPDATE \<Rightarrow> map (\<lambda>x. if r_id x = r_id (op_record op) then op_record op else x) store)"

definition cf_run :: "cf_record list \<Rightarrow> cf_op list \<Rightarrow> cf_record list" where
  "cf_run store ops = foldl cf_exec store ops"

definition targets :: "cf_op list \<Rightarrow> string option list" where
  "targets ops = map (\<lambda>op. r_id (op_record op)) (filter (\<lambda>op. op_action op \<noteq> ADD) ops)"

text \<open>A script whose removals and updates hit different records of the store.\<close>

definition script_ok :: "cf_record list \<Rightarrow> cf_op list \<Rightarrow> bool" where
  "script_ok store ops \<longleftrightarrow> None \<notin> r_id ` set store \<and> distinct (targets ops) \<and>
     set (targets ops) \<subseteq> r_id ` set store"

lemma targets_append: "targets (xs @ ys) = targets xs @ targets ys"
  by (simp add: targets_def)

lemma script_ok_prefix: "script_ok store (xs @ ys) \<Longrightarrow> script_ok store xs"
  by (simp add: script_ok_def targets_append)

lemma script_ok_perm:
  assumes "mset ys = mset xs" and "script_ok store xs"
  shows "script_ok store ys"
proof -
  have tg: "mset (targets ys) = mset (targets xs)" using assms(1) by (simp add: targets_def mset_map mset_filter)
  then have "distinct (targets ys) = distinct (targets xs)" by (rule mset_eq_imp_distinct_iff)
  moreover have "set (targets ys) = set (targets xs)" using tg by (rule mset_eq_setD)
  ultimately show ?thesis using assms(2) by (simp add: script_ok_def)
qed

text \<open>What is in the store after a script: untouched records, updated records, added records.\<close>

lemma cf_run_set:
  assumes "script_ok store ops"
  shows "set (cf_run store ops) =
    {x \<in> set store. r_id x \<notin> set (targets ops)} \<union>
    {op_record op |op. op \<in> set ops \<and> op_action op = UPDATE} \<union>
    {pure (op_record op) |op. op \<in> set ops \<and> op_action op = ADD}"
  using assms
proof (induction ops rule: rev_induct)
  case Nil
  then show ?case by (simp add: cf_run_def targets_def)
next
  case (snoc op ops)
  let ?i = "r_id (op_record op)"
  let ?U = "{op_record op |op. op \<in> set ops \<and> op_action op = UPDATE}"
  let ?A = "{pure (op_record op) |op. op \<in> set ops \<and> op_action op = ADD}"
  have run: "cf_run store (ops @ [op]) = cf_exec (cf_run store ops) op" by (simp add: cf_run_def)
  have IH: "set (cf_run store ops) = {x \<in> set store. r_id x \<notin> set (targets ops)} \<union> ?U \<union> ?A"
    using snoc script_ok_prefix by blast
  have fresh: "?i \<notin> set (targets ops)" "?i \<in> r_id ` set store" "?i \<noteq> None" if "op_action op \<noteq> ADD"
  proof -
    show "?i \<notin> set (targets ops)" and st: "?i \<in> r_id ` set store"
      using snoc.prems that by (auto simp: script_ok_def targets_def)
    from st show "?i \<noteq> None" using snoc.prems unfolding script_ok_def by metis
  qed
  have U_ids: "r_id u \<in> set (targets ops)" if "u \<in> ?U" for u using that by (auto simp: targets_def)
  show ?case
  proof (cases "op_action op")
    case ADD
    then show ?thesis unfolding run cf_exec_def using IH by (auto simp: targets_def)
  next
    case REMOVE
    then have "targets (ops @ [op]) = targets ops @ [?i]" by (simp add: targets_def)
    moreover have "set (cf_exec (cf_run store ops) op) = {x \<in> set (cf_run store ops). r_id x \<noteq> ?i}"
      using REMOVE by (auto simp: cf_exec_def)
    moreover have "u \<in> ?U \<Longrightarrow> r_id u \<noteq> ?i" for u using U_ids [of u] fresh(1) REMOVE by (metis action.distinct(1))
    moreover have "a \<in> ?A \<Longrightarrow> r_id a \<noteq> ?i" for a using fresh REMOVE by auto
    moreover have "?i \<noteq> None" using fresh(3) REMOVE by simp
    ultimately show ?thesis unfolding run using IH REMOVE by auto
  next
    case UPDATE
    then have tg: "targets (ops @ [op]) = targets ops @ [?i]" by (simp add: targets_def)
    have "set (cf_exec (cf_run store ops) op) =
        {x \<in> set (cf_run store ops). r_id x \<noteq> ?i} \<union> {y. y = op_record op \<and> (\<exists>x \<in> set (cf_run store ops). r_id x = ?i)}"
      using UPDATE unfolding cf_exec_def by (simp only: action.case set_map_if)
    moreover have "\<exists>x \<in> set (cf_run store ops). r_id x = ?i"
      unfolding IH using fresh(1,2) UPDATE by auto
    moreover have "u \<in> ?U \<Longrightarrow> r_id u \<noteq> ?i" for u using U_ids [of u] fresh(1) UPDATE by (metis action.distinct(3))
    moreover have "a \<in> ?A \<Longrightarrow> r_id a \<noteq> ?i" for a using fresh UPDATE by auto
    moreover have "?i \<noteq> None" using fresh(3) UPDATE by simp
    ultimately show ?thesis unfolding run tg using IH UPDATE by auto
  qed
qed

section \<open>The script of diff is well formed\<close>

text \<open>
  What the listing of a zone provides: every record has an identifier of its own and no two share
  type, name, content and flag. What the pillar provides: distinct records without identifiers.
\<close>

definition listing_ok :: "cf_record list \<Rightarrow> bool" where
  "listing_ok exs \<longleftrightarrow> None \<notin> r_id ` set exs \<and> distinct (map r_id exs) \<and> distinct (map rec_key exs)"

definition pillar_ok :: "cf_record list \<Rightarrow> bool" where
  "pillar_ok des \<longleftrightarrow> (\<forall>r \<in> set des. r_id r = None) \<and> distinct (map rec_key des)"

lemma the_existing_eq: "distinct (map rec_key rs) \<Longrightarrow> r \<in> set rs \<Longrightarrow> the_existing rs (rec_key r) = r"
  by (simp add: the_existing_def tuples_the_distinct)

lemma the_existing_mem: "k \<in> rec_key ` set rs \<Longrightarrow> the_existing rs k \<in> set rs"
  "k \<in> rec_key ` set rs \<Longrightarrow> rec_key (the_existing rs k) = k"
  by (simp_all add: the_existing_def tuples_the)

lemma diff_changes_targets:
  assumes "set_order ord"
  shows "\<exists>ks. targets (diff_changes ord exs des) = map (r_id \<circ> the_existing exs) ks \<and> distinct ks \<and>
    set ks \<subseteq> rec_key ` set exs"
proof -
  let ?rem = "ord (filter (\<lambda>k. \<not> dict_has (tuples des) k) (dict_keys (tuples exs)))"
  let ?com = "ord (filter (\<lambda>k. dict_has (tuples des) k) (dict_keys (tuples exs)))"
  define P where "P = (\<lambda>k :: rkey. name_managed des (fst (snd k)) \<noteq> Some False)"
  define Q where "Q = (\<lambda>k. \<not> (pure (the_existing exs k) = the_existing des k \<or> \<not> r_salt_managed (the_existing des k)))"
  have targets: "targets (diff_changes ord exs des) =
      map (r_id \<circ> the_existing exs) (filter P ?rem @ filter Q ?com)"
    unfolding diff_changes_def Let_def concat_if targets_def P_def Q_def
    by (simp add: filter_map comp_def update_record_def the_existing_def name_managed_def dict_simps)
  have keys: "distinct (dict_keys (tuples exs))"
    using wf_dict_of by (simp add: tuples_def wf_dict_def [symmetric])
  have "distinct ?rem" "distinct ?com"
    using set_order_distinct [OF assms] keys by simp_all
  moreover have "set ?rem \<inter> set ?com = {}" by (auto simp: set_set_order [OF assms])
  ultimately have "distinct (?rem @ ?com)" by simp
  then have "distinct (filter P ?rem @ filter Q ?com)" by auto
  moreover have "set (filter P ?rem @ filter Q ?com) \<subseteq> rec_key ` set exs"
    using set_set_order [OF assms] by (auto simp: tuples_keys)
  ultimately show ?thesis using targets by blast
qed

lemma diff_script_ok:
  assumes "set_order ord" and "listing_ok exs"
  shows "script_ok exs (diff_records ord exs des)"
proof -
  obtain ks where ks: "targets (diff_changes ord exs des) = map (r_id \<circ> the_existing exs) ks"
    "distinct ks" "set ks \<subseteq> rec_key ` set exs"
    using diff_changes_targets [OF assms(1)] by blast
  have inj: "inj_on (r_id \<circ> the_existing exs) (rec_key ` set exs)"
    using assms(2) the_existing_eq [of exs] unfolding listing_ok_def inj_on_def
    by (auto simp: distinct_map inj_on_def)
  have "r_id (the_existing exs k) \<in> r_id ` set exs" if "k \<in> set ks" for k
    using that ks(3) the_existing_mem(1) by blast
  then have "set (map (r_id \<circ> the_existing exs) ks) \<subseteq> r_id ` set exs" unfolding set_map comp_def by blast
  moreover have "distinct (map (r_id \<circ> the_existing exs) ks)"
    using ks(2,3) inj by (simp add: distinct_map inj_on_subset)
  ultimately have "script_ok exs (diff_changes ord exs des)"
    unfolding script_ok_def ks(1) using assms(2) by (simp add: listing_ok_def)
  then show ?thesis unfolding diff_records_def by (intro script_ok_perm [OF mset_order_ops])
qed

section \<open>Convergence\<close>

lemma update_record_eq:
  "r_id de = None \<Longrightarrow> r_salt_managed de \<Longrightarrow> pure (update_record ex de) = de"
  by (simp add: update_record_def pure_def)

text \<open>The three ways an operation enters the script, and the ways it can be there.\<close>

lemma diff_ADD_I:
  assumes "set_order ord" "distinct (map rec_key des)" "y \<in> set des" "rec_key y \<notin> rec_key ` set exs"
    "r_salt_managed y"
  shows "\<lparr>op_action = ADD, op_record = y\<rparr> \<in> set (diff_records ord exs des)"
  unfolding diff_records_def set_order_ops diff_changes_mem [OF assms(1)]
  using assms by (intro disjI1 exI [of _ "rec_key y"]) (simp add: the_existing_eq)

lemma diff_REMOVE_I:
  assumes "set_order ord" "distinct (map rec_key exs)" "x \<in> set exs" "rec_key x \<notin> rec_key ` set des"
    "name_managed des (r_name x) \<noteq> Some False"
  shows "\<lparr>op_action = REMOVE, op_record = x\<rparr> \<in> set (diff_records ord exs des)"
  unfolding diff_records_def set_order_ops diff_changes_mem [OF assms(1)]
  using assms by (intro disjI2 disjI1 exI [of _ "rec_key x"]) (simp add: the_existing_eq, simp add: rec_key_def)

lemma diff_UPDATE_I:
  assumes "set_order ord" "distinct (map rec_key exs)" "distinct (map rec_key des)" "x \<in> set exs" "y \<in> set des"
    "rec_key x = rec_key y" "pure x \<noteq> y" "r_salt_managed y"
  shows "\<lparr>op_action = UPDATE, op_record = update_record x y\<rparr> \<in> set (diff_records ord exs des)"
proof -
  have "the_existing exs (rec_key y) = x" using the_existing_eq [OF assms(2,4)] assms(6) by simp
  moreover have "the_existing des (rec_key y) = y" using the_existing_eq assms by blast
  moreover have "rec_key y \<in> rec_key ` set exs" using assms(4,6) by (metis imageI)
  ultimately show ?thesis
    unfolding diff_records_def set_order_ops diff_changes_mem [OF assms(1)]
    using assms(5,7,8) by (intro disjI2 exI [of _ "rec_key y"]) simp
qed

lemma diff_ops_cases:
  assumes "set_order ord" and "op \<in> set (diff_records ord exs des)"
  obtains (add) y where "y \<in> set des" "rec_key y \<notin> rec_key ` set exs" "r_salt_managed y"
      "op = \<lparr>op_action = ADD, op_record = y\<rparr>"
    | (remove) x where "x \<in> set exs" "rec_key x \<notin> rec_key ` set des"
      "name_managed des (r_name x) \<noteq> Some False" "op = \<lparr>op_action = REMOVE, op_record = x\<rparr>"
    | (update) x y where "x \<in> set exs" "y \<in> set des" "rec_key x = rec_key y" "pure x \<noteq> y"
      "r_salt_managed y" "op = \<lparr>op_action = UPDATE, op_record = update_record x y\<rparr>"
proof -
  have key_name: "fst (snd (rec_key x)) = r_name x" for x by (simp add: rec_key_def)
  from assms(2) consider
    k where "k \<in> rec_key ` set des" "k \<notin> rec_key ` set exs" "r_salt_managed (the_existing des k)"
        "op = \<lparr>op_action = ADD, op_record = the_existing des k\<rparr>"
    | k where "k \<in> rec_key ` set exs" "k \<notin> rec_key ` set des" "name_managed des (fst (snd k)) \<noteq> Some False"
        "op = \<lparr>op_action = REMOVE, op_record = the_existing exs k\<rparr>"
    | k where "k \<in> rec_key ` set exs" "k \<in> rec_key ` set des" "pure (the_existing exs k) \<noteq> the_existing des k"
        "r_salt_managed (the_existing des k)"
        "op = \<lparr>op_action = UPDATE, op_record = update_record (the_existing exs k) (the_existing des k)\<rparr>"
    unfolding diff_records_def set_order_ops diff_changes_mem [OF assms(1)] by (elim disjE exE conjE)
  then show thesis
  proof cases
    case 1
    then show thesis using add the_existing_mem [of k des] by simp
  next
    case 2
    then show thesis using remove the_existing_mem [of k exs] key_name [of "the_existing exs k"] by simp
  next
    case 3
    then show thesis
      using update the_existing_mem [of k exs] the_existing_mem [of k des] by simp
  qed
qed

text \<open>
  A listed record no operation names is in the desired list already, exactly as listed, or it is not
  desired and its name is marked as unmanaged. The listing itself has no flags, so every listed record
  counts as managed.
\<close>

lemma untouched_cases:
  assumes ord: "set_order ord" and "listing_ok exs" and "pillar_ok des" and man: "r_salt_managed x"
    and x: "x \<in> set exs" and free: "r_id x \<notin> set (targets (diff_records ord exs des))"
  shows "pure x \<in> set des \<or> rec_key x \<notin> rec_key ` set des \<and> name_managed des (r_name x) = Some False"
proof (rule disjCI)
  have dk: "distinct (map rec_key exs)" "distinct (map rec_key des)"
    using assms(2,3) by (auto simp: listing_ok_def pillar_ok_def)
  have no_op: "op \<in> set (diff_records ord exs des) \<Longrightarrow> op_action op \<noteq> ADD \<Longrightarrow> r_id (op_record op) \<noteq> r_id x" for op
    using free by (force simp: targets_def)
  assume not: "\<not> (rec_key x \<notin> rec_key ` set des \<and> name_managed des (r_name x) = Some False)"
  have "rec_key x \<in> rec_key ` set des"
  proof (rule ccontr)
    assume "rec_key x \<notin> rec_key ` set des"
    with diff_REMOVE_I [OF ord dk(1) x] not no_op show False by force
  qed
  then obtain y where y: "y \<in> set des" "rec_key x = rec_key y" by blast
  then have "r_salt_managed y" using man by (simp add: rec_key_def)
  have "pure x = y"
  proof (rule ccontr)
    assume "pure x \<noteq> y"
    with diff_UPDATE_I [OF ord dk x y _ \<open>r_salt_managed y\<close>] no_op show False by (force simp: update_record_def)
  qed
  with y show "pure x \<in> set des" by simp
qed

text \<open>A listed record that equals its desired record is not named by any operation.\<close>

lemma kept_untouched:
  assumes ord: "set_order ord" and "listing_ok exs" and "pillar_ok des"
    and x: "x \<in> set exs" and "pure x \<in> set des"
  shows "r_id x \<notin> set (targets (diff_records ord exs des))"
proof
  have dk: "distinct (map rec_key des)" and ids: "inj_on r_id (set exs)"
    using assms(2,3) by (auto simp: listing_ok_def pillar_ok_def distinct_map)
  have key: "rec_key (pure x) = rec_key x" by (simp add: rec_key_def)
  assume "r_id x \<in> set (targets (diff_records ord exs des))"
  then obtain op where op: "op \<in> set (diff_records ord exs des)" "op_action op \<noteq> ADD"
    "r_id (op_record op) = r_id x"
    by (auto simp: targets_def)
  from ord op(1) show False
  proof (cases rule: diff_ops_cases)
    case (add y)
    with op show ?thesis by simp
  next
    case (remove x')
    then have "x' = x" using op(3) ids x by (simp add: inj_on_def)
    with remove assms(5) key show ?thesis by (metis imageI)
  next
    case (update x' y)
    then have "x' = x" using op(3) ids x by (simp add: inj_on_def update_record_def)
    then have "rec_key y = rec_key (pure x)" using update key by simp
    then have "y = pure x" using dk update(2) assms(5) by (simp add: distinct_map inj_on_def)
    with update \<open>x' = x\<close> show ?thesis by simp
  qed
qed

text \<open>
  The service may return a record in another form than it was sent (\<open>shown\<close>, on records without
  identifiers). The operations as they take effect:
\<close>

definition shown_op :: "(cf_record \<Rightarrow> cf_record) \<Rightarrow> cf_op \<Rightarrow> cf_op" where
  "shown_op shown op = (if op_action op = REMOVE then op
     else op\<lparr>op_record := (shown (pure (op_record op)))\<lparr>r_id := r_id (op_record op)\<rparr>\<rparr>)"

lemma shown_op_simps [simp]:
  "op_action (shown_op shown op) = op_action op" "r_id (op_record (shown_op shown op)) = r_id (op_record op)"
  by (simp_all add: shown_op_def)

lemma targets_shown [simp]: "targets (map (shown_op shown) ops) = targets ops"
  by (simp add: targets_def filter_map comp_def)

lemma listing_ok_filter: "listing_ok full \<Longrightarrow> listing_ok (filter P full)"
  by (auto simp: listing_ok_def distinct_map_filter)

text \<open>
  What a script leaves behind: of the listed records, those outside of the comparison (\<open>P\<close>) and those of
  unmanaged names that are not desired; and each managed desired record, as it was if it was listed
  exactly, and as the service shows it otherwise.
\<close>

definition settled :: "(cf_record \<Rightarrow> cf_record) \<Rightarrow> cf_record list \<Rightarrow> cf_record list \<Rightarrow> cf_record set" where
  "settled shown exs des =
     (\<lambda>d. if d \<in> pure ` set exs then d else pure (shown d)) ` {d \<in> set des. r_salt_managed d}"

definition left_alone :: "cf_record list \<Rightarrow> cf_record \<Rightarrow> bool" where
  "left_alone des x \<longleftrightarrow> rec_key x \<notin> rec_key ` set des \<and> name_managed des (r_name x) = Some False"

lemma script_settles:
  assumes ord: "set_order ord" and lst: "listing_ok full" and pil: "pillar_ok des"
    and man: "\<forall>x \<in> set full. r_salt_managed x"
  shows "pure ` set (cf_run full (map (shown_op shown) (diff_records ord (filter P full) des))) =
    settled shown (filter P full) des \<union> pure ` {x \<in> set full. \<not> P x \<or> left_alone des x}"
proof -
  let ?exs = "filter P full"
  let ?ops = "diff_records ord ?exs des"
  have lst': "listing_ok ?exs" using lst by (rule listing_ok_filter)
  have dk: "distinct (map rec_key ?exs)" "distinct (map rec_key des)" and nid: "y \<in> set des \<Longrightarrow> r_id y = None" for y
    using lst' pil by (auto simp: listing_ok_def pillar_ok_def)
  have key: "rec_key (pure x) = rec_key x" for x by (simp add: rec_key_def)
  have ok: "script_ok ?exs ?ops" by (rule diff_script_ok [OF ord lst'])
  then have "script_ok full (map (shown_op shown) ?ops)" using lst by (auto simp: script_ok_def listing_ok_def)
  from cf_run_set [OF this] have run: "set (cf_run full (map (shown_op shown) ?ops)) =
      {x \<in> set full. r_id x \<notin> set (targets ?ops)} \<union>
      {op_record (shown_op shown op) |op. op \<in> set ?ops \<and> op_action op = UPDATE} \<union>
      {pure (op_record (shown_op shown op)) |op. op \<in> set ?ops \<and> op_action op = ADD}"
    by (auto simp: image_iff)
  have sent: "pure (op_record (shown_op shown op)) \<in> settled shown ?exs des" if "op \<in> set ?ops" "op_action op \<noteq> REMOVE" for op
    using ord that(1)
  proof (cases rule: diff_ops_cases)
    case (add y)
    then have "y \<notin> pure ` set ?exs" using key by (metis imageE imageI)
    with add show ?thesis using nid by (auto simp: settled_def shown_op_def pure_id)
  next
    case (update x y)
    have "y \<notin> pure ` set ?exs"
    proof
      assume "y \<in> pure ` set ?exs"
      then obtain x' where x': "x' \<in> set ?exs" "y = pure x'" by blast
      then have "x' = x" using update(1,3) dk(1) key by (metis distinct_map inj_onD)
      with update(4) x' show False by simp
    qed
    with update show ?thesis using update_record_eq [OF nid [OF update(2)] update(5), of x]
      by (auto simp: settled_def shown_op_def)
  qed (use that in simp)
  have free: "r_id x \<notin> set (targets ?ops)" if "x \<in> set full" "\<not> P x \<or> left_alone des x" for x
  proof
    assume "r_id x \<in> set (targets ?ops)"
    then obtain op where op: "op \<in> set ?ops" "op_action op \<noteq> ADD" "r_id (op_record op) = r_id x"
      by (auto simp: targets_def)
    have inj: "y = x" if "y \<in> set ?exs" "r_id y = r_id x" for y
      using that \<open>x \<in> set full\<close> lst by (auto simp: listing_ok_def distinct_map inj_on_def)
    from ord op(1) show False
    proof (cases rule: diff_ops_cases)
      case (remove y)
      then have "y = x" using op(3) inj by simp
      with remove \<open>x \<in> set full\<close> that(2) show False by (auto simp: left_alone_def)
    next
      case (update y d)
      then have "y = x" using op(3) inj by (simp add: update_record_def)
      with update that(2) show False by (auto simp: left_alone_def)
    qed (use op in simp)
  qed
  have keep: "pure x \<in> settled shown ?exs des \<or> \<not> P x \<or> left_alone des x"
    if "x \<in> set full" "r_id x \<notin> set (targets ?ops)" for x
    using untouched_cases [OF ord lst' pil _ _ that(2)] that(1) man
    by (cases "P x") (auto simp: settled_def left_alone_def image_iff)
  have reached: "y \<in> pure ` set (cf_run full (map (shown_op shown) ?ops))" if y_settled: "y \<in> settled shown ?exs des" for y
  proof -
    obtain d where d: "d \<in> set des" "r_salt_managed d" and y: "y = (if d \<in> pure ` set ?exs then d else pure (shown d))"
      using y_settled unfolding settled_def by blast
    show ?thesis
    proof (cases "d \<in> pure ` set ?exs")
      case True
      then obtain x where x: "x \<in> set ?exs" "d = pure x" by blast
      then have "x \<in> set (cf_run full (map (shown_op shown) ?ops))"
        unfolding run using kept_untouched [OF ord lst' pil x(1)] d by auto
      then show ?thesis using y True x by auto
    next
      case False
      have d_id: "pure d = d" using nid [OF d(1)] by (rule pure_id)
      show ?thesis
      proof (cases "rec_key d \<in> rec_key ` set ?exs")
        case True
        then obtain x where x: "x \<in> set ?exs" "rec_key x = rec_key d" by force
        then have "pure x \<noteq> d" using False by blast
        let ?op = "\<lparr>op_action = UPDATE, op_record = update_record x d\<rparr>"
        have "?op \<in> set ?ops" by (rule diff_UPDATE_I [OF ord dk x(1) d(1) x(2) \<open>pure x \<noteq> d\<close> d(2)])
        then have "op_record (shown_op shown ?op) \<in> set (cf_run full (map (shown_op shown) ?ops))" unfolding run by force
        moreover have "pure (op_record (shown_op shown ?op)) = y"
          using y False update_record_eq [OF nid [OF d(1)] d(2), of x] by (simp add: shown_op_def)
        ultimately show ?thesis by blast
      next
        case new: False
        let ?op = "\<lparr>op_action = ADD, op_record = d\<rparr>"
        have "?op \<in> set ?ops" by (rule diff_ADD_I [OF ord dk(2) d(1) new d(2)])
        then have "pure (op_record (shown_op shown ?op)) \<in> set (cf_run full (map (shown_op shown) ?ops))" unfolding run by force
        moreover have "pure (pure (op_record (shown_op shown ?op))) = y"
          using y False d_id by (simp add: shown_op_def)
        ultimately show ?thesis by blast
      qed
    qed
  qed
  show ?thesis
  proof (intro set_eqI iffI)
    fix y
    assume "y \<in> pure ` set (cf_run full (map (shown_op shown) ?ops))"
    then consider x where "x \<in> set full" "r_id x \<notin> set (targets ?ops)" "y = pure x"
      | op where "op \<in> set ?ops" "op_action op \<noteq> REMOVE" "y = pure (op_record (shown_op shown op))"
      unfolding run by force
    then show "y \<in> settled shown ?exs des \<union> pure ` {x \<in> set full. \<not> P x \<or> left_alone des x}"
      using keep sent by cases blast+
  next
    fix y
    assume "y \<in> settled shown ?exs des \<union> pure ` {x \<in> set full. \<not> P x \<or> left_alone des x}"
    then show "y \<in> pure ` set (cf_run full (map (shown_op shown) ?ops))"
    proof
      assume "y \<in> pure ` {x \<in> set full. \<not> P x \<or> left_alone des x}"
      then show ?thesis unfolding run using free by blast
    qed (rule reached)
  qed
qed

section \<open>No conflict on the way\<close>

text \<open>
  DNS forbids a CNAME next to an address record or another CNAME of the same name.
\<close>

definition rivals :: "cf_record \<Rightarrow> cf_record \<Rightarrow> bool" where
  "rivals x y \<longleftrightarrow> r_name x = r_name y \<and> is_cname x \<and> (is_addr y \<or> is_cname y) \<and> rec_key x \<noteq> rec_key y"

definition conflict_free :: "cf_record set \<Rightarrow> bool" where
  "conflict_free S \<longleftrightarrow> (\<forall>x \<in> S. \<forall>y \<in> S. \<not> rivals x y)"

lemma rivals_key:
  assumes "rec_key x = rec_key x'" and "rec_key y = rec_key y'"
  shows "rivals x y = rivals x' y'"
  using assms by (auto simp: rivals_def rec_key_def is_cname_def is_addr_def)

lemma cname_alone_conflict_free: "cname_alone rs \<Longrightarrow> conflict_free (set rs)"
proof -
  assume alone: "cname_alone rs"
  have "x = y" if "x \<in> set rs" "y \<in> set rs" "is_cname x" "is_cname y" "r_name x = r_name y" for x y
    using alone that by (auto simp: cname_alone_def cname_names_def distinct_map inj_on_def)
  moreover have "r_name x \<noteq> r_name y" if "x \<in> set rs" "y \<in> set rs" "is_cname x" "is_addr y" for x y
    using alone that by (force simp: cname_alone_def cname_names_def addr_names_def)
  ultimately show ?thesis by (auto simp: conflict_free_def rivals_def)
qed

text \<open>In a group that holds a CNAME operation, an addition is preceded by every removal.\<close>

lemma removal_before_addition:
  assumes split: "order_ops ops = ps @ qs"
    and a: "a \<in> set ps" "op_action a = ADD" and r: "r \<in> set ops" "op_action r = REMOVE"
    and prim: "op_primary a" "op_primary r" and name: "op_name a = op_name r"
    and cname: "op_cname a \<or> op_cname r"
  shows "r \<in> set ps"
proof -
  let ?P = "\<lambda>op. op_primary op \<and> op_name op = op_name r"
  let ?rank = "\<lambda>op. SPECIAL_APPLY_ORDER (op_action op)"
  have "a \<in> set ops" using a split set_order_ops [of ops] by auto
  then have "\<exists>op \<in> set (filter ?P ops). op_cname op" using r prim name cname by auto
  then have "filter ?P (order_ops ops) = sort_key ?rank (filter ?P ops)"
    unfolding filter_primary_group primary_in_order_def append_in_order_def by simp
  then have grp: "filter ?P ps @ filter ?P qs = sort_key ?rank (filter ?P ops)" by (simp add: split)
  have "sorted (map ?rank (filter ?P ps @ filter ?P qs))" unfolding grp by (rule sorted_sort_key)
  moreover have "a \<in> set (filter ?P ps)" using a prim name by simp
  moreover have "r \<in> set (filter ?P ps @ filter ?P qs)" unfolding grp using r prim by simp
  moreover have "?rank r < ?rank a" using a(2) r(2) by simp
  ultimately have "r \<in> set (filter ?P ps)" by (rule sorted_prefix_mem)
  then show ?thesis by simp
qed

text \<open>The keys of the store after a prefix of the script: listed ones, or desired and added.\<close>

lemma prefix_keys:
  assumes ord: "set_order ord" and "listing_ok exs"
    and split: "diff_records ord exs des = ps @ qs" and x: "x \<in> set (cf_run exs ps)"
  shows "(\<exists>e \<in> set exs. rec_key x = rec_key e \<and>
            (rec_key e \<notin> rec_key ` set des \<longrightarrow> \<lparr>op_action = REMOVE, op_record = e\<rparr> \<notin> set ps)) \<or>
         (\<exists>d \<in> set des. rec_key x = rec_key d \<and> rec_key d \<notin> rec_key ` set exs \<and>
            \<lparr>op_action = ADD, op_record = d\<rparr> \<in> set ps)"
proof -
  have "script_ok exs ps"
    using diff_script_ok [OF ord assms(2), of des] split script_ok_prefix by metis
  from x [unfolded cf_run_set [OF this]] consider
    "x \<in> set exs" "r_id x \<notin> set (targets ps)"
    | op where "x = op_record op" "op \<in> set ps" "op_action op = UPDATE"
    | op where "x = pure (op_record op)" "op \<in> set ps" "op_action op = ADD"
    by auto
  then show ?thesis
  proof cases
    case 1
    then have "\<lparr>op_action = REMOVE, op_record = x\<rparr> \<notin> set ps" by (force simp: targets_def)
    with 1 show ?thesis by blast
  next
    case 2
    then have "op \<in> set (diff_records ord exs des)" by (simp add: split)
    from ord this 2(3) obtain e d where "e \<in> set exs" "d \<in> set des" "rec_key e = rec_key d"
      "op_record op = update_record e d" "r_salt_managed d"
      by (cases rule: diff_ops_cases) auto
    moreover from this have "rec_key x = rec_key e" using 2(1) by (simp add: rec_key_def update_record_def)
    ultimately show ?thesis by (metis imageI)
  next
    case 3
    then have "op \<in> set (diff_records ord exs des)" by (simp add: split)
    from ord this 3 show ?thesis by (cases rule: diff_ops_cases) (auto simp: rec_key_def)
  qed
qed

text \<open>
  The script can swap a listed address or CNAME record for a desired one of the same name when it may
  remove the listed one: no name has a managed address or CNAME record while its last desired record
  is unmanaged, which would protect whatever is listed for the name.
\<close>

definition swappable :: "cf_record list \<Rightarrow> bool" where
  "swappable des \<longleftrightarrow> (\<forall>d \<in> set des. r_salt_managed d \<and> (is_addr d \<or> is_cname d) \<longrightarrow>
     name_managed des (r_name d) \<noteq> Some False)"

lemma swappable_all_managed: "\<forall>r \<in> set des. r_salt_managed r \<Longrightarrow> swappable des"
  by (auto simp: swappable_def dest: name_managed_all [of _ "r_name _"])

text \<open>A listed record that has to go and an added one: the removal came first.\<close>

lemma no_rival_pair:
  assumes ord: "set_order ord" and lst: "listing_ok exs" and swap: "swappable des"
    and split: "diff_records ord exs des = ps @ qs"
    and e: "e \<in> set exs" "rec_key e \<notin> rec_key ` set des" "\<lparr>op_action = REMOVE, op_record = e\<rparr> \<notin> set ps"
    and d: "\<lparr>op_action = ADD, op_record = d\<rparr> \<in> set ps"
  shows "\<not> rivals e d" and "\<not> rivals d e"
proof -
  let ?r = "\<lparr>op_action = REMOVE, op_record = e\<rparr>" and ?a = "\<lparr>op_action = ADD, op_record = d\<rparr>"
  have dk: "distinct (map rec_key exs)" using lst by (simp add: listing_ok_def)
  have "?a \<in> set (diff_records ord exs des)" using d split by simp
  with ord have des: "d \<in> set des" "r_salt_managed d" by (cases rule: diff_ops_cases; simp)+
  have "?r \<in> set (diff_changes ord exs des)"
    if "is_addr d \<or> is_cname d" "r_name e = r_name d"
    using diff_REMOVE_I [OF ord dk e(1,2)] swap des that by (auto simp: diff_records_def swappable_def)
  then have "is_addr d \<or> is_cname d \<Longrightarrow> r_name e = r_name d \<Longrightarrow> \<not> (op_primary ?a \<and> op_primary ?r \<and> op_name ?a = op_name ?r \<and> (op_cname ?a \<or> op_cname ?r))"
    using removal_before_addition [OF split [unfolded diff_records_def] d] e(3) by force
  then show "\<not> rivals e d" and "\<not> rivals d e"
    by (auto simp: rivals_def op_primary_def op_name_def op_cname_def is_cname_def is_addr_def)
qed

lemma prefix_conflict_free:
  assumes ord: "set_order ord" and lst: "listing_ok exs" and swap: "swappable des"
    and cf: "conflict_free (set exs)" "conflict_free (set des)"
    and split: "diff_records ord exs des = ps @ qs"
  shows "conflict_free (set (cf_run exs ps))"
  unfolding conflict_free_def
proof (intro ballI)
  fix x y
  assume xy: "x \<in> set (cf_run exs ps)" "y \<in> set (cf_run exs ps)"
  note kx = prefix_keys [OF ord lst split xy(1)] and ky = prefix_keys [OF ord lst split xy(2)]
  have both: "\<not> rivals x y" if "rec_key x = rec_key x'" "rec_key y = rec_key y'" "\<not> rivals x' y'" for x' y'
    using that rivals_key by blast
  from kx ky show "\<not> rivals x y"
  proof (elim disjE bexE conjE, goal_cases)
    case (1 e e')
    then show ?case using cf(1) by (intro both) (auto simp: conflict_free_def)
  next
    case (2 e d)
    show ?case
    proof (cases "rec_key e \<in> rec_key ` set des")
      case True
      then obtain d' where "d' \<in> set des" "rec_key e = rec_key d'" by blast
      with 2 show ?thesis using cf(2) by (intro both [of d' d]) (auto simp: conflict_free_def)
    next
      case False
      with 2 show ?thesis using no_rival_pair(1) [OF ord lst swap split] by (intro both [of e d]) auto
    qed
  next
    case (3 d e)
    show ?case
    proof (cases "rec_key e \<in> rec_key ` set des")
      case True
      then obtain d' where "d' \<in> set des" "rec_key e = rec_key d'" by blast
      with 3 show ?thesis using cf(2) by (intro both [of d d']) (auto simp: conflict_free_def)
    next
      case False
      with 3 show ?thesis using no_rival_pair(2) [OF ord lst swap split] by (intro both [of d e]) auto
    qed
  next
    case (4 d d')
    then show ?case using cf(2) by (intro both) (auto simp: conflict_free_def)
  qed
qed

end
