(* ===== verification/Cloudflare_State.thy ===== *)
theory Cloudflare_State
  imports Cloudflare_Script
begin

text \<open>
  \<open>Zone.apply\<close> and the state function \<open>manage_zone_records\<close> of \<open>src/_states/cloudflare.py\<close>, and
  which requests they send: none that writes in test mode or after a failed check, otherwise one
  request per operation, in the order of the script, up to the first failure.
\<close>

definition add_record :: "'w http \<Rightarrow> Zone \<Rightarrow> cf_record \<Rightarrow> ('w, unit) act" where
  "add_record http z r =
     abind (alift (record_json r)) (\<lambda>js.
       abind (request http z (add_record_uri z) ''POST'' (Some js)) (\<lambda>_. areturn ()))"

definition remove_record :: "'w http \<Rightarrow> Zone \<Rightarrow> cf_record \<Rightarrow> ('w, unit) act" where
  "remove_record http z r =
     abind (request http z (record_uri z (r_id r)) ''DELETE'' None) (\<lambda>_. areturn ())"

definition put_record :: "'w http \<Rightarrow> Zone \<Rightarrow> cf_record \<Rightarrow> ('w, unit) act" where
  "put_record http z r =
     abind (alift (record_json r)) (\<lambda>js.
       abind (request http z (record_uri z (r_id r)) ''PUT'' (Some js)) (\<lambda>_. areturn ()))"

definition apply_op :: "'w http \<Rightarrow> Zone \<Rightarrow> cf_op \<Rightarrow> ('w, unit) act" where
  "apply_op http z op =
     (case op_action op of
        ADD \<Rightarrow> add_record http z (op_record op)
      | REMOVE \<Rightarrow> remove_record http z (op_record op)
      | UPDATE \<Rightarrow> put_record http z (op_record op))"

fun apply_diff :: "'w http \<Rightarrow> Zone \<Rightarrow> cf_op list \<Rightarrow> ('w, unit) act" where
  "apply_diff http z [] = areturn ()"
| "apply_diff http z (op # diff) = abind (apply_op http z op) (\<lambda>_. apply_diff http z diff)"

fun action_str :: "action \<Rightarrow> string" where
  "action_str ADD = ''add''"
| "action_str REMOVE = ''remove''"
| "action_str UPDATE = ''update''"

text \<open>
  \<open>_changes\<close>: in Python 3 \<open>map\<close> gives an iterator, which is always true, so the key \<open>diff\<close> is always
  set.
\<close>

definition changes_of :: "cf_op list \<Rightarrow> (string, string) dict" where
  "changes_of diff = [(''diff'',
     join [NL] (map (\<lambda>op. action_str (op_action op) @ '' '' @ record_str (op_record op)) diff))]"

record state_ret =
  ret_name :: string
  ret_changes :: "(string, string) dict"
  ret_result :: "bool option"
  ret_comment :: string
  ret_pchanges :: "(string, string) dict option"

definition manage_zone_records ::
  "(rkey list \<Rightarrow> rkey list) \<Rightarrow> 'w http \<Rightarrow> bool \<Rightarrow> string \<Rightarrow> zdict \<Rightarrow> 'w \<Rightarrow> (state_ret res \<times> 'w) option" where
  "manage_zone_records ord http test name zone w =
     (case zone_init name zone of
        Inl e \<Rightarrow> Some (Inl e, w)
      | Inr managed \<Rightarrow>
         (case sanity_check http managed w of
            (Inl (SaltInvocationError msg), w1) \<Rightarrow>
              Some (Inr \<lparr>ret_name = name, ret_changes = [], ret_result = Some False,
                ret_comment = msg, ret_pchanges = None\<rparr>, w1)
          | (Inl e, w1) \<Rightarrow> Some (Inl e, w1)
          | (Inr _, w1) \<Rightarrow>
             (case zone_diff ord http managed w1 of
                None \<Rightarrow> None
              | Some (Inl e, w2) \<Rightarrow> Some (Inl e, w2)
              | Some (Inr diff, w2) \<Rightarrow>
                  let head = ''The state of '' @ name @ '' ('' @ zn_zone_id managed @ '') '' in
                  if length diff = 0 then
                    Some (Inr \<lparr>ret_name = name, ret_changes = [],
                      ret_result = (if test then None else Some True),
                      ret_comment = head @ ''is up to date.'', ret_pchanges = None\<rparr>, w2)
                  else if test then
                    Some (Inr \<lparr>ret_name = name, ret_changes = changes_of diff, ret_result = None,
                      ret_comment = head @ ''will be changed ('' @ show_nat (length diff) @ '' changes).'',
                      ret_pchanges = Some (changes_of diff)\<rparr>, w2)
                  else
                    (case apply_diff http managed diff w2 of
                       (Inl e, w3) \<Rightarrow> Some (Inl e, w3)
                     | (Inr _, w3) \<Rightarrow>
                         Some (Inr \<lparr>ret_name = name, ret_changes = changes_of diff, ret_result = Some True,
                           ret_comment = head @ ''was changed ('' @ show_nat (length diff) @ '' changes).'',
                           ret_pchanges = None\<rparr>, w3)))))"

section \<open>Requests sent\<close>

text \<open>The world extended with the list of requests sent so far.\<close>

definition logged :: "'w http \<Rightarrow> ('w \<times> http_req list) http" where
  "logged http q wl = (case http q (fst wl) of (r, w') \<Rightarrow> (r, (w', snd wl @ [q])))"

lemma logged_simp: "logged http q (w, l) = (fst (http q w), (snd (http q w), l @ [q]))"
  by (simp add: logged_def split: prod.splits)

definition only_reads :: "http_req list \<Rightarrow> http_req list \<Rightarrow> bool" where
  "only_reads l l' \<longleftrightarrow> (\<exists>qs. l' = l @ qs \<and> (\<forall>q \<in> set qs. q_method q = ''GET''))"

lemma only_reads_refl [simp]: "only_reads l l"
  by (auto simp: only_reads_def)

lemma only_reads_trans: "only_reads l l' \<Longrightarrow> only_reads l' l'' \<Longrightarrow> only_reads l l''"
  by (fastforce simp: only_reads_def)

lemma request_GET_reads:
  "request (logged http) z uri ''GET'' js (w, l) = (r, (w', l')) \<Longrightarrow> only_reads l l'"
  by (auto simp: request_def Let_def abind_def logged_simp areturn_def araise_def only_reads_def
      split: sum.splits prod.splits option.splits if_splits)

lemma sanity_check_reads:
  "sanity_check (logged http) z (w, l) = (r, (w', l')) \<Longrightarrow> only_reads l l'"
  unfolding sanity_check_def abind_def
  by (auto simp: alift_def araise_def split: prod.splits sum.splits payload.splits if_splits
      dest: request_GET_reads)

lemma existing_loop_reads:
  assumes "existing_loop (logged http) z page recs wl = Some rw"
  shows "only_reads (snd wl) (snd (snd rw))"
proof -
  have "logged http = logged http \<longrightarrow> only_reads (snd wl) (snd (snd rw))"
  proof (rule existing_loop.raw_induct
      [where P = "\<lambda>h z page recs wl rw. h = logged http \<longrightarrow> only_reads (snd wl) (snd (snd rw))", OF _ assms],
      rule impI)
  fix loop h and z :: Zone and page recs and wl :: "'a \<times> http_req list" and rw
  assume IH: "\<And>h z page recs wl rw. loop h z page recs wl = Some rw \<Longrightarrow>
      h = logged http \<longrightarrow> only_reads (snd wl) (snd (snd rw))"
    and step: "(case request h z (records_uri z page) ''GET'' None wl of
        (Inl e, w') \<Rightarrow> Some (Inl e, w')
      | (Inr found, w') \<Rightarrow>
         (case found of
            ZonePayload n \<Rightarrow> Some (Inl (KeyError ''result_info''), w')
          | PagePayload ds current_page total_pages \<Rightarrow>
              (case rfold (add_existing z) ds recs of
                 Inl e \<Rightarrow> Some (Inl e, w')
               | Inr records' \<Rightarrow>
                   if current_page = total_pages \<or> total_pages = 0
                   then Some (Inr (dict_values records'), w')
                   else loop h z (page + 1) records' w')
          | OtherPayload \<Rightarrow> Some (Inl (KeyError ''result''), w'))) = Some rw"
    and h: "h = logged http"
  obtain r w l where req: "request h z (records_uri z page) ''GET'' None wl = (r, (w, l))"
    by (metis prod.collapse)
  have "only_reads (snd wl) l"
    using req request_GET_reads [of http z _ None "fst wl" "snd wl"] unfolding h prod.collapse by metis
  moreover have "only_reads l (snd (snd rw))"
  proof (cases "\<exists>p rs. loop h z p rs (w, l) = Some rw")
    case True
    then show ?thesis using IH h by fastforce
  next
    case False
    then have "snd rw = (w, l)"
      using step unfolding req by (auto split: sum.splits payload.splits if_splits)
    then show ?thesis by simp
  qed
  ultimately show "only_reads (snd wl) (snd (snd rw))" by (rule only_reads_trans)
  qed
  then show ?thesis by simp
qed

lemma zone_diff_reads:
  assumes "zone_diff ord (logged http) z (w, l) = Some (r, (w', l'))"
  shows "only_reads l l'"
proof -
  obtain r' where "existing (logged http) z (w, l) = Some (r', (w', l'))"
    using assms by (auto simp: zone_diff_def split: option.splits sum.splits)
  then show ?thesis unfolding existing_def using existing_loop_reads by fastforce
qed

text \<open>The request an operation stands for.\<close>

definition op_request :: "Zone \<Rightarrow> cf_op \<Rightarrow> http_req" where
  "op_request z op =
     (let js = (case record_json (op_record op) of Inl e \<Rightarrow> None | Inr j \<Rightarrow> Some j) in
      case op_action op of
        ADD \<Rightarrow> \<lparr>q_method = ''POST'', q_uri = add_record_uri z, q_headers = auth_headers z, q_json = js\<rparr>
      | REMOVE \<Rightarrow> \<lparr>q_method = ''DELETE'', q_uri = record_uri z (r_id (op_record op)),
                  q_headers = auth_headers z, q_json = None\<rparr>
      | UPDATE \<Rightarrow> \<lparr>q_method = ''PUT'', q_uri = record_uri z (r_id (op_record op)),
                  q_headers = auth_headers z, q_json = js\<rparr>)"

definition op_sendable :: "cf_op \<Rightarrow> bool" where
  "op_sendable op \<longleftrightarrow> op_action op = REMOVE \<or> (\<exists>j. record_json (op_record op) = Inr j)"

lemma apply_op_cases:
  "apply_op http z op w =
     (if \<not> op_sendable op then (Inl (projl (record_json (op_record op))), w)
      else (case http (op_request z op) w of
          (Inl e, w') \<Rightarrow> (Inl e, w')
        | (Inr resp, w') \<Rightarrow>
            if \<not> p_ok resp then (Inl (PyException (''Got HTTP code '' @ show_int (p_status resp) @ '': '' @ p_text resp)), w')
            else if p_json resp = None then (Inl (ValueError ''response body is not JSON''), w')
            else (Inr (), w')))"
  by (cases "op_action op"; cases "record_json (op_record op)")
    (auto simp: apply_op_def add_record_def remove_record_def put_record_def op_request_def op_sendable_def
      request_def act_defs split: prod.splits sum.splits option.splits)

lemma apply_op_ok:
  assumes "apply_op http z op w = (Inr u, w')"
  shows "op_sendable op" and "\<exists>resp. http (op_request z op) w = (Inr resp, w') \<and> p_ok resp"
  using assms unfolding apply_op_cases by (auto split: if_splits prod.splits sum.splits)

text \<open>The world extended with every request sent and the answer to it.\<close>

definition recorded :: "'w http \<Rightarrow> ('w \<times> (http_req \<times> http_resp res) list) http" where
  "recorded http q wl = (case http q (fst wl) of (r, w') \<Rightarrow> (r, (w', snd wl @ [(q, r)])))"

lemma recorded_simp: "recorded http q (w, l) = (fst (http q w), (snd (http q w), l @ [(q, fst (http q w))]))"
  by (simp add: recorded_def split: prod.splits)

text \<open>What makes an answer a failure: no answer, a status that is not ok, a body that is not JSON.\<close>

definition answer_error :: "http_resp res \<Rightarrow> py_exc option" where
  "answer_error a = (case a of
     Inl e \<Rightarrow> Some e
   | Inr resp \<Rightarrow>
       if \<not> p_ok resp then Some (PyException (''Got HTTP code '' @ show_int (p_status resp) @ '': '' @ p_text resp))
       else if p_json resp = None then Some (ValueError ''response body is not JSON'') else None)"

text \<open>
  A run over \<open>ops\<close> that sent and received \<open>l\<close> and ended with \<open>r\<close>: one request per operation, in order, up
  to the first failed answer or the first operation that has no JSON form.
\<close>

definition stops_at_failure :: "Zone \<Rightarrow> cf_op list \<Rightarrow> (http_req \<times> http_resp res) list \<Rightarrow> unit res \<Rightarrow> bool" where
  "stops_at_failure z ops l r \<longleftrightarrow> length l \<le> length ops \<and> map fst l = map (op_request z) (take (length l) ops) \<and>
     (\<forall>a \<in> set (butlast l). answer_error (snd a) = None) \<and>
     (case r of
        Inr _ \<Rightarrow> length l = length ops \<and> (\<forall>a \<in> set l. answer_error (snd a) = None)
      | Inl e \<Rightarrow> l \<noteq> [] \<and> answer_error (snd (last l)) = Some e \<or>
          (\<forall>a \<in> set l. answer_error (snd a) = None) \<and> length l < length ops \<and>
          op_action (ops ! length l) \<noteq> REMOVE \<and> record_json (op_record (ops ! length l)) = Inl e)"

lemma apply_op_recorded:
  "apply_op (recorded http) z op (w, l) =
     (if \<not> op_sendable op then (Inl (projl (record_json (op_record op))), (w, l))
      else (case answer_error (fst (http (op_request z op) w)) of None \<Rightarrow> Inr () | Some e \<Rightarrow> Inl e,
        (snd (http (op_request z op) w), l @ [(op_request z op, fst (http (op_request z op) w))])))"
  unfolding apply_op_cases recorded_simp
  by (simp add: answer_error_def split: sum.splits)

lemma stops_Cons:
  assumes "stops_at_failure z ops l r" and "answer_error a = None"
  shows "stops_at_failure z (op # ops) ((op_request z op, a) # l) r"
  using assms by (cases r; cases "l = []") (auto simp: stops_at_failure_def)

lemma apply_diff_recorded:
  assumes "apply_diff (recorded http) z ops (w, l) = (r, (w', l'))"
  shows "\<exists>k. l' = l @ k \<and> stops_at_failure z ops k r"
  using assms
proof (induction ops arbitrary: w l)
  case Nil
  then show ?case by (auto simp: areturn_def stops_at_failure_def)
next
  case (Cons op ops)
  let ?a = "fst (http (op_request z op) w)" and ?w = "snd (http (op_request z op) w)"
  note step = apply_op_recorded [of http z op w l]
  show ?case
  proof (cases "op_sendable op")
    case False
    then obtain e where e: "op_action op \<noteq> REMOVE" "record_json (op_record op) = Inl e"
      by (cases "record_json (op_record op)") (auto simp: op_sendable_def)
    then have "r = Inl e" "l' = l" using Cons.prems False by (simp_all add: step abind_def)
    with e show ?thesis by (intro exI [of _ "[]"]) (simp add: stops_at_failure_def)
  next
    case True
    show ?thesis
    proof (cases "answer_error ?a")
      case None
      with True Cons.prems have "apply_diff (recorded http) z ops (?w, l @ [(op_request z op, ?a)]) = (r, (w', l'))"
        by (simp add: step abind_def)
      then obtain k where "l' = (l @ [(op_request z op, ?a)]) @ k" "stops_at_failure z ops k r" using Cons.IH by blast
      with None show ?thesis by (intro exI [of _ "(op_request z op, ?a) # k"]) (simp add: stops_Cons)
    next
      case (Some e)
      then have "r = Inl e" "l' = l @ [(op_request z op, ?a)]"
        using Cons.prems True by (simp_all add: step abind_def)
      with Some show ?thesis by (intro exI [of _ "[(op_request z op, ?a)]"]) (simp add: stops_at_failure_def)
    qed
  qed
qed

section \<open>A run against a service that keeps records\<close>

text \<open>
  The documented behaviour of the service, for worlds seen through \<open>view\<close> (the records of the zone,
  with the identifiers the service gave them) and \<open>used\<close> (every identifier it ever gave): asking for
  the zone changes nothing; the listing shows the records; a successful POST appends a record under
  an unused identifier, DELETE drops the record with the identifier, PUT overwrites it. The service keeps
  the content in a form of its own (\<open>shown\<close>), which need not be the one it was sent: an SRV record
  comes back without its priority. The listing knows no \<open>salt_managed\<close>, an empty zone has no pages,
  and the order of the listing is its own.
\<close>

definition zone_req :: "Zone \<Rightarrow> http_req" where
  "zone_req z = \<lparr>q_method = ''GET'', q_uri = zones_uri z, q_headers = auth_headers z, q_json = None\<rparr>"

definition lists_view :: "'w http \<Rightarrow> Zone \<Rightarrow> ('w \<Rightarrow> cf_record list) \<Rightarrow> ('w \<Rightarrow> string option set) \<Rightarrow> bool" where
  "lists_view http z view used \<longleftrightarrow> (\<forall>u. \<exists>n pages.
     (\<forall>d \<in> set (concat (map pages [1..<Suc n])). d_salt_managed d = None) \<and>
     paginated http z (\<lambda>w. view w = view u \<and> used w = used u) n pages \<and>
     rmap record_from_dict (concat (map pages [1..<Suc n])) = Inr (view u))"

text \<open>What the operations of a script look like: a target that was listed, a record that was desired.\<close>

definition priority_ok :: "cf_record \<Rightarrow> bool" where
  "priority_ok r \<longleftrightarrow> (r_type r = ''MX'') = (r_priority r \<noteq> None)"

definition op_wf :: "cf_op \<Rightarrow> bool" where
  "op_wf op \<longleftrightarrow> (op_action op \<noteq> ADD \<longrightarrow> r_id (op_record op) \<noteq> None) \<and>
     (op_action op \<noteq> REMOVE \<longrightarrow> r_salt_managed (op_record op) \<and> priority_ok (op_record op))"

definition takes_effect :: "cf_op \<Rightarrow> string option set \<Rightarrow> cf_record list \<Rightarrow> cf_record list \<Rightarrow> bool" where
  "takes_effect op given rs rs' \<longleftrightarrow>
     (case op_action op of
        ADD \<Rightarrow> \<exists>i. Some i \<notin> given \<and> mset rs' = add_mset ((op_record op)\<lparr>r_id := Some i\<rparr>) (mset rs)
      | REMOVE \<Rightarrow> mset rs' = filter_mset (\<lambda>x. r_id x \<noteq> r_id (op_record op)) (mset rs)
      | UPDATE \<Rightarrow> mset rs' = image_mset (\<lambda>x. if r_id x = r_id (op_record op) then op_record op else x) (mset rs))"

definition serves :: "'w http \<Rightarrow> Zone \<Rightarrow> (cf_record \<Rightarrow> cf_record) \<Rightarrow> ('w \<Rightarrow> cf_record list) \<Rightarrow>
    ('w \<Rightarrow> string option set) \<Rightarrow> bool" where
  "serves http z shown view used \<longleftrightarrow>
     (\<forall>w r w'. http (zone_req z) w = (r, w') \<longrightarrow> view w' = view w \<and> used w' = used w) \<and>
     lists_view http z view used \<and>
     (\<forall>op w resp w'. op_wf op \<and> op_sendable op \<and> http (op_request z op) w = (Inr resp, w') \<and> p_ok resp \<longrightarrow>
        used w \<subseteq> used w' \<and> takes_effect (shown_op shown op) (used w) (view w) (view w'))"

text \<open>
  Simulation: the records whose identifiers were known at the start are kept, the others lose theirs;
  then a successful call is a step of \<open>cf_exec\<close>.
\<close>

definition forget :: "string option set \<Rightarrow> cf_record list \<Rightarrow> cf_record list" where
  "forget K rs = map (\<lambda>x. if r_id x \<in> K then x else pure x) rs"

lemma pure_forget: "pure ` set (forget K rs) = pure ` set rs"
  by (induction rs) (auto simp: forget_def)

lemma forget_known: "r_id ` set rs \<subseteq> K \<Longrightarrow> forget K rs = rs"
  by (induction rs) (auto simp: forget_def)

lemma mset_cf_exec: "mset rs = mset rs' \<Longrightarrow> mset (cf_exec rs op) = mset (cf_exec rs' op)"
  by (cases "op_action op") (simp_all add: cf_exec_def)

lemma mset_cf_run: "mset rs = mset rs' \<Longrightarrow> mset (cf_run rs ops) = mset (cf_run rs' ops)"
proof (induction ops arbitrary: rs rs')
  case (Cons op ops)
  from Cons.IH [OF mset_cf_exec [OF Cons.prems], of op] show ?case by (simp add: cf_run_def)
qed (simp add: cf_run_def)

lemma takes_effect_exec:
  assumes eff: "takes_effect op given rs rs'" and K: "K \<subseteq> given" "None \<notin> K"
    and tgt: "op_action op \<noteq> ADD \<Longrightarrow> r_id (op_record op) \<in> K"
  shows "mset (forget K rs') = mset (cf_exec (forget K rs) op)"
proof -
  let ?f = "\<lambda>x. if r_id x \<in> K then x else pure x"
  have known: "r_id (?f x) = r_id (op_record op) \<longleftrightarrow> r_id x = r_id (op_record op)"
    if "r_id (op_record op) \<in> K" for x using that K(2) by auto
  have forget: "mset (forget K xs) = image_mset ?f (mset xs)" for xs by (simp add: forget_def)
  show ?thesis
  proof (cases "op_action op")
    case ADD
    then show ?thesis using eff K(1) by (auto simp: takes_effect_def forget cf_exec_def)
  next
    case REMOVE
    then have "mset rs' = mset (filter (\<lambda>x. r_id x \<noteq> r_id (op_record op)) rs)"
      using eff by (simp add: takes_effect_def)
    then have "mset (forget K rs') = mset (map ?f (filter (\<lambda>x. r_id x \<noteq> r_id (op_record op)) rs))"
      by (simp add: forget)
    also have "map ?f (filter (\<lambda>x. r_id x \<noteq> r_id (op_record op)) rs) =
        filter (\<lambda>x. r_id x \<noteq> r_id (op_record op)) (map ?f rs)"
      using known [OF tgt] REMOVE by (simp add: filter_map comp_def)
    finally show ?thesis using REMOVE by (simp add: forget_def cf_exec_def)
  next
    case UPDATE
    let ?g = "\<lambda>x. if r_id x = r_id (op_record op) then op_record op else x"
    have rs': "mset rs' = mset (map ?g rs)" using eff UPDATE by (simp add: takes_effect_def)
    have "mset (forget K rs') = mset (map ?f (map ?g rs))" unfolding forget rs' mset_map [symmetric] ..
    also have "map ?f (map ?g rs) = map ?g (map ?f rs)"
      using known [OF tgt] tgt UPDATE by auto
    finally show ?thesis using UPDATE by (simp add: forget_def cf_exec_def)
  qed
qed

lemma apply_diff_simulates:
  assumes srv: "serves http z shown view used" and "apply_diff http z ops w = (Inr u, w')"
    and "K \<subseteq> used w" and K: "None \<notin> K" and "set (targets ops) \<subseteq> K" and "\<forall>op \<in> set ops. op_wf op"
  shows "mset (forget K (view w')) = mset (cf_run (forget K (view w)) (map (shown_op shown) ops))"
  using assms(2,3,5,6)
proof (induction ops arbitrary: w)
  case Nil
  then show ?case by (simp add: areturn_def cf_run_def)
next
  case (Cons op ops)
  then obtain v w1 where step: "apply_op http z op w = (Inr v, w1)" and rest: "apply_diff http z ops w1 = (Inr u, w')"
    by (auto simp: abind_eq_Inr)
  have tgt: "op_action op \<noteq> ADD \<Longrightarrow> r_id (op_record op) \<in> K" and tgts: "set (targets ops) \<subseteq> K"
    using Cons.prems(3) by (auto simp: targets_def split: if_splits)
  obtain resp where "http (op_request z op) w = (Inr resp, w1)" "p_ok resp" using apply_op_ok(2) [OF step] by blast
  with srv Cons.prems(4) apply_op_ok(1) [OF step]
  have eff: "takes_effect (shown_op shown op) (used w) (view w) (view w1)" and mono: "used w \<subseteq> used w1"
    unfolding serves_def by (meson list.set_intros(1))+
  have now: "mset (forget K (view w1)) = mset (cf_exec (forget K (view w)) (shown_op shown op))"
    using takes_effect_exec [OF eff Cons.prems(2) K] tgt by simp
  have "mset (forget K (view w')) = mset (cf_run (forget K (view w1)) (map (shown_op shown) ops))"
    using Cons.IH [OF rest _ tgts] mono Cons.prems(2,4) by (meson list.set_intros(2) order_trans)
  also have "\<dots> = mset (cf_run (cf_exec (forget K (view w)) (shown_op shown op)) (map (shown_op shown) ops))"
    by (rule mset_cf_run [OF now])
  finally show ?case by (simp add: cf_run_def)
qed

lemma record_from_dict_priority: "record_from_dict d = Inr r \<Longrightarrow> priority_ok r"
  by (cases "d_name d"; cases "d_content d"; cases "d_priority d")
    (auto simp: record_from_dict_def priority_ok_def Let_def split: if_splits)

lemma desired_priority: "desired z = Inr des \<Longrightarrow> r \<in> set des \<Longrightarrow> priority_ok r"
  by (auto simp: desired_def rbind_eq_Inr rmap_Inr_iff list_all2_conv_all_nth in_set_conv_nth
      intro: record_from_dict_priority)

lemma diff_op_wf:
  assumes ord: "set_order ord" and "None \<notin> r_id ` set exs" and "\<forall>r \<in> set des. priority_ok r"
    and op: "op \<in> set (diff_records ord exs des)"
  shows "op_wf op"
  using ord op
proof (cases rule: diff_ops_cases)
  case (remove x)
  then have "r_id x \<noteq> None" using assms(2) by (metis imageI)
  then show ?thesis using remove by (simp add: op_wf_def)
next
  case (update x y)
  then have "r_id x \<noteq> None" "priority_ok y" using assms(2,3) by (metis imageI)+
  then show ?thesis using update by (simp add: op_wf_def update_record_def priority_ok_def)
qed (use assms(3) in \<open>auto simp: op_wf_def\<close>)

text \<open>Asking for the zone and listing it leave the records alone.\<close>

lemma sanity_check_view:
  assumes "serves http z shown view used" and "sanity_check http z w = (r, w1)"
  shows "view w1 = view w" and "used w1 = used w"
proof -
  obtain r0 w0 where call: "http (zone_req z) w = (r0, w0)" by force
  then have "w1 = w0"
    using assms(2) unfolding sanity_check_def request_def zone_req_def abind_def
    by (auto simp: areturn_def araise_def alift_def
        split: sum.splits if_splits option.splits payload.splits)
  then show "view w1 = view w" and "used w1 = used w" using assms(1) call unfolding serves_def by blast+
qed

lemma view_managed:
  assumes "serves http z shown view used" and "x \<in> set (view w)"
  shows "r_salt_managed x"
proof -
  obtain n pages where none: "\<forall>d \<in> set (concat (map pages [1..<Suc n])). d_salt_managed d = None"
    and conv: "rmap record_from_dict (concat (map pages [1..<Suc n])) = Inr (view w)"
    using assms(1) unfolding serves_def lists_view_def by blast
  have "\<exists>d \<in> set ds. record_from_dict d = Inr x" if "rmap record_from_dict ds = Inr (view w)" for ds
  proof -
    obtain i where i: "i < length (view w)" "view w ! i = x" using assms(2) by (auto simp: in_set_conv_nth)
    moreover have "list_all2 (\<lambda>d y. record_from_dict d = Inr y) ds (view w)" using that by (simp add: rmap_Inr_iff)
    ultimately have "i < length ds" "record_from_dict (ds ! i) = Inr x" by (auto simp: list_all2_conv_all_nth)
    then show ?thesis using nth_mem by blast
  qed
  from this [OF conv] obtain d where "d \<in> set (concat (map pages [1..<Suc n]))" "record_from_dict d = Inr x" by blast
  with none record_from_dict_fields(7) show ?thesis by (metis get_default_simps(1))
qed

lemma existing_view:
  assumes "serves http z shown view used" and "distinct (map r_id (view w))"
  shows "\<exists>w'. existing http z w = Some (Inr (filter (\<lambda>r. \<not> excluded z (r_name r)) (view w)), w') \<and>
     view w' = view w \<and> used w' = used w"
proof -
  obtain n pages where api: "paginated http z (\<lambda>u. view u = view w \<and> used u = used w) n pages"
    and conv: "rmap record_from_dict (concat (map pages [1..<Suc n])) = Inr (view w)"
    using assms(1) unfolding serves_def lists_view_def by blast
  let ?ds = "concat (map pages [1..<Suc n])"
  let ?f = "\<lambda>d. projr (record_from_dict d)"
  have all: "\<forall>d \<in> set ?ds. record_from_dict d = Inr (?f d)" and view: "map ?f ?ds = view w"
    using rmap_Inr_projr [OF conv] by simp_all
  have "distinct (map (r_id \<circ> ?f) ?ds)" using assms(2) unfolding view [symmetric] by (simp add: comp_def)
  from existing_pages [OF api _ all this, of w] show ?thesis unfolding view by simp
qed

end
