(* ===== verification/Cloudflare_Server.thy ===== *)
theory Cloudflare_Server
  imports Cloudflare_State
begin

text \<open>
  A service in memory that behaves as the documentation of the Cloudflare API says (\<open>serves\<close>): it
  keeps the records of one zone, lists them on one page, or on none when there is no record, and
  carries out POST, PUT and DELETE. It keeps an SRV record without its priority, as the comment in
  \<open>Record.data\<close> says. It shows that the hypotheses about the service can hold.
\<close>

type_synonym mem = "cf_record list \<times> string list"

definition mem_view :: "mem \<Rightarrow> cf_record list" where
  "mem_view w = filter (\<lambda>r. priority_ok r \<and> r_salt_managed r) (fst w)"

definition mem_used :: "mem \<Rightarrow> string option set" where
  "mem_used w = Some ` set (snd w) \<union> r_id ` set (mem_view w)"

text \<open>A new identifier: longer than every identifier given so far.\<close>

definition mem_fresh :: "mem \<Rightarrow> string" where
  "mem_fresh w = CHR ''n'' # concat (map (\<lambda>r. case r_id r of None \<Rightarrow> [] | Some i \<Rightarrow> i) (mem_view w) @ snd w)"

definition to_rdict :: "cf_record \<Rightarrow> rdict" where
  "to_rdict r = \<lparr>d_name = Some (r_name r), d_content = Some (r_content r), d_type = Some (r_type r),
     d_priority = r_priority r, d_proxied = Some (r_proxied r), d_id = Some (r_id r),
     d_ttl = Some (r_ttl r), d_salt_managed = None\<rparr>"

definition mem_shown :: "cf_record \<Rightarrow> cf_record" where
  "mem_shown r = (if r_type r = ''SRV'' then
     (case split_on TAB (r_content r) of
        [priority, weight, port, target] \<Rightarrow> r\<lparr>r_content := join [TAB] [weight, port, target]\<rparr>
      | _ \<Rightarrow> r)
     else r)"

definition json_record :: "cf_json \<Rightarrow> cf_record" where
  "json_record js = \<lparr>r_id = None, r_type = j_type js, r_name = j_name js, r_content = j_content js,
     r_priority = (case j_priority js of None \<Rightarrow> None | Some p \<Rightarrow> p), r_proxied = j_proxied js,
     r_ttl = j_ttl js, r_salt_managed = True\<rparr>"

definition ok_resp :: "payload \<Rightarrow> http_resp" where
  "ok_resp p = \<lparr>p_ok = True, p_status = 200, p_text = [], p_json = Some p\<rparr>"

definition bad_resp :: http_resp where
  "bad_resp = \<lparr>p_ok = False, p_status = 400, p_text = [], p_json = None\<rparr>"

definition uri_id :: "Zone \<Rightarrow> string \<Rightarrow> string" where
  "uri_id z uri = drop (length (zones_uri z @ ''/dns_records/'')) uri"

definition mem_server :: "Zone \<Rightarrow> mem http" where
  "mem_server z q w =
     (if q_method q = ''GET'' then
        (Inr (ok_resp (if q_uri q = zones_uri z then ZonePayload (zn_name z)
                       else PagePayload (map to_rdict (mem_view w)) 1 (if mem_view w = [] then 0 else 1))), w)
      else if q_method q = ''DELETE'' then
        (Inr (ok_resp OtherPayload),
          (filter (\<lambda>x. r_id x \<noteq> Some (uri_id z (q_uri q))) (fst w), uri_id z (q_uri q) # snd w))
      else (case q_json q of
          None \<Rightarrow> (Inr bad_resp, w)
        | Some js \<Rightarrow>
            if q_method q = ''POST'' then
              (Inr (ok_resp OtherPayload), (fst w @ [(mem_shown (json_record js))\<lparr>r_id := Some (mem_fresh w)\<rparr>], snd w))
            else
              (Inr (ok_resp OtherPayload),
                (map (\<lambda>x. if r_id x = Some (uri_id z (q_uri q)) then (mem_shown (json_record js))\<lparr>r_id := r_id x\<rparr> else x) (mem_view w),
                 uri_id z (q_uri q) # snd w))))"

lemma record_from_to_rdict: "priority_ok r \<Longrightarrow> r_salt_managed r \<Longrightarrow> record_from_dict (to_rdict r) = Inr r"
  by (cases "r_priority r") (auto simp: priority_ok_def record_from_dict_def to_rdict_def Let_def)

lemma json_record_json:
  assumes "record_json r = Inr js" and "r_salt_managed r" and "priority_ok r"
  shows "json_record js = pure r"
  using assms by (auto simp: record_json_def json_record_def rbind_eq_Inr priority_ok_def pure_def)

lemma mem_shown_simps [simp]:
  "r_id (mem_shown r) = r_id r" "r_type (mem_shown r) = r_type r" "r_priority (mem_shown r) = r_priority r"
  "r_salt_managed (mem_shown r) = r_salt_managed r"
  by (auto simp: mem_shown_def split: list.split)

lemma mem_fresh_unused: "Some (mem_fresh w) \<notin> mem_used w"
proof
  assume "Some (mem_fresh w) \<in> mem_used w"
  then have "mem_fresh w \<in> set (map (\<lambda>r. case r_id r of None \<Rightarrow> [] | Some i \<Rightarrow> i) (mem_view w) @ snd w)"
    by (auto simp: mem_used_def image_iff) (metis option.simps(5))
  then have "length (mem_fresh w) \<le> length (concat (map (\<lambda>r. case r_id r of None \<Rightarrow> [] | Some i \<Rightarrow> i) (mem_view w) @ snd w))"
    by (metis length_concat map_append member_le_sum_list image_eqI set_map zero_le)
  then show False by (simp add: mem_fresh_def)
qed

lemma mem_paginated:
  "paginated (mem_server z) z (\<lambda>w. mem_view w = mem_view u \<and> mem_used w = mem_used u)
     (if mem_view u = [] then 0 else 1) (\<lambda>_. map to_rdict (mem_view u))"
  by (auto simp: paginated_def mem_server_def list_req_def records_uri_def ok_resp_def)

lemma mem_lists: "lists_view (mem_server z) z mem_view mem_used"
  unfolding lists_view_def
proof
  fix u
  let ?n = "if mem_view u = [] then 0 else 1 :: nat" and ?ds = "map to_rdict (mem_view u)"
  have pages: "concat (map (\<lambda>_. ?ds) [1..<Suc ?n]) = ?ds" by (cases "mem_view u") simp_all
  have "\<forall>r \<in> set (mem_view u). record_from_dict (to_rdict r) = Inr r"
    by (simp add: mem_view_def record_from_to_rdict)
  then have "rmap record_from_dict ?ds = Inr (mem_view u)"
    by (auto simp: rmap_Inr_iff list_all2_conv_all_nth)
  moreover have "\<forall>d \<in> set ?ds. d_salt_managed d = None" by (auto simp: to_rdict_def)
  ultimately show "\<exists>n pages. (\<forall>d \<in> set (concat (map pages [1..<Suc n])). d_salt_managed d = None) \<and>
      paginated (mem_server z) z (\<lambda>w. mem_view w = mem_view u \<and> mem_used w = mem_used u) n pages \<and>
      rmap record_from_dict (concat (map pages [1..<Suc n])) = Inr (mem_view u)"
    using mem_paginated [of z u] pages by (intro exI [of _ ?n] exI [of _ "\<lambda>_. ?ds"]) (simp only: simp_thms)
qed

lemma uri_id_record: "uri_id z (record_uri z (Some i)) = i"
  by (simp add: uri_id_def record_uri_def)

lemma mem_ADD:
  assumes "op_wf op" "op_sendable op" "op_action op = ADD" "mem_server z (op_request z op) w = (Inr resp, w')"
  shows "w' = (fst w @ [(mem_shown (pure (op_record op)))\<lparr>r_id := Some (mem_fresh w)\<rparr>], snd w)"
    and "priority_ok (op_record op)" and "r_salt_managed (op_record op)"
  using assms json_record_json [of "op_record op"]
  by (auto simp: mem_server_def op_request_def op_sendable_def op_wf_def split: if_splits)

lemma mem_REMOVE:
  assumes "op_wf op" "op_action op = REMOVE" "mem_server z (op_request z op) w = (Inr resp, w')"
  shows "\<exists>i. r_id (op_record op) = Some i \<and> w' = (filter (\<lambda>x. r_id x \<noteq> r_id (op_record op)) (fst w), i # snd w)"
  using assms uri_id_record [of z]
  by (auto simp: mem_server_def op_request_def op_wf_def)

lemma mem_UPDATE:
  assumes "op_wf op" "op_sendable op" "op_action op = UPDATE" "mem_server z (op_request z op) w = (Inr resp, w')"
  shows "\<exists>i. r_id (op_record op) = Some i \<and> priority_ok (op_record op) \<and> r_salt_managed (op_record op) \<and>
    w' = (map (\<lambda>x. if r_id x = Some i then (mem_shown (pure (op_record op)))\<lparr>r_id := Some i\<rparr> else x) (mem_view w),
      i # snd w)"
proof -
  obtain i js where i: "r_id (op_record op) = Some i" and js: "record_json (op_record op) = Inr js"
    and wf: "r_salt_managed (op_record op)" "priority_ok (op_record op)"
    using assms by (auto simp: op_wf_def op_sendable_def)
  have "(if r_id x = Some i then (mem_shown (json_record js))\<lparr>r_id := r_id x\<rparr> else x) =
      (if r_id x = Some i then (mem_shown (pure (op_record op)))\<lparr>r_id := Some i\<rparr> else x)" for x
    using json_record_json [OF js wf] by simp
  then show ?thesis using assms(3,4) i js wf uri_id_record [of z i]
    by (simp add: mem_server_def op_request_def)
qed

lemma mem_serves: "serves (mem_server z) z mem_shown mem_view mem_used"
  unfolding serves_def
proof (intro conjI allI impI)
  show "lists_view (mem_server z) z mem_view mem_used" by (rule mem_lists)
  fix op w resp w'
  assume "op_wf op \<and> op_sendable op \<and> mem_server z (op_request z op) w = (Inr resp, w') \<and> p_ok resp"
  then have *: "op_wf op" "op_sendable op" "mem_server z (op_request z op) w = (Inr resp, w')" by auto
  let ?r = "op_record op" and ?s = "op_record (shown_op mem_shown op)"
  have shown: "?s = (mem_shown (pure ?r))\<lparr>r_id := r_id ?r\<rparr>" if "op_action op \<noteq> REMOVE"
    using that by (simp add: shown_op_def)
  have "mem_used w \<subseteq> mem_used w' \<and> takes_effect (shown_op mem_shown op) (mem_used w) (mem_view w) (mem_view w')"
  proof (cases "op_action op")
    case ADD
    have ok: "priority_ok ((mem_shown (pure ?r))\<lparr>r_id := i\<rparr>)" "r_salt_managed ((mem_shown (pure ?r))\<lparr>r_id := i\<rparr>)" for i
      using mem_ADD(2,3) [OF *(1,2) ADD *(3)] by (simp_all add: priority_ok_def)
    show ?thesis using mem_ADD(1) [OF *(1,2) ADD *(3)] mem_fresh_unused [of w] ADD ok shown
      by (auto simp: mem_used_def mem_view_def takes_effect_def)
  next
    case REMOVE
    obtain i where i: "r_id ?r = Some i" "w' = (filter (\<lambda>x. r_id x \<noteq> r_id ?r) (fst w), i # snd w)"
      using mem_REMOVE [OF *(1) REMOVE *(3)] by blast
    then have "mem_view w' = filter (\<lambda>x. r_id x \<noteq> r_id ?r) (mem_view w)"
      by (simp add: mem_view_def conj_commute)
    with i REMOVE show ?thesis by (auto simp: mem_used_def takes_effect_def shown_op_def)
  next
    case UPDATE
    obtain i where i: "r_id ?r = Some i" "priority_ok ?r" "r_salt_managed ?r"
      "w' = (map (\<lambda>x. if r_id x = Some i then (mem_shown (pure ?r))\<lparr>r_id := Some i\<rparr> else x) (mem_view w), i # snd w)"
      using mem_UPDATE [OF *(1,2) UPDATE *(3)] by blast
    have s: "?s = (mem_shown (pure ?r))\<lparr>r_id := Some i\<rparr>" using shown UPDATE i(1) by simp
    have "priority_ok ?s \<and> r_salt_managed ?s" unfolding s using i(2,3) by (simp add: priority_ok_def)
    then have "\<forall>x \<in> set (map (\<lambda>x. if r_id x = Some i then ?s else x) (mem_view w)). priority_ok x \<and> r_salt_managed x"
      by (auto simp: mem_view_def)
    then have "filter (\<lambda>x. priority_ok x \<and> r_salt_managed x) (map (\<lambda>x. if r_id x = Some i then ?s else x) (mem_view w)) =
        map (\<lambda>x. if r_id x = Some i then ?s else x) (mem_view w)"
      by (rule filter_True)
    then have view: "mem_view w' = map (\<lambda>x. if r_id x = r_id ?r then ?s else x) (mem_view w)"
      by (simp only: i(4) s [symmetric] i(1) mem_view_def [of "(_, _)"] fst_conv)
    have "mem_used w \<subseteq> mem_used w'"
      unfolding mem_used_def view using i by (auto simp: image_iff)
    with view UPDATE show ?thesis by (simp add: takes_effect_def)
  qed
  then show "mem_used w \<subseteq> mem_used w'"
    and "takes_effect (shown_op mem_shown op) (mem_used w) (mem_view w) (mem_view w')" by blast+
qed (auto simp: mem_server_def zone_req_def)

end
