(* ===== verification/Cloudflare_Props.thy ===== *)
theory Cloudflare_Props
  imports Cloudflare_Server
begin

text \<open>
  The properties of the Cloudflare state and their witnesses: convergence, absence of conflicts on
  the way, the apply order, the protection of unmanaged records, the sanity check, the listing loop,
  and which requests a run sends.
\<close>

section \<open>Lemmas\<close>

lemma manage_unfold:
  assumes "zone_init name zone = Inr z"
  shows "manage_zone_records ord http test name zone w =
    (case sanity_check http z w of
       (Inl (SaltInvocationError msg), w1) \<Rightarrow>
         Some (Inr \<lparr>ret_name = name, ret_changes = [], ret_result = Some False,
           ret_comment = msg, ret_pchanges = None\<rparr>, w1)
     | (Inl e, w1) \<Rightarrow> Some (Inl e, w1)
     | (Inr _, w1) \<Rightarrow>
        (case zone_diff ord http z w1 of
           None \<Rightarrow> None
         | Some (Inl e, w2) \<Rightarrow> Some (Inl e, w2)
         | Some (Inr diff, w2) \<Rightarrow>
             let head = ''The state of '' @ name @ '' ('' @ zn_zone_id z @ '') '' in
             if length diff = 0 then
               Some (Inr \<lparr>ret_name = name, ret_changes = [],
                 ret_result = (if test then None else Some True),
                 ret_comment = head @ ''is up to date.'', ret_pchanges = None\<rparr>, w2)
             else if test then
               Some (Inr \<lparr>ret_name = name, ret_changes = changes_of diff, ret_result = None,
                 ret_comment = head @ ''will be changed ('' @ show_nat (length diff) @ '' changes).'',
                 ret_pchanges = Some (changes_of diff)\<rparr>, w2)
             else
               (case apply_diff http z diff w2 of
                  (Inl e, w3) \<Rightarrow> Some (Inl e, w3)
                | (Inr _, w3) \<Rightarrow>
                    Some (Inr \<lparr>ret_name = name, ret_changes = changes_of diff, ret_result = Some True,
                      ret_comment = head @ ''was changed ('' @ show_nat (length diff) @ '' changes).'',
                      ret_pchanges = None\<rparr>, w3))))"
  using assms by (simp add: manage_zone_records_def)

lemma zone_diff_view:
  assumes "serves http z shown view used" and "distinct (map r_id (view w))" and "desired z = Inr des"
  shows "\<exists>w'. zone_diff ord http z w =
      Some (Inr (diff_records ord (filter (\<lambda>r. \<not> excluded z (r_name r)) (view w)) des), w') \<and>
    view w' = view w \<and> used w' = used w"
  using existing_view [OF assms(1,2)] assms(3) by (auto simp: zone_diff_def)

text \<open>The non-test run after the check: the script is computed, carried out, and settled the zone.\<close>

lemma apply_settles:
  assumes srv: "serves http z shown view used" and ord: "set_order ord" and lst: "listing_ok (view w)"
    and used: "r_id ` set (view w) \<subseteq> used w"
    and des: "desired z = Inr des" and pil: "pillar_ok des"
    and diff: "diff = diff_records ord (filter (\<lambda>r. \<not> excluded z (r_name r)) (view w)) des"
    and run: "apply_diff http z diff w = (Inr u, w')"
  shows "pure ` set (view w') = settled shown (filter (\<lambda>x. \<not> excluded z (r_name x)) (view w)) des \<union>
    pure ` {x \<in> set (view w). excluded z (r_name x) \<or> left_alone des x}"
proof -
  let ?P = "\<lambda>r. \<not> excluded z (r_name r)"
  let ?K = "r_id ` set (view w)"
  have lst': "listing_ok (filter ?P (view w))" using lst by (rule listing_ok_filter)
  then have no_None: "None \<notin> r_id ` set (filter ?P (view w))" by (simp add: listing_ok_def)
  have wf: "\<forall>op \<in> set diff. op_wf op"
    unfolding diff using diff_op_wf [OF ord no_None] desired_priority [OF des] by blast
  have tgt: "set (targets diff) \<subseteq> ?K"
    unfolding diff using diff_script_ok [OF ord lst', of des] by (auto simp: script_ok_def)
  have "None \<notin> ?K" using lst by (simp add: listing_ok_def)
  from apply_diff_simulates [OF srv run used this tgt wf]
  have "mset (forget ?K (view w')) = mset (cf_run (view w) (map (shown_op shown) diff))" by (simp add: forget_known)
  then have "set (forget ?K (view w')) = set (cf_run (view w) (map (shown_op shown) diff))" by (rule mset_eq_setD)
  then have "pure ` set (view w') = pure ` set (cf_run (view w) (map (shown_op shown) diff))" using pure_forget by metis
  then show ?thesis
    unfolding diff using script_settles [OF ord lst pil, of shown ?P] view_managed [OF srv] by simp
qed

text \<open>When every desired record is managed and shown as it was sent, the settled zone is the desired one.\<close>

lemma settled_exact:
  assumes "\<forall>d \<in> set des. r_salt_managed d \<and> pure (shown d) = d"
  shows "settled shown exs des = set des" and "left_alone des x \<longleftrightarrow> False"
proof -
  have "settled shown exs des = (\<lambda>d. d) ` {d \<in> set des. r_salt_managed d}"
    unfolding settled_def using assms by (intro image_cong) auto
  then show "settled shown exs des = set des" using assms by auto
  show "left_alone des x \<longleftrightarrow> False"
    using assms name_managed_all [of des "r_name x"] by (simp add: left_alone_def)
qed

section \<open>A concrete zone\<close>

text \<open>The zone \<open>ex.org\<close>: one address record is listed, the pillar wants a CNAME in its place.\<close>

definition ex_rdict :: "string \<Rightarrow> string \<Rightarrow> string \<Rightarrow> rdict" where
  "ex_rdict type name content = \<lparr>d_name = Some name, d_content = Some content, d_type = Some type,
     d_priority = None, d_proxied = None, d_id = None, d_ttl = None, d_salt_managed = None\<rparr>"

definition ex_record :: "string option \<Rightarrow> string \<Rightarrow> string \<Rightarrow> string \<Rightarrow> cf_record" where
  "ex_record i type name content = \<lparr>r_id = i, r_type = type, r_name = name, r_content = content,
     r_priority = None, r_proxied = False, r_ttl = 1, r_salt_managed = True\<rparr>"

definition ex_zdict :: zdict where
  "ex_zdict = \<lparr>zd_api_token = Some ''t'', zd_auth_email = None, zd_auth_key = None, zd_zone_id = Some ''z'',
     zd_records = Some [ex_rdict ''CNAME'' ''www.ex.org'' ''ex.org''], zd_exclude = None\<rparr>"

definition ex_zone :: Zone where
  "ex_zone = \<lparr>zn_name = ''ex.org'', zn_api_token = Some ''t'', zn_auth_email = None, zn_auth_key = None,
     zn_zone_id = ''z'', zn_records = [ex_rdict ''CNAME'' ''www.ex.org'' ''ex.org''], zn_exclude = []\<rparr>"

definition ex_des :: "cf_record list" where
  "ex_des = [ex_record None ''CNAME'' ''www.ex.org'' ''ex.org'']"

definition ex_exs :: "cf_record list" where
  "ex_exs = [ex_record (Some ''1'') ''A'' ''www.ex.org'' ''192.0.2.1'']"

lemma ex_init: "zone_init ''ex.org'' ex_zdict = Inr ex_zone"
  by (simp add: zone_init_def ex_zdict_def ex_zone_def truthy_def)

lemma ex_desired: "desired ex_zone = Inr ex_des"
  by (simp add: desired_def ex_zone_def ex_rdict_def ex_des_def ex_record_def validate_record_def
      record_from_dict_def)

lemma ex_ok: "listing_ok ex_exs" "pillar_ok ex_des" "\<forall>r \<in> set ex_des. r_salt_managed r"
  "set_order (\<lambda>xs. xs)" "mem_view (ex_exs, []) = ex_exs"
  by (simp_all add: listing_ok_def pillar_ok_def ex_exs_def ex_des_def ex_record_def set_order_def
      mem_view_def priority_ok_def)

lemma ex_swap: "swappable ex_des"
  using ex_ok(3) by (rule swappable_all_managed)

lemma ex_sane: "sanity_loop (zn_name ex_zone) {} {} ex_des = Inr ()"
  by (simp add: ex_des_def ex_record_def ex_zone_def in_zone_def endswith_def record_data_def)

section \<open>Properties\<close>

text \<open>
  C1. Convergence of a run. The service behaves as \<open>serves\<close> says: a successful POST, PUT or DELETE has its
  effect on the records of the zone, in the form \<open>shown\<close> in which the service keeps what it is sent.
  The listing has distinct identifiers and keys (\<open>listing_ok\<close>), the desired records are distinct and
  carry no identifier (\<open>pillar_ok\<close>). Then \<open>manage_zone_records\<close> outside test mode always returns; and
  when it reports success, the zone holds, identifiers aside: each managed desired record, as listed
  if it was listed so, and otherwise in the form the service gives it; the records the exclusion
  patterns cover; the listed records of a name that are not desired when its last desired record is
  unmanaged (\<open>left_alone\<close>); and nothing else. When all desired records are managed and shown as sent,
  these are the desired and the excluded records (\<open>settled_exact\<close>).
\<close>

theorem manage_converges:
  assumes init: "zone_init name zone = Inr z" and srv: "serves http z shown view used" and ord: "set_order ord"
    and lst: "listing_ok (view w)" and used: "r_id ` set (view w) \<subseteq> used w"
    and des: "desired z = Inr des" and pil: "pillar_ok des"
  shows "\<exists>r w'. manage_zone_records ord http False name zone w = Some (r, w') \<and>
    (\<forall>ret. r = Inr ret \<and> ret_result ret = Some True \<longrightarrow>
       pure ` set (view w') = settled shown (filter (\<lambda>x. \<not> excluded z (r_name x)) (view w)) des \<union>
         pure ` {x \<in> set (view w). excluded z (r_name x) \<or> left_alone des x})"
proof -
  let ?goal = "\<lambda>w'. pure ` set (view w') = settled shown (filter (\<lambda>x. \<not> excluded z (r_name x)) (view w)) des \<union>
         pure ` {x \<in> set (view w). excluded z (r_name x) \<or> left_alone des x}"
  obtain c w1 where check: "sanity_check http z w = (c, w1)" by force
  note same = sanity_check_view [OF srv check]
  have dist: "distinct (map r_id (view w1))" using lst same by (simp add: listing_ok_def)
  show ?thesis
  proof (cases c)
    case (Inl e)
    then show ?thesis using check by (cases e) (auto simp: manage_unfold [OF init])
  next
    case (Inr u)
    let ?diff = "diff_records ord (filter (\<lambda>r. \<not> excluded z (r_name r)) (view w)) des"
    obtain w2 where diff: "zone_diff ord http z w1 = Some (Inr ?diff, w2)" and same2: "view w2 = view w" "used w2 = used w"
      using zone_diff_view [OF srv dist des, of ord] same by auto
    obtain a w3 where run: "apply_diff http z ?diff w2 = (a, w3)" by force
    have goal: "?goal w3" if "a = Inr v" for v
      using apply_settles [OF srv ord _ _ des pil _ run [unfolded that]] lst used same2 by simp
    show ?thesis
    proof (cases "?diff = []")
      case True
      then have "a = Inr ()" "w3 = w2" using run by (auto simp: areturn_def)
      with goal have "?goal w2" by simp
      then show ?thesis using check Inr diff True by (simp add: manage_unfold [OF init])
    next
      case False
      then show ?thesis using check Inr diff run goal
        by (cases a) (auto simp: manage_unfold [OF init] Let_def)
    qed
  qed
qed

theorem manage_converges_witness:
  "\<exists>ret w'. manage_zone_records (\<lambda>xs. xs) (mem_server ex_zone) False ''ex.org'' ex_zdict (ex_exs, []) = Some (Inr ret, w') \<and>
    ret_result ret = Some True \<and>
    pure ` set (mem_view w') = settled mem_shown (filter (\<lambda>x. \<not> excluded ex_zone (r_name x)) ex_exs) ex_des \<union>
      pure ` {x \<in> set ex_exs. excluded ex_zone (r_name x) \<or> left_alone ex_des x}"
proof -
  have "case manage_zone_records (\<lambda>xs. xs) (mem_server ex_zone) False ''ex.org'' ex_zdict (ex_exs, []) of
      Some (Inr ret, w') \<Rightarrow> ret_result ret = Some True | _ \<Rightarrow> False"
    by code_simp
  then show ?thesis
    using manage_converges [OF ex_init mem_serves ex_ok(4) _ _ ex_desired ex_ok(2), of "(ex_exs, [])"] ex_ok(1,5)
    by (auto simp: mem_used_def split: option.splits prod.splits sum.splits)
qed

text \<open>
  A record the service shows in a form no desired record has is added again on every run, and the
  shown one is removed: a zone with such a record never converges. A desired SRV record of the four
  parts that \<open>Record.data\<close> asks for is one, since it comes back in three.
\<close>

lemma shown_otherwise_added_again:
  assumes "set_order ord" and "pillar_ok des" and "d \<in> set des" and "r_salt_managed d"
    and "rec_key d \<notin> rec_key ` set exs"
  shows "\<lparr>op_action = ADD, op_record = d\<rparr> \<in> set (diff_records ord exs des)"
  using assms by (intro diff_ADD_I) (auto simp: pillar_ok_def)

definition ex_srv :: cf_record where
  "ex_srv = ex_record None ''SRV'' ''_sip._tcp.ex.org'' (join [TAB] [''10'', ''5'', ''5060'', ''sip.ex.org''])"

lemma srv_never_converges:
  "diff_records (\<lambda>xs. xs) [(mem_shown ex_srv)\<lparr>r_id := Some ''1''\<rparr>] [ex_srv] =
     [\<lparr>op_action = ADD, op_record = ex_srv\<rparr>,
      \<lparr>op_action = REMOVE, op_record = (mem_shown ex_srv)\<lparr>r_id := Some ''1''\<rparr>\<rparr>]"
  by code_simp

text \<open>
  C2. No conflict on the way. The listed records have distinct identifiers and keys (\<open>listing_ok\<close>) and
  hold no CNAME next to another CNAME or address record of its name; the desired ones pass
  \<open>sanity_check\<close>; and no name with a managed address or CNAME record has an unmanaged record as its
  last desired one (\<open>swappable\<close>). Then after every number of steps of the script of \<open>diff\<close> the zone
  holds no such conflict: the service never has a reason to refuse a step for it.
\<close>

theorem script_never_conflicts:
  assumes "set_order ord" and "listing_ok exs" and "swappable des"
    and "conflict_free (set exs)" and "sanity_loop zone {} {} des = Inr ()"
  shows "conflict_free (set (cf_run exs (take k (diff_records ord exs des))))"
proof -
  have "conflict_free (set des)"
    using assms(5) by (auto simp: sanity_loop_ok_iff intro: cname_alone_conflict_free)
  moreover have "diff_records ord exs des = take k (diff_records ord exs des) @ drop k (diff_records ord exs des)"
    by simp
  ultimately show ?thesis using prefix_conflict_free assms(1-4) by blast
qed

theorem script_never_conflicts_witness:
  "conflict_free (set (cf_run ex_exs (take 1 (diff_records (\<lambda>xs. xs) ex_exs ex_des))))"
  using script_never_conflicts [OF ex_ok(4,1) ex_swap _ ex_sane, of 1]
  by (simp add: conflict_free_def rivals_def ex_exs_def)

text \<open>
  Without \<open>swappable\<close> it fails: an unmanaged TXT record after a managed CNAME of the same name protects
  the listed address record, and the script adds the CNAME beside it.
\<close>

lemma unmanaged_blocks_swap:
  "diff_records (\<lambda>xs. xs) ex_exs (ex_des @ [(ex_record None ''TXT'' ''www.ex.org'' ''x'')\<lparr>r_salt_managed := False\<rparr>]) =
     [\<lparr>op_action = ADD, op_record = hd ex_des\<rparr>]"
  by code_simp

text \<open>
  C3. The apply order. \<open>_order\<close> keeps the operations; all of A, AAAA and CNAME come before the others;
  and for every name, its address and CNAME operations run removals, additions, updates when one of
  them is a CNAME, and additions, updates, removals otherwise, each kind in its given order; the
  operations on other types of a name run additions, updates, removals.
\<close>

theorem order_ops_spec:
  "mset (order_ops ops) = mset ops \<and>
   (\<exists>ps qs. order_ops ops = ps @ qs \<and> list_all op_primary ps \<and> list_all (\<lambda>op. \<not> op_primary op) qs) \<and>
   (let grp = filter (\<lambda>op. op_primary op \<and> op_name op = n);
        other = filter (\<lambda>op. \<not> op_primary op \<and> op_name op = n);
        only = (\<lambda>a. filter (\<lambda>op. op_action op = a))
    in grp (order_ops ops) =
         (if list_ex op_cname (grp ops)
          then only REMOVE (grp ops) @ only ADD (grp ops) @ only UPDATE (grp ops)
          else only ADD (grp ops) @ only UPDATE (grp ops) @ only REMOVE (grp ops)) \<and>
       other (order_ops ops) = only ADD (other ops) @ only UPDATE (other ops) @ only REMOVE (other ops))"
proof (intro conjI)
  show "mset (order_ops ops) = mset ops" by simp
  show "\<exists>ps qs. order_ops ops = ps @ qs \<and> list_all op_primary ps \<and> list_all (\<lambda>op. \<not> op_primary op) qs"
    by (intro exI [of _ "primary_part ops"] exI [of _ "rest_part ops"]) (simp add: order_ops_parts list_all_iff)
  note special.blocks [unfolded special.only_def] regular.blocks [unfolded regular.only_def]
  then show "let grp = filter (\<lambda>op. op_primary op \<and> op_name op = n);
        other = filter (\<lambda>op. \<not> op_primary op \<and> op_name op = n);
        only = (\<lambda>a. filter (\<lambda>op. op_action op = a))
    in grp (order_ops ops) =
         (if list_ex op_cname (grp ops)
          then only REMOVE (grp ops) @ only ADD (grp ops) @ only UPDATE (grp ops)
          else only ADD (grp ops) @ only UPDATE (grp ops) @ only REMOVE (grp ops)) \<and>
       other (order_ops ops) = only ADD (other ops) @ only UPDATE (other ops) @ only REMOVE (other ops)"
    unfolding Let_def filter_primary_group filter_rest_group primary_in_order_def Bex_set by simp
qed

text \<open>
  C4. Protection of unmanaged records. The flag of a name is the \<open>salt_managed\<close> of its last desired
  record. The script removes only listed records, and none of a name whose flag is false; what it
  adds or updates is a desired record with \<open>salt_managed\<close> set, and an update keeps the identifier of a
  listed record with the same key. So a name whose desired records are all unmanaged is not touched
  at all: the script has operations only on names with a managed desired record, and removals of names
  that are not desired.
\<close>

theorem script_respects_unmanaged:
  assumes "set_order ord" and "op \<in> set (diff_records ord exs des)"
  shows "(op_action op = REMOVE \<longrightarrow> op_record op \<in> set exs \<and> name_managed des (op_name op) \<noteq> Some False) \<and>
    (op_action op = ADD \<longrightarrow> op_record op \<in> set des \<and> r_salt_managed (op_record op)) \<and>
    (op_action op = UPDATE \<longrightarrow> (\<exists>x \<in> set exs. \<exists>y \<in> set des. r_salt_managed y \<and> rec_key x = rec_key y \<and>
        op_record op = update_record x y \<and> r_id (op_record op) = r_id x)) \<and>
    (op_name op \<notin> r_name ` set des \<and> op_action op = REMOVE \<or>
     (\<exists>d \<in> set des. r_name d = op_name op \<and> r_salt_managed d))"
  using assms
proof (cases rule: diff_ops_cases)
  case (remove x)
  then show ?thesis using name_managed_flag [of des "r_name x"] by (auto simp: op_name_def)
qed (auto simp: op_name_def update_record_def)

theorem script_respects_unmanaged_witness:
  "name_managed ex_des (r_name (hd ex_exs)) \<noteq> Some False"
proof -
  have "\<lparr>op_action = REMOVE, op_record = hd ex_exs\<rparr> \<in> set (diff_records (\<lambda>xs. xs) ex_exs ex_des)"
    by (rule diff_REMOVE_I) (simp_all add: ex_ok ex_exs_def ex_des_def ex_record_def rec_key_def name_managed_def)
  from script_respects_unmanaged [OF ex_ok(4) this] show ?thesis by (simp add: op_name_def)
qed

text \<open>
  The flag of a name is not the flag of its records: with an unmanaged and then a managed desired
  record of one name, the listed record that the unmanaged one describes is removed.
\<close>

lemma unmanaged_record_removed:
  "\<lparr>op_action = REMOVE, op_record = hd ex_exs\<rparr> \<in> set (diff_records (\<lambda>xs. xs) ex_exs
     [(pure (hd ex_exs))\<lparr>r_salt_managed := False\<rparr>, ex_record None ''A'' ''www.ex.org'' ''192.0.2.2''])"
  by (rule diff_REMOVE_I)
    (simp_all add: ex_ok ex_exs_def ex_record_def rec_key_def name_managed_def pure_def)

text \<open>
  C5. The sanity check decides a declarative condition: when the service answers the zone request
  with the name \<open>n\<close>, the check passes if and only if \<open>n\<close> is the zone's name, all desired dictionaries
  are valid, every record lies in the zone with a legal TTL and parsable data, and no CNAME shares
  its name with an address record or a second CNAME.
\<close>

theorem sanity_check_decides:
  assumes "http (zone_req z) w = (Inr resp, w')" and "p_ok resp" and "p_json resp = Some (ZonePayload n)"
  shows "sanity_check http z w = (Inr (), w') \<longleftrightarrow>
    n = zn_name z \<and> (\<exists>des. desired z = Inr des \<and> (\<forall>r \<in> set des. sane_record (zn_name z) r) \<and> cname_alone des)"
proof -
  have "request http z (zones_uri z) ''GET'' None w = (Inr (ZonePayload n), w')"
    using assms by (simp add: request_def zone_req_def abind_def areturn_def)
  then show ?thesis
    by (auto simp: sanity_check_def abind_def araise_def alift_def rbind_eq_Inr sanity_loop_ok_iff)
qed

theorem sanity_check_decides_witness:
  "sanity_check (mem_server ex_zone) ex_zone (ex_exs, []) = (Inr (), (ex_exs, []))"
proof -
  have "mem_server ex_zone (zone_req ex_zone) (ex_exs, []) =
      (Inr (ok_resp (ZonePayload ''ex.org'')), (ex_exs, []))"
    by (simp add: mem_server_def zone_req_def ex_zone_def)
  from sanity_check_decides [where http = "mem_server ex_zone" and z = ex_zone and w = "(ex_exs, [])" and resp = "ok_resp (ZonePayload ''ex.org'')" and n = "''ex.org''", OF this] ex_sane [unfolded sanity_loop_ok_iff] ex_desired
  show ?thesis by (simp add: ok_resp_def) (simp add: ex_zone_def)
qed

text \<open>
  C6. The listing loop ends and is complete. Against a paginated listing of \<open>n\<close> pages with distinct
  identifiers, \<open>existing\<close> returns after the last page with the records of all pages in order, without
  those an exclusion pattern matches. The listing of an empty zone has no pages, \<open>n = 0\<close>: its first
  page answers with the page number one and zero pages, and the loop ends on it.
\<close>

theorem existing_complete:
  assumes "paginated http z I n pages" and "I w"
    and "\<forall>d \<in> set (concat (map pages [1..<Suc n])). record_from_dict d = Inr (f d)"
    and "distinct (map (r_id \<circ> f) (concat (map pages [1..<Suc n])))"
  shows "\<exists>w'. existing http z w = Some (Inr (filter (\<lambda>r. \<not> excluded z (r_name r))
            (map f (concat (map pages [1..<Suc n])))), w') \<and> I w'"
  by (rule existing_pages [OF assms])

theorem existing_complete_witness:
  "(\<exists>w'. existing (mem_server ex_zone) ex_zone (ex_exs, []) = Some (Inr ex_exs, w') \<and>
     mem_view w' = ex_exs) \<and>
   (\<exists>w'. existing (mem_server ex_zone) ex_zone ([], []) = Some (Inr [], w') \<and> mem_view w' = [])"
proof
  have not: "\<not> excluded ex_zone n" for n by (simp add: excluded_def ex_zone_def)
  have conv: "\<forall>d \<in> set (concat (map (\<lambda>_. map to_rdict ex_exs) [1..<Suc 1])).
      record_from_dict d = Inr (hd ex_exs)"
    by (simp add: ex_exs_def record_from_to_rdict priority_ok_def ex_record_def)
  have "mem_view (ex_exs, []) \<noteq> []" by (simp add: ex_ok(5)) (simp add: ex_exs_def)
  then have pages: "paginated (mem_server ex_zone) ex_zone (\<lambda>w. mem_view w = ex_exs \<and> mem_used w = mem_used (ex_exs, []))
      1 (\<lambda>_. map to_rdict ex_exs)"
    using mem_paginated [of ex_zone "(ex_exs, [])"] by (simp add: ex_ok(5))
  show "\<exists>w'. existing (mem_server ex_zone) ex_zone (ex_exs, []) = Some (Inr ex_exs, w') \<and> mem_view w' = ex_exs"
    using existing_complete [OF pages _ conv, of "(ex_exs, [])"] not ex_ok(5) by (auto simp: ex_exs_def)
  have "mem_view ([], []) = []" by (simp add: mem_view_def)
  then have "paginated (mem_server ex_zone) ex_zone (\<lambda>w. mem_view w = [] \<and> mem_used w = mem_used ([], []))
      0 (\<lambda>_. [])"
    using mem_paginated [of ex_zone "([], [])"] by simp
  from existing_complete [OF this, of "([], [])" "\<lambda>_. hd ex_exs"]
  show "\<exists>w'. existing (mem_server ex_zone) ex_zone ([], []) = Some (Inr [], w') \<and> mem_view w' = []"
    by (auto simp: mem_view_def)
qed

text \<open>
  C7. Test mode is read-only: whatever the service answers, every request of a run with
  \<open>test=True\<close> is a GET.
\<close>

theorem test_mode_only_reads:
  assumes "manage_zone_records ord (logged http) True name zone (w, []) = Some (r, (w', l))"
  shows "\<forall>q \<in> set l. q_method q = ''GET''"
proof (cases "zone_init name zone")
  case (Inl e)
  then show ?thesis using assms by (simp add: manage_zone_records_def)
next
  case (Inr z)
  obtain c w1 l1 where check: "sanity_check (logged http) z (w, []) = (c, (w1, l1))" by (metis prod.collapse)
  have "only_reads [] l1" using sanity_check_reads [OF check] .
  moreover have "only_reads l1 l"
  proof (cases "\<exists>d. zone_diff ord (logged http) z (w1, l1) = Some (d, (w', l))")
    case True
    then obtain d where "zone_diff ord (logged http) z (w1, l1) = Some (d, (w', l))" by blast
    then show ?thesis by (rule zone_diff_reads)
  next
    case False
    then have "l = l1" using assms check
      by (auto simp: manage_unfold [OF Inr] Let_def split: sum.splits py_exc.splits option.splits if_splits prod.splits)
    then show ?thesis by simp
  qed
  ultimately have "only_reads [] l" by (rule only_reads_trans)
  then show ?thesis by (auto simp: only_reads_def)
qed

theorem test_mode_only_reads_witness:
  "\<exists>r w' l. manage_zone_records (\<lambda>xs. xs) (logged (mem_server ex_zone)) True ''ex.org'' ex_zdict ((ex_exs, []), []) =
      Some (r, (w', l)) \<and> length l = 2 \<and> list_all (\<lambda>q. q_method q = ''GET'') l"
proof -
  have "case manage_zone_records (\<lambda>xs. xs) (logged (mem_server ex_zone)) True ''ex.org'' ex_zdict ((ex_exs, []), []) of
      Some (r, (w', l)) \<Rightarrow> length l = 2 | None \<Rightarrow> False"
    by code_simp
  then obtain r w' l where run: "manage_zone_records (\<lambda>xs. xs) (logged (mem_server ex_zone)) True ''ex.org'' ex_zdict
      ((ex_exs, []), []) = Some (r, (w', l))" and "length l = 2"
    by (auto split: option.splits prod.splits)
  with test_mode_only_reads [OF run] show ?thesis by (auto simp: list_all_iff)
qed

text \<open>
  C8. Applying the script. \<open>recorded\<close> keeps every request sent with the answer to it. \<open>apply\<close> sends one
  request per operation, in the order of the script. When it returns, all of them were sent and no
  answer was a failure (\<open>answer_error\<close>: an exception, a status that is not ok, a body that is not
  JSON). When it raises \<open>e\<close>, no answer but the last was a failure, and \<open>e\<close> is what the last answer
  raises, or no answer was a failure and \<open>e\<close> is the error of the next record, whose content has no
  JSON form; nothing is sent after it.
\<close>

theorem apply_sends_prefix:
  assumes "apply_diff (recorded http) z ops (w, []) = (r, (w', l))"
  shows "length l \<le> length ops \<and> map fst l = map (op_request z) (take (length l) ops) \<and>
    (\<forall>a \<in> set (butlast l). answer_error (snd a) = None) \<and>
    (case r of
       Inr _ \<Rightarrow> length l = length ops \<and> (\<forall>a \<in> set l. answer_error (snd a) = None)
     | Inl e \<Rightarrow> l \<noteq> [] \<and> answer_error (snd (last l)) = Some e \<or>
         (\<forall>a \<in> set l. answer_error (snd a) = None) \<and> length l < length ops \<and>
         op_action (ops ! length l) \<noteq> REMOVE \<and> record_json (op_record (ops ! length l)) = Inl e)"
  using apply_diff_recorded [OF assms] by (simp add: stops_at_failure_def)

text \<open>A service that refuses everything: of two operations only the first is sent.\<close>

definition ex_ops :: "cf_op list" where
  "ex_ops = [\<lparr>op_action = REMOVE, op_record = hd ex_exs\<rparr>, \<lparr>op_action = ADD, op_record = hd ex_des\<rparr>]"

theorem apply_sends_prefix_witness:
  "\<exists>e. apply_diff (recorded (\<lambda>q w. (Inr bad_resp, w))) ex_zone ex_ops ((), []) =
     (Inl e, ((), [(op_request ex_zone (hd ex_ops), Inr bad_resp)])) \<and> answer_error (Inr bad_resp) = Some e"
proof -
  obtain e l where run: "apply_diff (recorded (\<lambda>q w. (Inr bad_resp, w))) ex_zone ex_ops ((), []) = (Inl e, ((), l))"
    and l: "l = [(op_request ex_zone (hd ex_ops), Inr bad_resp)]"
    by (simp add: ex_ops_def apply_op_recorded abind_def op_sendable_def answer_error_def bad_resp_def)
  with apply_sends_prefix [OF run] show ?thesis by (auto simp: answer_error_def bad_resp_def)
qed

text \<open>
  C9. A converged zone needs no change: when the listed records, without their identifiers, are the
  desired ones, the script is empty, so the next run reports the zone as up to date.
\<close>

theorem converged_script_empty:
  assumes "set_order ord" and "listing_ok exs" and "pillar_ok des" and "pure ` set exs = set des"
  shows "diff_records ord exs des = []"
proof -
  have keys: "rec_key ` set des = rec_key ` set exs"
    unfolding assms(4) [symmetric] image_image by (simp add: rec_key_def)
  have "op \<notin> set (diff_records ord exs des)" for op
  proof
    assume "op \<in> set (diff_records ord exs des)"
    with assms(1) show False
    proof (cases rule: diff_ops_cases)
      case (update x y)
      have "rec_key (pure x) = rec_key y" using update(3) by (simp add: rec_key_def)
      moreover have "pure x \<in> set des" using update(1) assms(4) by blast
      ultimately have "pure x = y"
        using update(2) assms(3) by (auto simp: pillar_ok_def distinct_map inj_on_def)
      with update(4) show False by simp
    qed (use keys in auto)
  qed
  then show ?thesis by (metis list.set_intros(1) neq_Nil_conv)
qed

theorem converged_script_empty_witness:
  "diff_records (\<lambda>xs. xs) ex_exs (map pure ex_exs) = []"
  by (rule converged_script_empty)
    (simp_all add: ex_ok, simp add: pillar_ok_def ex_exs_def)

text \<open>
  The text of a record in the change report does not depend on its TTL: \<open>Record.__str__\<close> passes
  six arguments to a format with five places, so two records that differ in their TTL only print the
  same, and an update that changes nothing but the TTL reports the same line as the old record.
\<close>

theorem record_str_ignores_ttl:
  "record_str (r\<lparr>r_ttl := t\<rparr>) = record_str r"
  by (simp add: record_str_def str_format_record_def Let_def)

end
