(* ===== verification/Ddns.thy ===== *)
theory Ddns
  imports PyStr
begin

text \<open>
  Dynamic DNS updates: the execution module \<open>_modules/ddns.py\<close> and the state \<open>_states/ddns.py\<close>.
  The package \<open>dnspython\<close>, the name server and Salt's configuration are a parameter, the record
  \<open>dnspy\<close>: \<open>udp\<close> sends a message and gives the answer, and may raise; an error while a message is
  built counts as raised by sending it. What the properties use of them is the predicate
  \<open>dns_server\<close>.
\<close>

section \<open>Messages\<close>

record 'd rrset =
  rr_ttl :: int
  rr_items :: "'d list"

record 'd dns_answer =
  an_answer :: "'d rrset list"
  an_rcode :: int

datatype 'd zchange =
    Replace string int 'd
  | Add string int 'd
  | DelRdata string 'd
  | DelType string string
  | DelName string

type_synonym keyring = "(string \<times> string) list option"

text \<open>The arguments \<open>keyring\<close>, \<open>keyname\<close> and \<open>keyalgorithm\<close> of an update message.\<close>

type_synonym tsig = "keyring \<times> string option \<times> string"

datatype 'd dns_msg =
    Query string string
  | Update string tsig "'d zchange"

record ('w, 'd) dnspy =
  udp :: "'d dns_msg \<Rightarrow> string \<Rightarrow> int \<Rightarrow> int \<Rightarrow> ('w, 'd dns_answer) act"
  rdatatype_from_text :: "string \<Rightarrow> string res"
  rdata_from_text :: "string \<Rightarrow> string \<Rightarrow> 'd res"
  rd_address :: "'d \<Rightarrow> string res"
  tsig_from_file :: "string \<Rightarrow> (string \<times> string) list res"
  config_option :: "string \<Rightarrow> string option"

type_synonym kwargs = "(string, string option) dict"

section \<open>Configuration\<close>

definition ddns_virtual :: "bool \<Rightarrow> loader_ret" where
  "ddns_virtual dns_support =
     (if dns_support then Loaded ''ddns''
      else Unavailable ''The ddns execution module cannot be loaded: dnspython not installed.'')"

definition str_true :: "string option \<Rightarrow> bool" where
  "str_true v \<longleftrightarrow> v \<noteq> None \<and> v \<noteq> Some []"

definition ddns_config :: "('w, 'd) dnspy \<Rightarrow> string \<Rightarrow> string option \<Rightarrow> kwargs \<Rightarrow> string option" where
  "ddns_config E name key kwargs =
     (let key = get_default key name in
      case dict_get kwargs name of
        Some value \<Rightarrow> value
      | None \<Rightarrow> let value = config_option E (''ddns.'' @ key) in if str_true value then value else None)"

definition get_keyring :: "('w, 'd) dnspy \<Rightarrow> string option \<Rightarrow> keyring res" where
  "get_keyring E keyfile =
     (case keyfile of
        None \<Rightarrow> Inr None
      | Some f \<Rightarrow> if f = [] then Inr None else rbind (tsig_from_file E f) (\<lambda>k. Inr (Some k)))"

definition default_algorithm :: string where
  "default_algorithm = ''HMAC-MD5.SIG-ALG.REG.INT''"

text \<open>A keyword argument \<open>key\<close> is taken by the parameter \<open>key\<close> of \<open>_config\<close>, for every option asked for.\<close>

definition tsig_keys :: "('w, 'd) dnspy \<Rightarrow> kwargs \<Rightarrow> tsig res" where
  "tsig_keys E kwargs =
     (let key = get_default (dict_get kwargs ''key'') None in
     rbind (get_keyring E (ddns_config E ''keyfile'' key kwargs)) (\<lambda>keyring.
     let keyname = ddns_config E ''keyname'' key kwargs;
         alg = ddns_config E ''keyalgorithm'' key kwargs;
         keyalgorithm = (if str_true alg then the alg else default_algorithm)
     in Inr (keyring, keyname, keyalgorithm)))"

section \<open>update and delete\<close>

definition fqdn_of :: "string \<Rightarrow> string \<Rightarrow> string" where
  "fqdn_of name zone = (if endswith name ''.'' then name else name @ ''.'' @ zone)"

definition rr_exists :: "'d \<Rightarrow> int \<Rightarrow> 'd rrset list \<Rightarrow> bool" where
  "rr_exists rdata ttl ans =
     list_ex (\<lambda>rr. rdata \<in> set (rr_items rr) \<and> ttl = rr_ttl rr \<and>
        (1 \<le> length ans \<or> 1 \<le> length (rr_items rr))) ans"

text \<open>
  The choice between replacing, adding and doing nothing. With one answer the loop variable \<open>rrset\<close>
  of the source is that answer.
\<close>

definition wants_replace :: "bool \<Rightarrow> bool \<Rightarrow> 'd \<Rightarrow> 'd rrset list \<Rightarrow> bool" where
  "wants_replace replace replace_on_change rdata ans =
     (replace \<or> replace_on_change \<and>
        (case ans of [] \<Rightarrow> False | [rr] \<Rightarrow> rdata \<notin> set (rr_items rr) | _ \<Rightarrow> True))"

definition choose_change :: "bool \<Rightarrow> bool \<Rightarrow> string \<Rightarrow> int \<Rightarrow> 'd \<Rightarrow> 'd rrset list \<Rightarrow> 'd zchange option" where
  "choose_change replace replace_on_change name ttl rdata ans =
     (if wants_replace replace replace_on_change rdata ans then Some (Replace name ttl rdata)
      else if \<not> rr_exists rdata ttl ans then Some (Add name ttl rdata)
      else None)"

definition send_update :: "('w, 'd) dnspy \<Rightarrow> 'd dns_msg \<Rightarrow> string \<Rightarrow> int \<Rightarrow> int \<Rightarrow> ('w, bool option) act" where
  "send_update E msg nameserver timeout port =
     abind (udp E msg nameserver timeout port) (\<lambda>answer. areturn (Some (\<not> an_rcode answer > 0)))"

definition update ::
  "('w, 'd) dnspy \<Rightarrow> string \<Rightarrow> string \<Rightarrow> int \<Rightarrow> string \<Rightarrow> string \<Rightarrow> string \<Rightarrow> int \<Rightarrow> bool \<Rightarrow> bool \<Rightarrow> int \<Rightarrow> kwargs
     \<Rightarrow> ('w, bool option) act" where
  "update E zone name ttl rdtype data nameserver timeout replace replace_on_change port kwargs =
     abind (udp E (Query (fqdn_of name zone) rdtype) nameserver timeout port) (\<lambda>answer.
     abind (alift (rdatatype_from_text E rdtype)) (\<lambda>rdtype'.
     abind (alift (rdata_from_text E rdtype' data)) (\<lambda>rdata.
     abind (alift (tsig_keys E kwargs)) (\<lambda>keys.
     case choose_change replace replace_on_change name ttl rdata (an_answer answer) of
       None \<Rightarrow> areturn None
     | Some change \<Rightarrow> send_update E (Update zone keys change) nameserver timeout port))))"

definition delete_change :: "('w, 'd) dnspy \<Rightarrow> string \<Rightarrow> string option \<Rightarrow> string option \<Rightarrow> 'd zchange res" where
  "delete_change E name rdtype data =
     (if str_true rdtype then
        rbind (rdatatype_from_text E (the rdtype)) (\<lambda>rdtype'.
          if str_true data then
            rbind (rdata_from_text E rdtype' (the data)) (\<lambda>rdata. Inr (DelRdata name rdata))
          else Inr (DelType name rdtype'))
      else Inr (DelName name))"

definition delete ::
  "('w, 'd) dnspy \<Rightarrow> string \<Rightarrow> string \<Rightarrow> string option \<Rightarrow> string option \<Rightarrow> string \<Rightarrow> int \<Rightarrow> int \<Rightarrow> kwargs
     \<Rightarrow> ('w, bool option) act" where
  "delete E zone name rdtype data nameserver timeout port kwargs =
     abind (udp E (Query (fqdn_of name zone) (if str_true rdtype then the rdtype else ''ANY''))
              nameserver timeout port) (\<lambda>answer.
     if an_answer answer = [] then areturn None else
     abind (alift (tsig_keys E kwargs)) (\<lambda>keys.
     abind (alift (delete_change E name rdtype data)) (\<lambda>change.
     send_update E (Update zone keys change) nameserver timeout port)))"

section \<open>Hosts\<close>

text \<open>
  \<open>add_host\<close> hands \<open>port\<close> to \<open>update\<close> in the position of \<open>replace_on_change\<close>; the port that \<open>update\<close> uses
  is then its default. A keyword argument that names a parameter already given by position is a
  \<open>TypeError\<close> of the call.
\<close>

definition host_update ::
  "('w, 'd) dnspy \<Rightarrow> string \<Rightarrow> string \<Rightarrow> int \<Rightarrow> string \<Rightarrow> string \<Rightarrow> string \<Rightarrow> int \<Rightarrow> bool \<Rightarrow> int \<Rightarrow> kwargs
     \<Rightarrow> ('w, bool option) act" where
  "host_update E zone name ttl rdtype data nameserver timeout replace port kwargs =
     (if list_ex (dict_has kwargs) [''rdtype'', ''data'', ''replace_on_change'']
      then araise (TypeError ''update() got multiple values for argument'')
      else update E zone name ttl rdtype data nameserver timeout replace (port \<noteq> 0) 53 kwargs)"

fun ptr_loop ::
  "(string \<Rightarrow> string \<Rightarrow> ('w, bool option) act) \<Rightarrow> bool option \<Rightarrow> string list \<Rightarrow> string list \<Rightarrow> ('w, bool option) act" where
  "ptr_loop upd res popped (p # q # parts) =
     (let popped = popped @ [p]; parts = q # parts;
          zone = join ''.'' parts @ ''.'' @ ''in-addr.arpa.'';
          name = join ''.'' popped
      in abind (upd zone name) (\<lambda>ptr.
         if ptr = Some True then areturn (Some True) else ptr_loop upd res popped parts))"
| "ptr_loop upd res popped parts = areturn res"

definition add_host ::
  "('w, 'd) dnspy \<Rightarrow> string \<Rightarrow> string \<Rightarrow> int \<Rightarrow> string \<Rightarrow> string \<Rightarrow> bool \<Rightarrow> int \<Rightarrow> int \<Rightarrow> kwargs
     \<Rightarrow> ('w, bool option) act" where
  "add_host E zone name ttl ip nameserver replace timeout port kwargs =
     abind (host_update E zone name ttl ''A'' ip nameserver timeout replace port kwargs) (\<lambda>res.
     if res = Some False then areturn (Some False) else
     let fqdn = name @ ''.'' @ zone @ ''.'' in
     ptr_loop (\<lambda>zone name. host_update E zone name ttl ''PTR'' fqdn nameserver timeout replace port kwargs)
       res [] (rev (split_on CHR ''.'' ip)))"

text \<open>The inner loop of \<open>delete_host\<close>; \<open>ptr\<close> is \<open>None\<close> while the variable is unbound.\<close>

fun delete_ptrs ::
  "(string \<Rightarrow> string \<Rightarrow> ('w, bool option) act) \<Rightarrow> bool option option \<Rightarrow> string list \<Rightarrow> string list
     \<Rightarrow> ('w, bool option option) act" where
  "delete_ptrs del ptr popped (p # q # parts) =
     (let popped = popped @ [p]; parts = q # parts;
          zone = join ''.'' parts @ ''.'' @ ''in-addr.arpa.'';
          name = join ''.'' popped
      in abind (del zone name) (\<lambda>ptr. delete_ptrs del (Some ptr) popped parts))"
| "delete_ptrs del ptr popped parts = areturn ptr"

fun delete_ips ::
  "(string \<Rightarrow> string \<Rightarrow> ('w, bool option) act) \<Rightarrow> bool option option \<Rightarrow> bool option \<Rightarrow> string list
     \<Rightarrow> ('w, bool option) act" where
  "delete_ips del ptr res [] = areturn res"
| "delete_ips del ptr res (ip # ips) =
     abind (delete_ptrs del ptr [] (rev (split_on CHR ''.'' ip))) (\<lambda>ptr.
     case ptr of
       None \<Rightarrow> araise (UnboundLocalError ''ptr'')
     | Some t \<Rightarrow> delete_ips del ptr (if t = Some True then Some True else res) ips)"

definition delete_host ::
  "('w, 'd) dnspy \<Rightarrow> string \<Rightarrow> string \<Rightarrow> string \<Rightarrow> int \<Rightarrow> int \<Rightarrow> kwargs \<Rightarrow> ('w, bool option) act" where
  "delete_host E zone name nameserver timeout port kwargs =
     (let fqdn = name @ ''.'' @ zone in
      abind (udp E (Query fqdn ''A'') nameserver timeout port) (\<lambda>answer.
      abind (alift (case an_answer answer of [] \<Rightarrow> Inr [] | rr # _ \<Rightarrow> rmap (rd_address E) (rr_items rr))) (\<lambda>ips.
      abind (delete E zone name (get_default (dict_get kwargs ''rdtype'') None)
               (get_default (dict_get kwargs ''data'') None) nameserver timeout port kwargs) (\<lambda>res.
      delete_ips (\<lambda>zone name.
          if list_ex (dict_has kwargs) [''rdtype'', ''data'']
          then araise (TypeError ''delete() got multiple values for argument'')
          else delete E zone name (Some ''PTR'') (Some (fqdn @ ''.'')) nameserver timeout port kwargs)
        None res ips))))"

end
