(* ===== verification/Ddns_State.thy ===== *)
theory Ddns_State
  imports Ddns
begin

text \<open>
  The state \<open>_states/ddns.py\<close> on top of \<open>Ddns\<close>, the contract of a name server that takes RFC 2136
  updates, and the properties of both modules.
\<close>

section \<open>The state functions\<close>

text \<open>\<open>salt\<close> lists the loaded execution functions.\<close>

definition ddns_state_virtual :: "string list \<Rightarrow> loader_ret" where
  "ddns_state_virtual salt =
     (if ''ddns.update'' \<in> set salt then Loaded ''ddns''
      else Unavailable ''ddns state module could not be loaded: ddns module unavailable'')"

text \<open>The keyword arguments of a state: those that the execution module declares, and the rest.\<close>

record ddns_kw =
  kw_nameserver :: "string option"
  kw_timeout :: "int option"
  kw_replace :: "bool option"
  kw_replace_on_change :: "bool option"
  kw_port :: "int option"
  kw_rest :: kwargs

datatype chg = CStr string | CInt int | CDict "(string \<times> string) list"

record ddns_ret =
  dr_name :: string
  dr_changes :: "(string, chg) dict"
  dr_result :: "bool option"
  dr_comment :: string

definition show_opt :: "string option \<Rightarrow> string" where
  "show_opt v = (case v of None \<Rightarrow> ''None'' | Some s \<Rightarrow> s)"

definition kw_ns :: "ddns_kw \<Rightarrow> string" where
  "kw_ns kw = get_default (kw_nameserver kw) ''127.0.0.1''"

definition kw_pt :: "ddns_kw \<Rightarrow> int" where
  "kw_pt kw = get_default (kw_port kw) 53"

text \<open>The dictionary \<open>ret\<close> that the states start from, and what they make of the status of the call.\<close>

definition ret0 :: "string \<Rightarrow> ddns_ret" where
  "ret0 name = \<lparr>dr_name = name, dr_changes = [], dr_result = Some False, dr_comment = []\<rparr>"

definition present_ret :: "string \<Rightarrow> string \<Rightarrow> int \<Rightarrow> string \<Rightarrow> string \<Rightarrow> bool option \<Rightarrow> ddns_ret" where
  "present_ret name zone ttl data rdtype status =
     (case status of
        None \<Rightarrow> (ret0 name)\<lparr>dr_result := Some True,
          dr_comment := rdtype @ '' record '' @ [DQUOTE] @ name @ [DQUOTE] @
            '' already present with ttl of '' @ show_int ttl\<rparr>
      | Some True \<Rightarrow> (ret0 name)\<lparr>dr_result := Some True,
          dr_comment := ''Updated '' @ rdtype @ '' record for '' @ [DQUOTE] @ name @ [DQUOTE],
          dr_changes := [(''name'', CStr name), (''zone'', CStr zone), (''ttl'', CInt ttl),
            (''rdtype'', CStr rdtype), (''data'', CStr data)]\<rparr>
      | Some False \<Rightarrow> (ret0 name)\<lparr>dr_comment :=
          ''Failed to create or update '' @ rdtype @ '' record for '' @ [DQUOTE] @ name @ [DQUOTE]\<rparr>)"

definition present ::
  "('w, 'd) dnspy \<Rightarrow> bool \<Rightarrow> string \<Rightarrow> string \<Rightarrow> int \<Rightarrow> string \<Rightarrow> string \<Rightarrow> ddns_kw \<Rightarrow> ('w, ddns_ret) act" where
  "present E test name zone ttl data rdtype kw =
     (if test then areturn ((ret0 name)\<lparr>dr_result := None,
        dr_comment := rdtype @ '' record '' @ [DQUOTE] @ name @ [DQUOTE] @ '' will be updated''\<rparr>)
      else abind (update E zone name ttl rdtype data (kw_ns kw) (get_default (kw_timeout kw) 5)
               (get_default (kw_replace kw) False) (get_default (kw_replace_on_change kw) False)
               (kw_pt kw) (kw_rest kw))
             (\<lambda>status. areturn (present_ret name zone ttl data rdtype status)))"

definition absent_ret :: "string \<Rightarrow> string \<Rightarrow> bool option \<Rightarrow> ddns_ret" where
  "absent_ret name zone status =
     (case status of
        None \<Rightarrow> (ret0 name)\<lparr>dr_result := Some True, dr_comment := ''No matching DNS record(s) present''\<rparr>
      | Some True \<Rightarrow> (ret0 name)\<lparr>dr_result := Some True, dr_comment := ''Deleted DNS record(s)'',
          dr_changes := [(''Deleted'', CDict [(''name'', name), (''zone'', zone)])]\<rparr>
      | Some False \<Rightarrow> (ret0 name)\<lparr>dr_comment := ''Failed to delete DNS record(s)''\<rparr>)"

definition absent ::
  "('w, 'd) dnspy \<Rightarrow> bool \<Rightarrow> string \<Rightarrow> string \<Rightarrow> string option \<Rightarrow> string option \<Rightarrow> ddns_kw \<Rightarrow> ('w, ddns_ret) act" where
  "absent E test name zone data rdtype kw =
     (if test then areturn ((ret0 name)\<lparr>dr_result := None,
        dr_comment := show_opt rdtype @ '' record '' @ [DQUOTE] @ name @ [DQUOTE] @ '' will be deleted''\<rparr>)
      else abind (delete E zone name rdtype data (kw_ns kw) (get_default (kw_timeout kw) 5)
               (kw_pt kw) (kw_rest kw))
             (\<lambda>status. areturn (absent_ret name zone status)))"



section \<open>Name servers\<close>

text \<open>
  Names are compared without regard to case, and a name without a trailing dot is taken relative to
  the root. The records of a server are a map from a name and a type to an RRset. What RFC 2136
  (section 3.4.2) says of an update: a record is not added beside a CNAME of its name, nor a CNAME
  beside another record; an added CNAME replaces the one there is; at the apex of the zone the SOA and
  NS records are not deleted, and the last NS record is kept. \<open>replace\<close> deletes the RRset and adds.
  An RRset has one TTL, that of the record added last.
\<close>

definition canon :: "string \<Rightarrow> string" where
  "canon f = map to_lower (if endswith f ''.'' then f else f @ ''.'')"

type_synonym 'd zview = "string \<times> string \<Rightarrow> 'd rrset option"

definition beside_others :: "'d zview \<Rightarrow> string \<Rightarrow> bool" where
  "beside_others v k \<longleftrightarrow> (\<exists>u. u \<noteq> ''CNAME'' \<and> v (k, u) \<noteq> None)"

declare beside_others_def [code del]

definition blocked :: "'d zview \<Rightarrow> string \<Rightarrow> string \<Rightarrow> bool" where
  "blocked v k t \<longleftrightarrow> (if t = ''CNAME'' then beside_others v k else v (k, ''CNAME'') \<noteq> None)"

definition protected :: "string \<Rightarrow> string \<Rightarrow> string \<Rightarrow> bool" where
  "protected z k t \<longleftrightarrow> k = canon z \<and> (t = ''SOA'' \<or> t = ''NS'')"

definition put_rr :: "string \<Rightarrow> string \<Rightarrow> int \<Rightarrow> 'd \<Rightarrow> 'd zview \<Rightarrow> 'd zview" where
  "put_rr k t ttl d v =
     (if blocked v k t then v
      else v((k, t) \<mapsto> \<lparr>rr_ttl = ttl, rr_items =
        (case v (k, t) of
           None \<Rightarrow> [d]
         | Some rr \<Rightarrow> if t = ''CNAME'' then [d]
             else if d \<in> set (rr_items rr) then rr_items rr else rr_items rr @ [d])\<rparr>))"

definition drop_rrset :: "string \<Rightarrow> string \<Rightarrow> string \<Rightarrow> 'd zview \<Rightarrow> 'd zview" where
  "drop_rrset z k t v = (if protected z k t then v else v((k, t) := None))"

definition drop_rr :: "string \<Rightarrow> string \<Rightarrow> string \<Rightarrow> 'd \<Rightarrow> 'd zview \<Rightarrow> 'd zview" where
  "drop_rr z k t d v =
     (case v (k, t) of
        None \<Rightarrow> v
      | Some rr \<Rightarrow>
          let items = removeAll d (rr_items rr) in
          if items = [] then drop_rrset z k t v else v((k, t) \<mapsto> rr\<lparr>rr_items := items\<rparr>))"

fun apply_change :: "('d \<Rightarrow> string) \<Rightarrow> string \<Rightarrow> 'd zchange \<Rightarrow> 'd zview \<Rightarrow> 'd zview" where
  "apply_change ty z (Replace n ttl d) v =
     (let k = canon (fqdn_of n z) in put_rr k (ty d) ttl d (drop_rrset z k (ty d) v))"
| "apply_change ty z (Add n ttl d) v = put_rr (canon (fqdn_of n z)) (ty d) ttl d v"
| "apply_change ty z (DelRdata n d) v = drop_rr z (canon (fqdn_of n z)) (ty d) d v"
| "apply_change ty z (DelType n t) v = drop_rrset z (canon (fqdn_of n z)) t v"
| "apply_change ty z (DelName n) v =
     (\<lambda>(m, t). if m = canon (fqdn_of n z) \<and> \<not> protected z m t then None else v (m, t))"

text \<open>
  The changes the contract speaks of. \<open>dnspython\<close> reads the name \<open>@\<close> of an update as the apex of the
  zone, while \<open>update\<close> and \<open>delete\<close> ask for the name \<open>@\<close> below it; an added SOA or WKS record follows
  rules of its own.
\<close>

fun plain_change :: "('d \<Rightarrow> string) \<Rightarrow> 'd zchange \<Rightarrow> bool" where
  "plain_change ty (Replace n ttl d) \<longleftrightarrow> n \<noteq> ''@'' \<and> ty d \<notin> {''SOA'', ''WKS''}"
| "plain_change ty (Add n ttl d) \<longleftrightarrow> n \<noteq> ''@'' \<and> ty d \<notin> {''SOA'', ''WKS''}"
| "plain_change ty (DelRdata n d) \<longleftrightarrow> n \<noteq> ''@''"
| "plain_change ty (DelType n t) \<longleftrightarrow> n \<noteq> ''@''"
| "plain_change ty (DelName n) \<longleftrightarrow> n \<noteq> ''@''"

text \<open>
  The answer to a query: the RRset asked for; at a name with a CNAME the CNAME and what the server
  follows it to; nothing if the name has neither. For \<open>ANY\<close> some RRset, if the name has one.
\<close>

definition answers :: "'d zview \<Rightarrow> string \<Rightarrow> string \<Rightarrow> 'd rrset list \<Rightarrow> bool" where
  "answers v k u ans \<longleftrightarrow>
     (if u = ''ANY'' then ans = [] \<longleftrightarrow> (\<forall>x. v (k, x) = None)
      else case v (k, u) of
        Some rr \<Rightarrow> ans = [rr]
      | None \<Rightarrow> (case v (k, ''CNAME'') of None \<Rightarrow> ans = [] | Some c \<Rightarrow> \<exists>more. ans = c # more))"

text \<open>
  The servers considered answer every query they answer with NOERROR or NXDOMAIN, from the records of
  their zones, which have no wildcards, delegations or DNAME records and take no updates that would
  add one. An update with a return code above zero changes nothing.
\<close>

definition query_ok :: "('w, 'd) dnspy \<Rightarrow> string \<Rightarrow> int \<Rightarrow> ('w \<Rightarrow> 'd zview) \<Rightarrow> bool" where
  "query_ok E ns port view \<longleftrightarrow>
     (\<forall>f t to w a w'. udp E (Query f t) ns to port w = (Inr a, w') \<longrightarrow>
        view w' = view w \<and> (an_rcode a = 0 \<or> an_rcode a = 3) \<and>
        (\<forall>u. rdatatype_from_text E t = Inr u \<longrightarrow> answers (view w) (canon f) u (an_answer a)))"

definition update_ok :: "('w, 'd) dnspy \<Rightarrow> string \<Rightarrow> int \<Rightarrow> ('d \<Rightarrow> string) \<Rightarrow> ('w \<Rightarrow> 'd zview) \<Rightarrow> bool" where
  "update_ok E ns port ty view \<longleftrightarrow>
     (\<forall>z k c to w a w'. udp E (Update z k c) ns to port w = (Inr a, w') \<and> plain_change ty c \<longrightarrow>
        view w' = (if an_rcode a > 0 then view w else apply_change ty z c (view w)))"

definition dns_server :: "('w, 'd) dnspy \<Rightarrow> string \<Rightarrow> int \<Rightarrow> ('d \<Rightarrow> string) \<Rightarrow> ('w \<Rightarrow> 'd zview) \<Rightarrow> bool" where
  "dns_server E ns port ty view \<longleftrightarrow>
     query_ok E ns port view \<and> update_ok E ns port ty view \<and>
     rdatatype_from_text E ''ANY'' = Inr ''ANY'' \<and>
     (\<forall>t x d. rdata_from_text E t x = Inr d \<longrightarrow> ty d = t)"


lemma query_okD:
  assumes "query_ok E ns port view" and "udp E (Query f t) ns to port w = (Inr a, w')"
  shows "view w' = view w"
    and "rdatatype_from_text E t = Inr u \<Longrightarrow> answers (view w) (canon f) u (an_answer a)"
  using assms unfolding query_ok_def by blast+


lemma drop_rrset_other: "(m, u) \<noteq> (k, t) \<Longrightarrow> drop_rrset z k t v (m, u) = v (m, u)"
  by (auto simp: drop_rrset_def)


lemma blocked_other: "(\<And>u. u \<noteq> t \<Longrightarrow> v' (k, u) = v (k, u)) \<Longrightarrow> blocked v' k t = blocked v k t"
  by (auto simp: blocked_def beside_others_def)

lemma blocked_drop [simp]: "blocked (drop_rrset z k t v) k t = blocked v k t"
  by (rule blocked_other) (simp add: drop_rrset_other)




lemma send_update_ok:
  assumes "update_ok E ns port ty view"
    and "send_update E (Update z k c) ns to port w = (Inr r, w')"
  shows "\<exists>b. r = Some b \<and> (plain_change ty c \<longrightarrow> view w' = (if b then apply_change ty z c (view w) else view w))"
proof -
  from assms(2) obtain a where sent: "udp E (Update z k c) ns to port w = (Inr a, w')"
    and r: "r = Some (\<not> an_rcode a > 0)"
    by (auto simp: send_update_def abind_eq_Inr areturn_def)
  have "plain_change ty c \<Longrightarrow> view w' = (if an_rcode a > 0 then view w else apply_change ty z c (view w))"
    using assms(1) sent unfolding update_ok_def by blast
  with r show ?thesis by simp
qed

text \<open>What \<open>update\<close> did, when it returns: the change it chose was taken by the server, or refused.\<close>

lemma update_cases:
  assumes srv: "dns_server E ns port ty view"
    and t: "rdatatype_from_text E rdtype = Inr t" and d: "rdata_from_text E t data = Inr d"
    and upd: "update E zone name ttl rdtype data ns to rep roc port kws w = (Inr r, w')"
  obtains (kept) ans where "r = None" "view w' = view w"
      "answers (view w) (canon (fqdn_of name zone)) t ans"
      "choose_change rep roc name ttl d ans = None"
  | (sent) b c ans where "r = Some b"
      "plain_change ty c \<longrightarrow> view w' = (if b then apply_change ty zone c (view w) else view w)"
      "answers (view w) (canon (fqdn_of name zone)) t ans"
      "choose_change rep roc name ttl d ans = Some c"
proof -
  from srv have q: "query_ok E ns port view" and u: "update_ok E ns port ty view"
    by (auto simp: dns_server_def)
  from upd obtain a w1 where ask: "udp E (Query (fqdn_of name zone) rdtype) ns to port w = (Inr a, w1)"
    and rest: "abind (alift (tsig_keys E kws)) (\<lambda>keys.
       case choose_change rep roc name ttl d (an_answer a) of
         None \<Rightarrow> areturn None
       | Some change \<Rightarrow> send_update E (Update zone keys change) ns to port) w1 = (Inr r, w')"
    by (auto simp: update_def abind_eq_Inr alift_def t d)
  note ans = query_okD(2) [OF q ask t]
  have same: "view w1 = view w" by (rule query_okD(1) [OF q ask])
  show thesis
  proof (cases "choose_change rep roc name ttl d (an_answer a)")
    case None
    then show thesis using rest ans same by (intro kept) (auto simp: abind_eq_Inr alift_def areturn_def)
  next
    case (Some c)
    then obtain keys where "send_update E (Update zone keys c) ns to port w1 = (Inr r, w')"
      using rest by (auto simp: abind_eq_Inr alift_def)
    from send_update_ok [OF u this] Some ans same show thesis by (auto intro: sent)
  qed
qed












text \<open>The reverse zones that \<open>add_host\<close> tries, from the longest one to the shortest.\<close>

definition ptr_candidates :: "string \<Rightarrow> (string \<times> string) list" where
  "ptr_candidates ip =
     (let parts = rev (split_on CHR ''.'' ip) in
      map (\<lambda>k. (join ''.'' (drop k parts) @ ''.in-addr.arpa.'', join ''.'' (take k parts))) [1..<length parts])"

fun try_all :: "('a \<Rightarrow> ('w, bool option) act) \<Rightarrow> bool option \<Rightarrow> 'a list \<Rightarrow> ('w, bool option) act" where
  "try_all upd res [] = areturn res"
| "try_all upd res (x # xs) =
     abind (upd x) (\<lambda>p. if p = Some True then areturn (Some True) else try_all upd res xs)"

lemma ptr_loop_try_all:
  "ptr_loop upd res popped parts = try_all (\<lambda>(z, n). upd z n) res
     (map (\<lambda>k. (join ''.'' (drop k parts) @ ''.in-addr.arpa.'', join ''.'' (popped @ take k parts))) [1..<length parts])"
proof (induction upd res popped parts rule: ptr_loop.induct)
  case (1 upd res popped p q parts)
  have ks: "[1..<length (p # q # parts)] = 1 # map Suc [1..<length (q # parts)]"
    unfolding map_Suc_upt by (subst upt_rec) simp
  have IH: "ptr_loop upd res (popped @ [p]) (q # parts) = try_all (\<lambda>(z, n). upd z n) res
     (map (\<lambda>k. (join ''.'' (drop k (q # parts)) @ ''.in-addr.arpa.'',
        join ''.'' ((popped @ [p]) @ take k (q # parts)))) [1..<length (q # parts)])"
    by (rule "1.IH" [OF refl refl refl refl, of None]) simp
  show ?case
    unfolding ks by (simp add: IH Let_def o_def del: upt.simps list.size cong: if_cong)
qed simp_all

lemma join_append:
  "xs \<noteq> [] \<Longrightarrow> ys \<noteq> [] \<Longrightarrow> join sep (xs @ ys) = join sep xs @ sep @ join sep ys"
proof (induction sep xs rule: join.induct)
  case (2 sep x)
  then show ?case by (cases ys) simp_all
qed simp_all


lemma ptr_candidates_name:
  "map (\<lambda>(z, n). n @ ''.'' @ z) (ptr_candidates ip) =
     replicate (length (split_on CHR ''.'' ip) - 1) (join ''.'' (rev (split_on CHR ''.'' ip)) @ ''.in-addr.arpa.'')"
proof -
  let ?ps = "rev (split_on CHR ''.'' ip)"
  have "join ''.'' (take k ?ps) @ ''.'' @ join ''.'' (drop k ?ps) = join ''.'' ?ps" if "k \<in> set [1..<length ?ps]" for k
    using join_append [of "take k ?ps" "drop k ?ps" "''.''"] that by auto
  then have "map (\<lambda>(z, n). n @ ''.'' @ z) (ptr_candidates ip) =
      map (\<lambda>k. join ''.'' ?ps @ ''.in-addr.arpa.'') [1..<length ?ps]"
    unfolding ptr_candidates_def Let_def by (auto simp del: upt.simps)
  then show ?thesis by (simp add: map_replicate_const)
qed

lemma ptr_loop_candidates:
  "ptr_loop upd res [] (rev (split_on CHR ''.'' ip)) = try_all (\<lambda>(z, n). upd z n) res (ptr_candidates ip)"
  unfolding ptr_loop_try_all ptr_candidates_def Let_def append_Nil ..

text \<open>The part of the environment that does not send is the same for every way of sending.\<close>

lemma environment_udp [simp]:
  "ddns_config (E\<lparr>udp := u\<rparr>) = ddns_config E"
  "get_keyring (E\<lparr>udp := u\<rparr>) = get_keyring E"
  by (simp_all add: fun_eq_iff ddns_config_def get_keyring_def split: option.split)

lemma tsig_keys_udp: "tsig_keys (E\<lparr>udp := u\<rparr>) = tsig_keys E"
  by (simp add: fun_eq_iff tsig_keys_def)

lemma send_update_53:
  "send_update (E\<lparr>udp := (\<lambda>m ns to q. udp E m ns to 53)\<rparr>) msg ns to 53 = send_update E msg ns to 53"
  by (simp add: send_update_def)

lemma host_update_port_53:
  "host_update (E\<lparr>udp := (\<lambda>m ns to q. udp E m ns to 53)\<rparr>) zone name ttl t data ns to rep p kws =
   host_update E zone name ttl t data ns to rep p kws"
  unfolding host_update_def update_def tsig_keys_udp send_update_53 by simp

lemma host_update_port:
  assumes "p \<noteq> 0" and "p' \<noteq> 0"
  shows "host_update E zone name ttl t data ns to rep p kws = host_update E zone name ttl t data ns to rep p' kws"
  using assms by (simp add: host_update_def)



section \<open>A reference server\<close>

text \<open>
  A server whose state is the map itself; data is a type and a text. It refuses to add a CNAME, does
  not answer \<open>ANY\<close>, and follows no CNAME.
\<close>

fun adds_cname :: "(string \<times> string) zchange \<Rightarrow> bool" where
  "adds_cname (Replace n ttl d) \<longleftrightarrow> fst d = ''CNAME''"
| "adds_cname (Add n ttl d) \<longleftrightarrow> fst d = ''CNAME''"
| "adds_cname c \<longleftrightarrow> False"

definition ref_udp :: "(string \<times> string) dns_msg \<Rightarrow> (string \<times> string) zview \<Rightarrow> (string \<times> string) dns_answer res \<times> (string \<times> string) zview" where
  "ref_udp m w = (case m of
     Query f t \<Rightarrow> if t = ''ANY'' then (Inl (OSError ''refused''), w)
       else (Inr \<lparr>an_answer =
           (case w (canon f, t) of
              Some rr \<Rightarrow> [rr]
            | None \<Rightarrow> (case w (canon f, ''CNAME'') of None \<Rightarrow> [] | Some c \<Rightarrow> [c])), an_rcode = 0\<rparr>, w)
   | Update z k c \<Rightarrow>
       if adds_cname c then (Inr \<lparr>an_answer = [], an_rcode = 5\<rparr>, w)
       else (Inr \<lparr>an_answer = [], an_rcode = 0\<rparr>, apply_change fst z c w))"

definition ref_dns :: "((string \<times> string) zview, string \<times> string) dnspy" where
  "ref_dns = \<lparr>udp = (\<lambda>m ns to p. ref_udp m), rdatatype_from_text = Inr,
     rdata_from_text = (\<lambda>t x. Inr (t, x)), rd_address = (\<lambda>d. Inr (snd d)),
     tsig_from_file = (\<lambda>f. Inr []), config_option = (\<lambda>k. None)\<rparr>"

definition no_kw :: ddns_kw where
  "no_kw = \<lparr>kw_nameserver = None, kw_timeout = None, kw_replace = None, kw_replace_on_change = None,
     kw_port = None, kw_rest = []\<rparr>"

lemma ref_dns_server: "dns_server ref_dns ns port fst (\<lambda>w. w)"
  by (auto simp: dns_server_def query_ok_def update_ok_def answers_def ref_dns_def ref_udp_def split: option.split)

section \<open>Properties\<close>



text \<open>
  The exception is a real one: a server ignores a record added beside a CNAME and answers the update
  without an error, and \<open>present\<close> reports the record as updated, although there is none.
\<close>

definition cname_zone :: "(string \<times> string) zview" where
  "cname_zone = [(canon ''www.ffmuc.net'', ''CNAME'') \<mapsto> \<lparr>rr_ttl = 60, rr_items = [(''CNAME'', ''ffmuc.net.'')]\<rparr>]"

lemma present_beside_cname:
  "case present ref_dns False ''www'' ''ffmuc.net'' 60 ''10.0.0.1'' ''A'' no_kw cname_zone of
     (Inr ret, v) \<Rightarrow> dr_result ret = Some True \<and> dr_changes ret \<noteq> [] \<and> v (canon ''www.ffmuc.net'', ''A'') = None
   | (Inl e, v) \<Rightarrow> False"
  by code_simp



text \<open>
  A query at a name with a CNAME is answered by the CNAME, so \<open>absent\<close> asks to delete a type that is
  not there and reports a deletion, on every run.
\<close>

lemma absent_beside_cname:
  "case absent ref_dns False ''www'' ''ffmuc.net'' None (Some ''A'') no_kw cname_zone of
     (Inr ret, v) \<Rightarrow> dr_result ret = Some True \<and> dr_changes ret \<noteq> [] \<and>
       v (canon ''www.ffmuc.net'', ''CNAME'') = cname_zone (canon ''www.ffmuc.net'', ''CNAME'')
   | (Inl e, v) \<Rightarrow> False"
  by code_simp

text \<open>
  C13. The reverse record. \<open>add_host\<close> sends the forward update and, unless it was refused, tries the
  reverse zones of the address from the longest to the shortest until one accepts; each attempt names
  the same host, the reversed address under \<open>in-addr.arpa.\<close>.
\<close>

theorem add_host_tries_reverse_zones:
  "add_host E zone name ttl ip ns rep to port kws =
     abind (host_update E zone name ttl ''A'' ip ns to rep port kws) (\<lambda>res.
       if res = Some False then areturn (Some False)
       else try_all (\<lambda>(z, n). host_update E z n ttl ''PTR'' (name @ ''.'' @ zone @ ''.'') ns to rep port kws)
              res (ptr_candidates ip)) \<and>
   map (\<lambda>(z, n). n @ ''.'' @ z) (ptr_candidates ip) =
     replicate (length (split_on CHR ''.'' ip) - 1) (join ''.'' (rev (split_on CHR ''.'' ip)) @ ''.in-addr.arpa.'')"
  by (rule conjI [OF _ ptr_candidates_name]) (simp only: add_host_def ptr_loop_candidates Let_def)

text \<open>
  \<open>add_host\<close> does not use its port: every message goes to port 53, and any two ports other than
  zero give the same run, because the argument lands in the place of \<open>replace_on_change\<close>.
\<close>

theorem add_host_ignores_port:
  assumes "p \<noteq> 0" and "p' \<noteq> 0"
  shows "add_host E zone name ttl ip ns rep to p kws = add_host E zone name ttl ip ns rep to p' kws \<and>
    add_host (E\<lparr>udp := (\<lambda>m ns to q. udp E m ns to 53)\<rparr>) zone name ttl ip ns rep to p kws =
      add_host E zone name ttl ip ns rep to p kws"
  unfolding add_host_def host_update_port_53 host_update_port [OF assms] by simp

theorem add_host_ignores_port_witness:
  "add_host ref_dns ''ffmuc.net'' ''www'' 60 ''10.0.0.1'' ''10.0.0.53'' True 5 5353 [] =
   add_host ref_dns ''ffmuc.net'' ''www'' 60 ''10.0.0.1'' ''10.0.0.53'' True 5 53 []"
  by (rule conjunct1 [OF add_host_ignores_port]) simp_all

text \<open>
  C15. \<open>replace_on_change\<close> looks at the number of RRsets, not of records: when the RRset of the name
  holds the wanted data with the wanted TTL, \<open>update\<close> reports that there is nothing to do and leaves
  the zone alone, however many other records the RRset has.
\<close>

theorem replace_on_change_keeps_others:
  assumes "dns_server E ns port ty view"
    and "rdatatype_from_text E rdtype = Inr t" and "t \<noteq> ''ANY''" and "rdata_from_text E t data = Inr d"
    and "view w (canon (fqdn_of name zone), t) = Some rr" and "d \<in> set (rr_items rr)" and "rr_ttl rr = ttl"
    and "update E zone name ttl rdtype data ns to False True port kws w = (Inr r, w')"
  shows "r = None \<and> view w' (canon (fqdn_of name zone), t) = Some rr"
  using assms(1,2,4,8)
proof (cases rule: update_cases)
  case (kept ans)
  then show ?thesis using assms(5) by simp
next
  case (sent b c ans)
  then have "ans = [rr]" using assms(3,5) by (simp add: answers_def)
  with sent(4) show ?thesis using assms(6,7) by (simp add: choose_change_def wants_replace_def rr_exists_def)
qed

theorem replace_on_change_keeps_others_witness:
  "snd (update ref_dns ''ffmuc.net'' ''www'' 60 ''A'' ''10.0.0.1'' ''127.0.0.1'' 5 False True 53 []
      [(canon ''www.ffmuc.net'', ''A'') \<mapsto> \<lparr>rr_ttl = 60, rr_items = [(''A'', ''10.0.0.1''), (''A'', ''10.0.0.66'')]\<rparr>])
    (canon (fqdn_of ''www'' ''ffmuc.net''), ''A'') = Some \<lparr>rr_ttl = 60, rr_items = [(''A'', ''10.0.0.1''), (''A'', ''10.0.0.66'')]\<rparr>"
proof -
  let ?w = "[(canon ''www.ffmuc.net'', ''A'') \<mapsto> \<lparr>rr_ttl = 60, rr_items = [(''A'', ''10.0.0.1''), (''A'', ''10.0.0.66'')]\<rparr>]"
  let ?P = "update ref_dns ''ffmuc.net'' ''www'' 60 ''A'' ''10.0.0.1'' ''127.0.0.1'' 5 False True 53 [] ?w"
  have "\<not> isl (fst ?P)" by code_simp
  then have run: "?P = (Inr (projr (fst ?P)), snd ?P)" by (simp add: prod_eq_iff)
  have "?w (canon (fqdn_of ''www'' ''ffmuc.net''), ''A'') =
      Some \<lparr>rr_ttl = 60, rr_items = [(''A'', ''10.0.0.1''), (''A'', ''10.0.0.66'')]\<rparr>" by code_simp
  from replace_on_change_keeps_others [OF ref_dns_server _ _ _ this _ _ run]
  show ?thesis by (simp add: ref_dns_def)
qed

text \<open>
  \<open>delete_host\<close> reports the deletion of a PTR record only when it happened in the shortest reverse
  zone, the last one tried: on a server whose forward record is refused for deletion and whose PTR
  record lives in a longer zone, the PTR record is deleted and the result is \<open>False\<close>, although the
  documentation promises true if any records are deleted.
\<close>

definition ref_refuse :: "((string \<times> string) zview, string \<times> string) dnspy" where
  "ref_refuse = ref_dns\<lparr>udp := (\<lambda>m ns to p w.
     case m of
       Query f t \<Rightarrow> ref_udp (Query f (if t = ''ANY'' then ''A'' else t)) w
     | Update z k c \<Rightarrow> if z = ''0.0.10.in-addr.arpa.'' then ref_udp m w
         else (Inr \<lparr>an_answer = [], an_rcode = 5\<rparr>, w))\<rparr>"

theorem delete_host_misreports:
  "let w = [(canon ''www.ffmuc.net'', ''A'') \<mapsto> \<lparr>rr_ttl = 60, rr_items = [(''A'', ''10.0.0.1'')]\<rparr>,
            (canon ''1.0.0.10.in-addr.arpa.'', ''PTR'') \<mapsto> \<lparr>rr_ttl = 60, rr_items = [(''PTR'', ''www.ffmuc.net.'')]\<rparr>];
       run = delete_host ref_refuse ''ffmuc.net'' ''www'' ''127.0.0.1'' 5 53 [] w
   in fst run = Inr (Some False) \<and> snd run (canon ''1.0.0.10.in-addr.arpa.'', ''PTR'') = None"
  by code_simp

end
