(* ===== verification/PyJson.thy ===== *)
theory PyJson
  imports PyStr Complex_Main
begin

text \<open>
  Decoded JSON as Python holds it, and the operations the modules use on it: subscripts, item
  assignment, membership, iteration, length and truth value, each with the exception it raises on a
  value of another type. Keys are values again, because a module may use any decoded scalar as a key.
  Values are trees: decoding makes fresh objects, and no module stores one object in two places
  that it changes.
\<close>

datatype json =
    JNull
  | JBool bool
  | JInt int
  | JFloat rat
  | JStr string
  | JList "json list"
  | JDict "(json \<times> json) list"

fun jtruth :: "json \<Rightarrow> bool" where
  "jtruth JNull = False"
| "jtruth (JBool b) = b"
| "jtruth (JInt i) = (i \<noteq> 0)"
| "jtruth (JFloat q) = (q \<noteq> 0)"
| "jtruth (JStr s) = (s \<noteq> [])"
| "jtruth (JList xs) = (xs \<noteq> [])"
| "jtruth (JDict d) = (d \<noteq> [])"

fun type_name :: "json \<Rightarrow> string" where
  "type_name JNull = ''NoneType''"
| "type_name (JBool b) = ''bool''"
| "type_name (JInt i) = ''int''"
| "type_name (JFloat q) = ''float''"
| "type_name (JStr s) = ''str''"
| "type_name (JList xs) = ''list''"
| "type_name (JDict d) = ''dict''"

definition type_error :: "string \<Rightarrow> json \<Rightarrow> 'a res" where
  "type_error what v = Inl (TypeError (what @ '': '' @ type_name v))"

text \<open>Lists and dictionaries cannot be keys.\<close>

fun jkey :: "json \<Rightarrow> json res" where
  "jkey (JList xs) = type_error ''unhashable type'' (JList xs)"
| "jkey (JDict d) = type_error ''unhashable type'' (JDict d)"
| "jkey v = Inr v"

text \<open>\<open>v["k"]\<close>\<close>

fun jget :: "json \<Rightarrow> string \<Rightarrow> json res" where
  "jget (JDict d) k = (case dict_get d (JStr k) of Some v \<Rightarrow> Inr v | None \<Rightarrow> Inl (KeyError k))"
| "jget v k = type_error ''bad subscript'' v"

text \<open>\<open>v["k"] = x\<close>, \<open>v[key] = x\<close> and a change of the value under a key.\<close>

fun jput :: "json \<Rightarrow> json \<Rightarrow> json \<Rightarrow> json res" where
  "jput key x (JDict d) = rbind (jkey key) (\<lambda>k. Inr (JDict (dict_set k x d)))"
| "jput key x v = type_error ''no item assignment'' v"

definition jset :: "string \<Rightarrow> json \<Rightarrow> json \<Rightarrow> json res" where
  "jset k = jput (JStr k)"

definition key_text :: "json \<Rightarrow> string" where
  "key_text k = (case k of JStr s \<Rightarrow> s | JInt i \<Rightarrow> show_int i | _ \<Rightarrow> type_name k)"

fun jat :: "json \<Rightarrow> json \<Rightarrow> json res" where
  "jat (JDict d) key = rbind (jkey key) (\<lambda>k. case dict_get d k of Some v \<Rightarrow> Inr v | None \<Rightarrow> Inl (KeyError (key_text k)))"
| "jat v key = type_error ''bad subscript'' v"

definition jchange :: "json \<Rightarrow> (json \<Rightarrow> json res) \<Rightarrow> json \<Rightarrow> json res" where
  "jchange key f v = rbind (jat v key) (\<lambda>x. rbind (f x) (\<lambda>y. jput key y v))"

text \<open>\<open>"k" in v\<close>\<close>

fun jhas :: "json \<Rightarrow> json \<Rightarrow> bool res" where
  "jhas key (JDict d) = rbind (jkey key) (\<lambda>k. Inr (dict_has d k))"
| "jhas key (JList xs) = Inr (key \<in> set xs)"
| "jhas key (JStr s) = (case key of JStr t \<Rightarrow> Inr (str_contains t s) | _ \<Rightarrow> type_error ''not a string'' key)"
| "jhas key v = type_error ''not a container'' v"

definition jin :: "string \<Rightarrow> json \<Rightarrow> bool res" where
  "jin k = jhas (JStr k)"

text \<open>\<open>for x in v\<close>\<close>

fun jiter :: "json \<Rightarrow> json list res" where
  "jiter (JList xs) = Inr xs"
| "jiter (JDict d) = Inr (dict_keys d)"
| "jiter (JStr s) = Inr (map (\<lambda>c. JStr [c]) s)"
| "jiter v = type_error ''not iterable'' v"

fun jlen :: "json \<Rightarrow> nat res" where
  "jlen (JList xs) = Inr (length xs)"
| "jlen (JDict d) = Inr (length d)"
| "jlen (JStr s) = Inr (length s)"
| "jlen v = type_error ''no length'' v"

text \<open>\<open>v[0]\<close>\<close>

fun jhead :: "json \<Rightarrow> json res" where
  "jhead (JList xs) = (case xs of [] \<Rightarrow> Inl IndexError | x # _ \<Rightarrow> Inr x)"
| "jhead (JStr s) = (case s of [] \<Rightarrow> Inl IndexError | c # _ \<Rightarrow> Inr (JStr [c]))"
| "jhead (JDict d) = (case dict_get d (JInt 0) of Some v \<Rightarrow> Inr v | None \<Rightarrow> Inl (KeyError ''0''))"
| "jhead v = type_error ''bad subscript'' v"

text \<open>\<open>v.append(x)\<close> and \<open>v.get("k")\<close>: attributes that only a list and a dictionary have.\<close>

fun jappend :: "json \<Rightarrow> json \<Rightarrow> json res" where
  "jappend x (JList xs) = Inr (JList (xs @ [x]))"
| "jappend x v = Inl (AttributeError ''append'')"

fun jget_opt :: "json \<Rightarrow> string \<Rightarrow> json res" where
  "jget_opt (JDict d) k = Inr (get_default (dict_get d (JStr k)) JNull)"
| "jget_opt v k = Inl (AttributeError ''get'')"

definition jget_dflt :: "json \<Rightarrow> string \<Rightarrow> json \<Rightarrow> json res" where
  "jget_dflt v k dflt = (case v of JDict d \<Rightarrow> Inr (get_default (dict_get d (JStr k)) dflt)
     | _ \<Rightarrow> Inl (AttributeError ''get''))"

text \<open>\<open>int(v)\<close>; a float is cut towards zero.\<close>

fun jint :: "json \<Rightarrow> int res" where
  "jint (JInt i) = Inr i"
| "jint (JBool b) = Inr (if b then 1 else 0)"
| "jint (JFloat q) = Inr (if q \<ge> 0 then \<lfloor>q\<rfloor> else \<lceil>q\<rceil>)"
| "jint (JStr s) = py_int s"
| "jint v = type_error ''int() argument'' v"

text \<open>\<open>v == i\<close> for an integer: booleans and floats compare by value.\<close>

fun jeq_int :: "json \<Rightarrow> int \<Rightarrow> bool" where
  "jeq_int (JInt i) n = (i = n)"
| "jeq_int (JBool b) n = ((if b then 1 else 0) = n)"
| "jeq_int (JFloat q) n = (q = of_int n)"
| "jeq_int v n = False"

text \<open>
  \<open>str(v)\<close> as format strings use it. The text of floats, lists and dictionaries is left to the
  argument \<open>other\<close>; the programs only format names and identifiers.
\<close>

fun jstr :: "(json \<Rightarrow> string) \<Rightarrow> json \<Rightarrow> string" where
  "jstr other JNull = ''None''"
| "jstr other (JBool b) = (if b then ''True'' else ''False'')"
| "jstr other (JInt i) = show_int i"
| "jstr other (JStr s) = s"
| "jstr other v = other v"

text \<open>\<open>v.split(c)[0]\<close> of a string.\<close>

fun jsplit_head :: "char \<Rightarrow> json \<Rightarrow> string res" where
  "jsplit_head c (JStr s) = Inr (hd (split_on c s))"
| "jsplit_head c v = Inl (AttributeError ''split'')"

text \<open>A dictionary display with string keys.\<close>

definition jd :: "(string \<times> json) list \<Rightarrow> json" where
  "jd kvs = JDict (map (\<lambda>(k, v). (JStr k, v)) kvs)"

section \<open>Laws\<close>

lemma dict_value_size: "(k, v) \<in> set d \<Longrightarrow> size v < size (JDict d)"
  by (induction d) auto

definition is_dict :: "json \<Rightarrow> bool" where
  "is_dict v \<longleftrightarrow> (\<exists>d. v = JDict d)"

lemma jget_Inr: "jget v k = Inr x \<longleftrightarrow> (\<exists>d. v = JDict d \<and> dict_get d (JStr k) = Some x)"
  by (cases v) (auto simp: type_error_def split: option.splits)

lemma jat_JStr: "jat v (JStr k) = Inr x \<longleftrightarrow> jget v k = Inr x"
  by (cases v) (auto simp: type_error_def split: option.splits)

lemma jkey_Inr: "jkey v = Inr k \<longleftrightarrow> k = v \<and> (\<forall>xs. v \<noteq> JList xs) \<and> (\<forall>d. v \<noteq> JDict d)"
  by (cases v) (auto simp: type_error_def)

lemma jput_Inr:
  "jput key x v = Inr y \<longleftrightarrow> (\<exists>d. v = JDict d \<and> jkey key = Inr key \<and> y = JDict (dict_set key x d))"
  by (cases v) (auto simp: type_error_def rbind_eq_Inr jkey_Inr)

lemma jset_Inr: "jset k x v = Inr y \<longleftrightarrow> (\<exists>d. v = JDict d \<and> y = JDict (dict_set (JStr k) x d))"
  by (simp add: jset_def jput_Inr)

lemma jin_Inr: "jin k (JDict d) = Inr (dict_has d (JStr k))"
  by (simp add: jin_def)

text \<open>
  Reading back: what item assignment stores is found under its key, and other keys keep their
  value. The laws of the dictionary interface carry over.
\<close>

lemma jget_jset: "jset k x v = Inr y \<Longrightarrow> jget y k' = (if k' = k then Inr x else jget v k')"
  by (auto simp: jset_Inr pyd.get_store)

lemma jat_Inr:
  "jat v k = Inr x \<longleftrightarrow> (\<exists>d. v = JDict d \<and> jkey k = Inr k \<and> dict_get d k = Some x)"
  by (cases v) (auto simp: type_error_def rbind_eq_Inr jkey_Inr split: option.splits)

lemma jchange_Inr:
  "jchange k f v = Inr y \<longleftrightarrow> (\<exists>d x x'. v = JDict d \<and> jkey k = Inr k \<and> dict_get d k = Some x \<and>
     f x = Inr x' \<and> y = JDict (dict_set k x' d))"
  by (auto simp: jchange_def rbind_eq_Inr jat_Inr jput_Inr)

lemma jappend_Inr: "jappend x v = Inr y \<longleftrightarrow> (\<exists>xs. v = JList xs \<and> y = JList (xs @ [x]))"
  by (cases v) auto

lemma jget_jchange:
  "jchange (JStr k) f v = Inr y \<Longrightarrow> k' \<noteq> k \<Longrightarrow> jget y k' = jget v k'"
  by (auto simp: jchange_Inr pyd.get_store)

lemma jin_jchange: "jchange (JStr k) f v = Inr y \<Longrightarrow> k' \<noteq> k \<Longrightarrow> jin k' y = jin k' v"
  by (auto simp: jchange_Inr jin_Inr dict_has_def dict_get_set)

end
