(* ===== verification/PyFloat.thy ===== *)
theory PyFloat
  imports Complex_Main "HOL-Library.Log_Nat" PyStr
begin

text \<open>
  Python floats: IEEE 754 binary64 numbers, represented by the rational they stand for. An operation
  gives the exact result rounded to the nearest number with 53 significant bits, ties to even.
  Overflow to infinity and underflow to subnormal numbers are outside the range of the programs
  (percentages, times and counters) and are not modelled; neither are infinities and NaN.
\<close>

section \<open>Rounding to an integer\<close>

definition rne :: "rat \<Rightarrow> int" where
  "rne q = (let f = \<lfloor>q\<rfloor>; d = q - of_int f in
     if d < 1/2 then f else if d > 1/2 then f + 1 else if even f then f else f + 1)"

lemma rne_bounds: "\<lfloor>q\<rfloor> \<le> rne q" "rne q \<le> \<lfloor>q\<rfloor> + 1"
  by (simp_all add: rne_def Let_def)

lemma rne_of_int [simp]: "rne (of_int n) = n"
  by (simp add: rne_def)

lemma rne_near: "\<bar>of_int (rne q) - q\<bar> \<le> 1/2"
proof -
  have "0 \<le> q - of_int \<lfloor>q\<rfloor>" "q - of_int \<lfloor>q\<rfloor> < 1" by linarith+
  then show ?thesis by (auto simp: rne_def Let_def)
qed

lemma rne_mono: assumes "q \<le> r" shows "rne q \<le> rne r"
proof (cases "\<lfloor>q\<rfloor> = \<lfloor>r\<rfloor>")
  case True
  with assms show ?thesis by (auto simp: rne_def Let_def)
next
  case False
  with floor_mono [OF assms] have "\<lfloor>q\<rfloor> + 1 \<le> \<lfloor>r\<rfloor>" by simp
  with rne_bounds(2) [of q] rne_bounds(1) [of r] show ?thesis by linarith
qed

lemma rne_ge: "of_int n \<le> q \<Longrightarrow> n \<le> rne q"
  using rne_mono [of "of_int n" q] by simp

lemma rne_le: "q \<le> of_int n \<Longrightarrow> rne q \<le> n"
  using rne_mono [of q "of_int n"] by simp

section \<open>Rounding to 53 bits\<close>

text \<open>The binary exponent of a positive number.\<close>

definition fexp :: "rat \<Rightarrow> int" where
  "fexp x = (case quotient_of x of (p, q) \<Rightarrow>
     let k = bitlen p - bitlen q in if 2 powi k \<le> x then k else k - 1)"

lemma bitlen_powi:
  assumes "0 < p"
  shows "2 powi (bitlen p - 1) \<le> (of_int p :: rat)" and "(of_int p :: rat) < 2 powi (bitlen p)"
proof -
  have b: "2 ^ nat (bitlen p - 1) \<le> p" "p < 2 ^ nat (bitlen p)" "0 < bitlen p"
    using bitlen_bounds [OF assms] bitlen_nonneg [of p] bitlen_eq_zero_iff [of p] assms by auto
  have "(2 :: rat) powi (bitlen p - 1) = of_int (2 ^ nat (bitlen p - 1))"
    using b(3) by (simp add: power_int_def)
  also have "\<dots> \<le> of_int p" using b(1) of_int_le_iff by blast
  finally show "2 powi (bitlen p - 1) \<le> (of_int p :: rat)" .
  have "of_int p < (of_int (2 ^ nat (bitlen p)) :: rat)" using b(2) of_int_less_iff by blast
  also have "\<dots> = 2 powi (bitlen p)" using b(3) by (simp add: power_int_def)
  finally show "(of_int p :: rat) < 2 powi (bitlen p)" .
qed

lemma fexp_bounds:
  assumes "0 < x"
  shows "2 powi (fexp x) \<le> x" and "x < 2 powi (fexp x + 1)"
proof -
  obtain p q where pq: "quotient_of x = (p, q)" by force
  then have q: "0 < q" and x: "x = of_int p / of_int q"
    using quotient_of_denom_pos quotient_of_div by auto
  with assms have p: "0 < p" by (simp add: zero_less_divide_iff)
  let ?k = "bitlen p - bitlen q"
  have "x < 2 powi (bitlen p) / 2 powi (bitlen q - 1)"
    unfolding x using bitlen_powi [OF p] bitlen_powi [OF q] q p by (intro frac_less) auto
  also have "\<dots> = 2 powi (?k + 1)" by (simp add: power_int_diff [symmetric] algebra_simps)
  finally have up: "x < 2 powi (?k + 1)" .
  have "2 powi (?k - 1) = 2 powi (bitlen p - 1) / (2 :: rat) powi (bitlen q)"
    by (simp add: power_int_diff [symmetric] algebra_simps)
  also have "\<dots> \<le> x"
    unfolding x using bitlen_powi [OF p] bitlen_powi [OF q] q p by (intro frac_le) auto
  finally have lo: "2 powi (?k - 1) \<le> x" .
  show "2 powi (fexp x) \<le> x" "x < 2 powi (fexp x + 1)"
    using up lo by (auto simp: fexp_def pq Let_def)
qed

lemma powi_2_le_iff: "(2 :: rat) powi i \<le> 2 powi j \<longleftrightarrow> i \<le> j"
  using power_int_increasing [of i j "2 :: rat"] power_int_strict_increasing [of j i "2 :: rat"] by force

lemma fexp_mono:
  assumes "0 < x" and "x \<le> y"
  shows "fexp x \<le> fexp y"
proof -
  have "(2 :: rat) powi (fexp x) < 2 powi (fexp y + 1)"
    using fexp_bounds(1) [OF assms(1)] fexp_bounds(2) [of y] assms by linarith
  then have "\<not> fexp y + 1 \<le> fexp x" using powi_2_le_iff [of "fexp y + 1" "fexp x"] by linarith
  then show ?thesis by simp
qed

definition fl_pos :: "rat \<Rightarrow> rat" where
  "fl_pos x = (let u = 2 powi (fexp x - 52) in of_int (rne (x / u)) * u)"

definition fl :: "rat \<Rightarrow> rat" where
  "fl x = (if x = 0 then 0 else if x > 0 then fl_pos x else - fl_pos (- x))"

lemma fl_pos_range:
  assumes "0 < x"
  shows "2 powi (fexp x) \<le> fl_pos x" and "fl_pos x \<le> 2 powi (fexp x + 1)"
proof -
  let ?u = "(2 :: rat) powi (fexp x - 52)"
  have u: "0 < ?u" by simp
  have lo: "of_int (2 ^ 52) * ?u = 2 powi (fexp x)" and hi: "of_int (2 ^ 53) * ?u = 2 powi (fexp x + 1)"
    by (simp_all add: power_int_diff power_int_add)
  have "of_int (2 ^ 52) \<le> x / ?u"
    using fexp_bounds(1) [OF assms] u lo by (subst pos_le_divide_eq) auto
  then have "2 ^ 52 \<le> rne (x / ?u)" by (rule rne_ge)
  then have "of_int (2 ^ 52) * ?u \<le> of_int (rne (x / ?u)) * ?u"
    using u by (intro mult_right_mono) (auto simp del: of_int_power simp: of_int_le_iff)
  with lo show "2 powi (fexp x) \<le> fl_pos x" by (simp add: fl_pos_def Let_def)
  have "x / ?u \<le> of_int (2 ^ 53)"
    using fexp_bounds(2) [OF assms] u hi by (subst pos_divide_le_eq) auto
  then have "rne (x / ?u) \<le> 2 ^ 53" by (rule rne_le)
  then have "of_int (rne (x / ?u)) * ?u \<le> of_int (2 ^ 53) * ?u"
    using u by (intro mult_right_mono) (auto simp del: of_int_power simp: of_int_le_iff)
  with hi show "fl_pos x \<le> 2 powi (fexp x + 1)" by (simp add: fl_pos_def Let_def)
qed

lemma fl_pos_mono:
  assumes "0 < x" and "x \<le> y"
  shows "fl_pos x \<le> fl_pos y"
proof (cases "fexp x = fexp y")
  case True
  have "rne (x / 2 powi (fexp y - 52)) \<le> rne (y / 2 powi (fexp y - 52))"
    using assms by (intro rne_mono divide_right_mono) auto
  then show ?thesis
    using True by (auto simp: fl_pos_def Let_def intro!: mult_right_mono)
next
  case False
  with fexp_mono [OF assms] have "fexp x + 1 \<le> fexp y" by simp
  then have "(2 :: rat) powi (fexp x + 1) \<le> 2 powi (fexp y)" by (simp add: powi_2_le_iff)
  with fl_pos_range(2) [of x] fl_pos_range(1) [of y] assms show ?thesis by linarith
qed

lemma fl_pos_gt_0: "0 < x \<Longrightarrow> 0 < fl_pos x"
  using fl_pos_range(1) [of x] zero_less_power_int [of "2::rat" "fexp x"] by linarith

lemma fl_mono: assumes "x \<le> y" shows "fl x \<le> fl y"
  using assms fl_pos_mono [of x y] fl_pos_mono [of "- y" "- x"] fl_pos_gt_0 [of y] fl_pos_gt_0 [of "- x"]
  by (auto simp: fl_def)

lemma fl_0 [simp]: "fl 0 = 0"
  by (simp add: fl_def)

lemma fl_nonneg: "0 \<le> x \<Longrightarrow> 0 \<le> fl x"
  using fl_mono [of 0 x] by simp

lemma fl_minus: "fl (- x) = - fl x"
  by (simp add: fl_def)

text \<open>A number whose quotient by its unit in the last place is an integer is exact.\<close>

lemma fl_pos_exact: "x / 2 powi (fexp x - 52) = of_int n \<Longrightarrow> fl_pos x = x"
  by (simp add: fl_pos_def Let_def) (simp add: field_simps)

lemma fl_pos_int:
  assumes "0 < n" and "n \<le> 2 ^ 53"
  shows "fl_pos (of_int n) = of_int n"
proof -
  let ?x = "of_int n :: rat"
  have pos: "0 < ?x" using assms by simp
  have "(2 :: rat) powi (fexp ?x) \<le> 2 powi 53"
    using fexp_bounds(1) [OF pos] assms(2) of_int_le_iff [of n "2 ^ 53", where 'a = rat] by simp
  then have e: "fexp ?x \<le> 53" by (simp only: powi_2_le_iff)
  have lo: "0 \<le> fexp ?x"
  proof (rule ccontr)
    assume "\<not> 0 \<le> fexp ?x"
    then have "(2 :: rat) powi (fexp ?x + 1) \<le> 2 powi 0" by (subst powi_2_le_iff) simp
    with fexp_bounds(2) [OF pos] have "?x < 1" by simp
    with assms(1) show False by simp
  qed
  show ?thesis
  proof (cases "fexp ?x = 53")
    case True
    with fexp_bounds(1) [OF pos] have "of_int (2 ^ 53) \<le> ?x" by simp
    then have "n = 2 ^ 53" using assms(2) by (simp only: of_int_le_iff)
    then show ?thesis using True by (intro fl_pos_exact [of _ "2 ^ 52"]) simp
  next
    case False
    with e have "fexp ?x - 52 \<le> 0" by simp
    then have "?x / 2 powi (fexp ?x - 52) = of_int (n * 2 ^ nat (52 - fexp ?x))"
      by (simp add: power_int_def field_simps)
    then show ?thesis by (rule fl_pos_exact)
  qed
qed

lemma fl_of_int: assumes "\<bar>n\<bar> \<le> 2 ^ 53" shows "fl (of_int n) = of_int n"
  using assms fl_pos_int [of n] fl_pos_int [of "- n"] by (auto simp: fl_def)

lemma fl_of_numeral: "(numeral k :: int) \<le> 2 ^ 53 \<Longrightarrow> fl (numeral k) = numeral k"
  using fl_of_int [of "numeral k"] by simp

lemma fl_1 [simp]: "fl 1 = 1"
  using fl_of_int [of 1] by simp

text \<open>\<open>round(x, 3)\<close>: the decimal with three places nearest to \<open>x\<close>, ties to even, as a float.\<close>

definition py_round :: "nat \<Rightarrow> rat \<Rightarrow> rat" where
  "py_round k x = fl (of_int (rne (x * 10 ^ k)) / 10 ^ k)"

lemma py_round_mono: "x \<le> y \<Longrightarrow> py_round k x \<le> py_round k y"
  unfolding py_round_def by (intro fl_mono divide_right_mono) (auto simp: of_int_le_iff intro!: rne_mono mult_right_mono)

lemma py_round_int: assumes "\<bar>n\<bar> \<le> 2 ^ 53" shows "py_round k (of_int n) = of_int n"
proof -
  have "rne (of_int n * 10 ^ k) = n * 10 ^ k" using rne_of_int [of "n * 10 ^ k"] by simp
  then show ?thesis using fl_of_int [OF assms] by (simp add: py_round_def)
qed

section \<open>Reading a float\<close>

text \<open>
  \<open>float(s)\<close> of decimal notation: the correctly rounded value of an optional sign, digits with an
  optional point, and an optional exponent. The words for infinity and NaN have no value here and
  count as malformed.
\<close>

definition split_sign :: "string \<Rightarrow> bool \<times> string" where
  "split_sign t = (case t of [] \<Rightarrow> (False, [])
     | c # cs \<Rightarrow> if c = CHR ''-'' then (True, cs) else if c = CHR ''+'' then (False, cs) else (False, t))"

definition dec_digits :: "string \<Rightarrow> nat option" where
  "dec_digits s = (if s = [] then Some 0 else int_digits s 0 False)"

definition mantissa :: "string \<Rightarrow> rat option" where
  "mantissa s = (case partition_on CHR ''.'' s of (a, _, b) \<Rightarrow>
     if a = [] \<and> b = [] then None
     else case (dec_digits a, dec_digits b) of
       (Some m, Some n) \<Rightarrow> Some (of_nat m + of_nat n / 10 ^ length (filter is_digit b))
     | _ \<Rightarrow> None)"

definition exponent :: "string \<Rightarrow> int option" where
  "exponent s = (case split_sign s of (neg, ds) \<Rightarrow>
     map_option (\<lambda>n. if neg then - int n else int n) (int_digits ds 0 False))"

definition py_float :: "string \<Rightarrow> rat res" where
  "py_float s =
     (let (neg, t) = split_sign (strip s);
          m = takeWhile (\<lambda>c. to_lower c \<noteq> CHR ''e'') t;
          rest = drop (length m) t;
          e = (case rest of [] \<Rightarrow> Some 0 | _ # ds \<Rightarrow> exponent ds)
      in case (mantissa m, e) of
           (Some v, Some k) \<Rightarrow> Inr (fl ((if neg then - v else v) * 10 powi k))
         | _ \<Rightarrow> Inl (ValueError ''could not convert string to float''))"

end
