(* ===== verification/PyJsonText.thy ===== *)
theory PyJsonText
  imports PyJson PyFloat
begin

text \<open>
  JSON as text: \<open>json.dumps\<close> and \<open>json.loads\<close> of Python's standard library, as far as the sources use
  them. The encoder escapes everything outside printable ASCII (\<open>ensure_ascii\<close>) and takes the two
  separators and the indentation as its arguments; the text of a float is its \<open>repr\<close>, an argument of
  the encoder. The decoder is the scanner of \<open>json.scanner\<close> and \<open>json.decoder\<close>; \<open>None\<close> stands for the
  \<open>JSONDecodeError\<close>. A character is a code point up to 255, so an escape of a larger code point is
  outside the model and gives \<open>None\<close> too, as do the constants \<open>NaN\<close> and \<open>Infinity\<close>, which are no
  rationals. The limits of the interpreter (depth of the recursion, 4300 digits of an integer) are not
  modelled.
\<close>

section \<open>Encoding\<close>

definition hex2 :: "nat \<Rightarrow> string" where
  "hex2 n = [hex_char (n div 16), hex_char (n mod 16)]"

definition esc_char :: "char \<Rightarrow> string" where
  "esc_char c =
     (if c = BACKSLASH then [BACKSLASH, BACKSLASH]
      else if c = DQUOTE then [BACKSLASH, DQUOTE]
      else if c = NL then [BACKSLASH, CHR ''n'']
      else if c = CR then [BACKSLASH, CHR ''r'']
      else if c = TAB then [BACKSLASH, CHR ''t'']
      else if c = CHR 0x0C then [BACKSLASH, CHR ''f'']
      else if c = CHR 0x08 then [BACKSLASH, CHR ''b'']
      else if 32 \<le> (of_char c :: nat) \<and> (of_char c :: nat) \<le> 126 then [c]
      else [BACKSLASH, CHR ''u'', CHR ''0'', CHR ''0''] @ hex2 (of_char c))"

definition enc_string :: "string \<Rightarrow> string" where
  "enc_string s = DQUOTE # concat (map esc_char s) @ [DQUOTE]"

text \<open>
  The arguments of \<open>json.dumps\<close>: without an indentation the defaults are \<open>", "\<close> and \<open>": "\<close>, with one
  they are \<open>","\<close> and \<open>": "\<close>.
\<close>

record json_format =
  item_sep :: string
  key_sep :: string
  indentation :: "nat option"

definition default_format :: json_format where
  "default_format = \<lparr>item_sep = '', '', key_sep = '': '', indentation = None\<rparr>"

definition compact_format :: json_format where
  "compact_format = \<lparr>item_sep = '','', key_sep = '':'', indentation = None\<rparr>"

definition indent_format :: "nat \<Rightarrow> json_format" where
  "indent_format n = \<lparr>item_sep = '','', key_sep = '': '', indentation = Some n\<rparr>"

definition newline_indent :: "json_format \<Rightarrow> nat \<Rightarrow> string" where
  "newline_indent f level = (case indentation f of None \<Rightarrow> [] | Some n \<Rightarrow> NL # replicate (n * level) CHR '' '')"

text \<open>The name under which a key is written; keys are strings or scalars.\<close>

fun key_name :: "(rat \<Rightarrow> string) \<Rightarrow> json \<Rightarrow> string" where
  "key_name repr JNull = ''null''"
| "key_name repr (JBool b) = (if b then ''true'' else ''false'')"
| "key_name repr (JInt i) = show_int i"
| "key_name repr (JFloat q) = repr q"
| "key_name repr (JStr s) = s"
| "key_name repr v = type_name v"

definition enclose :: "json_format \<Rightarrow> nat \<Rightarrow> char \<Rightarrow> char \<Rightarrow> string list \<Rightarrow> string" where
  "enclose f level op cl items =
     (if items = [] then [op, cl]
      else op # newline_indent f (Suc level) @ join (item_sep f @ newline_indent f (Suc level)) items @
        newline_indent f level @ [cl])"

fun enc_value :: "json_format \<Rightarrow> (rat \<Rightarrow> string) \<Rightarrow> nat \<Rightarrow> json \<Rightarrow> string" where
  "enc_value f repr level JNull = ''null''"
| "enc_value f repr level (JBool b) = (if b then ''true'' else ''false'')"
| "enc_value f repr level (JInt i) = show_int i"
| "enc_value f repr level (JFloat q) = repr q"
| "enc_value f repr level (JStr s) = enc_string s"
| "enc_value f repr level (JList xs) =
     enclose f level CHR ''['' CHR '']'' (map (enc_value f repr (Suc level)) xs)"
| "enc_value f repr level (JDict d) =
     enclose f level CHR ''{'' CHR ''}''
       (map (\<lambda>(k, v). enc_string (key_name repr k) @ key_sep f @ enc_value f repr (Suc level) v) d)"

definition json_dumps :: "json_format \<Rightarrow> (rat \<Rightarrow> string) \<Rightarrow> json \<Rightarrow> string" where
  "json_dumps f repr v = enc_value f repr 0 v"

text \<open>
  \<open>sort_keys=True\<close>: the items of every dictionary in the order of their keys, which must be comparable:
  all strings or all numbers.
\<close>

fun key_number :: "json \<Rightarrow> rat option" where
  "key_number (JInt i) = Some (of_int i)"
| "key_number (JBool b) = Some (if b then 1 else 0)"
| "key_number (JFloat q) = Some q"
| "key_number v = None"

fun key_string :: "json \<Rightarrow> string option" where
  "key_string (JStr s) = Some s"
| "key_string v = None"

definition sort_items :: "(json \<times> json) list \<Rightarrow> (json \<times> json) list res" where
  "sort_items d =
     (if length d \<le> 1 then Inr d
      else if \<forall>(k, v) \<in> set d. key_string k \<noteq> None then Inr (sort_key (\<lambda>(k, v). the (key_string k)) d)
      else if \<forall>(k, v) \<in> set d. key_number k \<noteq> None then Inr (sort_key (\<lambda>(k, v). the (key_number k)) d)
      else Inl (TypeError ''unorderable keys''))"

function sort_json :: "json \<Rightarrow> json res" where
  "sort_json v =
     (case v of
        JList xs \<Rightarrow> rbind (rmap sort_json xs) (\<lambda>ys. Inr (JList ys))
      | JDict d \<Rightarrow> rbind (rmap (\<lambda>kv. rbind (sort_json (snd kv)) (\<lambda>y. Inr (fst kv, y))) d)
          (\<lambda>d. rbind (sort_items d) (\<lambda>d. Inr (JDict d)))
      | _ \<Rightarrow> Inr v)"
  by pat_completeness auto
termination
  by (relation "measure size") (auto dest: size_list_estimation' [where f = size, OF _ order_refl] dict_value_size)

declare sort_json.simps [simp del]

section \<open>Decoding\<close>

text \<open>A scanner gives the value at the front of a text and the rest of the text.\<close>

type_synonym 'a scanner = "string \<Rightarrow> ('a \<times> string) option"

definition json_ws :: "char \<Rightarrow> bool" where
  "json_ws c \<longleftrightarrow> c = CHR '' '' \<or> c = TAB \<or> c = NL \<or> c = CR"

definition skip_ws :: "string \<Rightarrow> string" where
  "skip_ws s = dropWhile json_ws s"

text \<open>\<open>scanstring\<close> after the opening quote.\<close>

definition unescape :: "char \<Rightarrow> char option" where
  "unescape e =
     (if e = DQUOTE \<or> e = BACKSLASH \<or> e = CHR ''/'' then Some e
      else if e = CHR ''b'' then Some (CHR 0x08)
      else if e = CHR ''f'' then Some (CHR 0x0C)
      else if e = CHR ''n'' then Some NL
      else if e = CHR ''r'' then Some CR
      else if e = CHR ''t'' then Some TAB
      else None)"

definition cons_char :: "char \<Rightarrow> (string \<times> string) option \<Rightarrow> (string \<times> string) option" where
  "cons_char c r = map_option (\<lambda>(s, rest). (c # s, rest)) r"

fun scan_string :: "string scanner" where
  "scan_string [] = None"
| "scan_string (c # r) =
     (if c = DQUOTE then Some ([], r)
      else if (of_char c :: nat) < 32 then None
      else if c \<noteq> BACKSLASH then cons_char c (scan_string r)
      else (case r of
          [] \<Rightarrow> None
        | e # r' \<Rightarrow>
            if e \<noteq> CHR ''u'' then
              (case unescape e of None \<Rightarrow> None | Some d \<Rightarrow> cons_char d (scan_string r'))
            else (case r' of
                h1 # h2 # h3 # h4 # r'' \<Rightarrow>
                  if h1 = CHR ''0'' \<and> h2 = CHR ''0'' \<and> is_hexdigit h3 \<and> is_hexdigit h4
                  then cons_char (char_of (16 * hex_val h3 + hex_val h4)) (scan_string r'') else None
              | _ \<Rightarrow> None)))"

text \<open>Numbers: an integer part without leading zeros, and a float if a fraction or an exponent follows.\<close>

definition digits_val :: "string \<Rightarrow> nat" where
  "digits_val ds = foldl (\<lambda>a c. 10 * a + digit_val c) 0 ds"

definition scan_digits :: "string scanner" where
  "scan_digits s = (if s \<noteq> [] \<and> is_digit (hd s) then Some (takeWhile is_digit s, dropWhile is_digit s) else None)"

definition scan_int :: "string scanner" where
  "scan_int s = (case s of [] \<Rightarrow> None | c # r \<Rightarrow> if c = CHR ''0'' then Some ([c], r) else scan_digits s)"

definition scan_frac :: "string scanner" where
  "scan_frac s = (case s of [] \<Rightarrow> None | c # r \<Rightarrow> if c = CHR ''.'' then scan_digits r else None)"

definition scan_sign :: "string \<Rightarrow> bool \<times> string" where
  "scan_sign s = (case s of [] \<Rightarrow> (False, s) | c # r \<Rightarrow>
     if c = CHR ''-'' then (True, r) else if c = CHR ''+'' then (False, r) else (False, s))"

definition scan_exp :: "int scanner" where
  "scan_exp s = (case s of [] \<Rightarrow> None | c # r \<Rightarrow>
     if c = CHR ''e'' \<or> c = CHR ''E'' then
       (case scan_sign r of (neg, r') \<Rightarrow>
          map_option (\<lambda>(ds, rest). (if neg then - int (digits_val ds) else int (digits_val ds), rest)) (scan_digits r'))
     else None)"

definition decimal :: "bool \<Rightarrow> string \<Rightarrow> string \<Rightarrow> int \<Rightarrow> rat" where
  "decimal neg ip fp e =
     (let q = (of_nat (digits_val (ip @ fp)) / 10 ^ length fp) * 10 powi e in if neg then - q else q)"

definition scan_number :: "json scanner" where
  "scan_number s =
     (let neg = (s \<noteq> [] \<and> hd s = CHR ''-'') in
      case scan_int (if neg then tl s else s) of
        None \<Rightarrow> None
      | Some (ip, r1) \<Rightarrow>
          (let (fp, r2) = (case scan_frac r1 of None \<Rightarrow> (None, r1) | Some (ds, r) \<Rightarrow> (Some ds, r));
               (ep, r3) = (case scan_exp r2 of None \<Rightarrow> (None, r2) | Some (e, r) \<Rightarrow> (Some e, r)) in
           Some (if fp = None \<and> ep = None then JInt (if neg then - int (digits_val ip) else int (digits_val ip))
                 else JFloat (fl (decimal neg ip (get_default fp []) (get_default ep 0))), r3)))"

definition scan_scalar :: "json scanner" where
  "scan_scalar s =
     (if startswith s ''null'' then Some (JNull, drop 4 s)
      else if startswith s ''true'' then Some (JBool True, drop 4 s)
      else if startswith s ''false'' then Some (JBool False, drop 5 s)
      else scan_number s)"

text \<open>\<open>dict(pairs)\<close>: the last value of a key wins, in the place of its first.\<close>

definition object_of :: "(string \<times> json) list \<Rightarrow> (json \<times> json) list" where
  "object_of pairs = fold (\<lambda>(k, v) d. dict_set (JStr k) v d) pairs []"

text \<open>\<open>scan_once\<close> with the loops of \<open>JSONObject\<close> and \<open>JSONArray\<close>. The first argument bounds the nesting of the calls.\<close>

fun scan_value :: "nat \<Rightarrow> json scanner"
  and scan_members :: "nat \<Rightarrow> (string \<times> json) list scanner"
  and scan_elements :: "nat \<Rightarrow> json list scanner" where
  "scan_value 0 s = None"
| "scan_value (Suc n) s =
     (case s of
        [] \<Rightarrow> None
      | c # r \<Rightarrow>
          if c = DQUOTE then map_option (\<lambda>(t, rest). (JStr t, rest)) (scan_string r)
          else if c = CHR ''{'' then
            (case skip_ws r of
               [] \<Rightarrow> None
             | d # r' \<Rightarrow> if d = CHR ''}'' then Some (JDict [], r')
                 else map_option (\<lambda>(ps, rest). (JDict (object_of ps), rest)) (scan_members n (d # r')))
          else if c = CHR ''['' then
            (case skip_ws r of
               [] \<Rightarrow> None
             | d # r' \<Rightarrow> if d = CHR '']'' then Some (JList [], r')
                 else map_option (\<lambda>(xs, rest). (JList xs, rest)) (scan_elements n (d # r')))
          else scan_scalar s)"
| "scan_members 0 s = None"
| "scan_members (Suc n) s =
     (case s of
        [] \<Rightarrow> None
      | c # r \<Rightarrow>
          if c \<noteq> DQUOTE then None
          else Option.bind (scan_string r) (\<lambda>(k, r1).
            case skip_ws r1 of
              [] \<Rightarrow> None
            | d # r2 \<Rightarrow>
                if d \<noteq> CHR '':'' then None
                else Option.bind (scan_value n (skip_ws r2)) (\<lambda>(v, r3).
                  case skip_ws r3 of
                    [] \<Rightarrow> None
                  | e # r4 \<Rightarrow>
                      if e = CHR ''}'' then Some ([(k, v)], r4)
                      else if e = CHR '','' then
                        map_option (\<lambda>(ps, rest). ((k, v) # ps, rest)) (scan_members n (skip_ws r4))
                      else None)))"
| "scan_elements 0 s = None"
| "scan_elements (Suc n) s =
     Option.bind (scan_value n s) (\<lambda>(v, r).
       case skip_ws r of
         [] \<Rightarrow> None
       | e # r' \<Rightarrow>
           if e = CHR '']'' then Some ([v], r')
           else if e = CHR '','' then
             map_option (\<lambda>(vs, rest). (v # vs, rest)) (scan_elements n (skip_ws r'))
           else None)"

text \<open>\<open>json.loads\<close> of a string: one value between whitespace and nothing after it.\<close>

definition scan_fuel :: "string \<Rightarrow> nat" where
  "scan_fuel s = 2 * length s + 2"

definition json_loads :: "string \<Rightarrow> json option" where
  "json_loads s = Option.bind (scan_value (scan_fuel s) (skip_ws s))
     (\<lambda>(v, rest). if skip_ws rest = [] then Some v else None)"

text \<open>
  \<open>json.loads\<close> of bytes decodes UTF-8 first. Code points above 255 are outside the model and, like
  bytes that are no UTF-8, give \<open>None\<close>.
\<close>

fun decode_utf8 :: "string \<Rightarrow> string option" where
  "decode_utf8 [] = Some []"
| "decode_utf8 (c # r) =
     (let n = (of_char c :: nat) in
      if n < 128 then map_option ((#) c) (decode_utf8 r)
      else if n = 194 \<or> n = 195 then
        (case r of [] \<Rightarrow> None
         | d # r' \<Rightarrow> (let m = (of_char d :: nat) in
             if 128 \<le> m \<and> m < 192 then map_option ((#) (char_of (64 * (n - 192) + (m - 128)))) (decode_utf8 r')
             else None))
      else None)"

definition json_loads_bytes :: "string \<Rightarrow> json option" where
  "json_loads_bytes s = Option.bind (decode_utf8 s) json_loads"

definition decoded :: "'a option \<Rightarrow> 'a res" where
  "decoded v = (case v of None \<Rightarrow> Inl (ValueError ''not decodable'') | Some x \<Rightarrow> Inr x)"

end
