(* ===== verification/PyJsonText_Props.thy ===== *)
theory PyJsonText_Props
  imports PyJsonText
begin

text \<open>
  Laws of the JSON encoder and decoder: what a scanner leaves is shorter, so the fuel of
  \<open>json_loads\<close> is enough; a text that was scanned is scanned the same in front of more text, so that no
  proper prefix of an object or a list decodes to something else; and what the encoder wrote is read
  back.
\<close>

section \<open>Scanners leave less\<close>

lemma json_ws_simps [simp]:
  "\<not> json_ws DQUOTE" "\<not> json_ws (CHR ''{'')" "\<not> json_ws (CHR ''}'')" "\<not> json_ws (CHR ''['')" "\<not> json_ws (CHR '']'')"
  "\<not> json_ws (CHR '':'')" "\<not> json_ws (CHR '','')" "json_ws (CHR '' '')" "json_ws NL"
  by (simp_all add: json_ws_def)

lemma skip_ws_length: "length (skip_ws s) \<le> length s"
  by (simp add: skip_ws_def length_dropWhile_le)

lemma skip_ws_Cons: "skip_ws s = c # r \<Longrightarrow> length r < length s"
  using skip_ws_length [of s] by simp

lemma skip_ws_append: "skip_ws s \<noteq> [] \<Longrightarrow> skip_ws (s @ t) = skip_ws s @ t"
  by (induction s) (auto simp: skip_ws_def)

lemma skip_ws_idem [simp]: "skip_ws (skip_ws s) = skip_ws s"
  by (simp add: skip_ws_def)

lemma skip_ws_id: "s = [] \<or> \<not> json_ws (hd s) \<Longrightarrow> skip_ws s = s"
  by (cases s) (auto simp: skip_ws_def)

lemma cons_char_Some: "cons_char c x = Some (s, r) \<longleftrightarrow> (\<exists>t. x = Some (t, r) \<and> s = c # t)"
  by (cases x) (auto simp: cons_char_def)

lemma scan_string_length: "scan_string s = Some (t, r) \<Longrightarrow> length r < length s"
  by (induction s arbitrary: t r rule: scan_string.induct)
    (fastforce simp: cons_char_Some split: if_splits list.splits option.splits)+

lemma scan_digits_length: "scan_digits s = Some (t, r) \<Longrightarrow> length r < length s"
  by (cases s) (auto simp: scan_digits_def less_Suc_eq_le length_dropWhile_le split: if_splits)

lemma scan_int_length: "scan_int s = Some (t, r) \<Longrightarrow> length r < length s"
  by (auto simp: scan_int_def dest: scan_digits_length split: list.splits if_splits)

lemma scan_frac_length: "scan_frac s = Some (t, r) \<Longrightarrow> length r < length s"
  by (auto simp: scan_frac_def dest: scan_digits_length split: list.splits if_splits)

lemma scan_sign_length: "scan_sign s = (b, r) \<Longrightarrow> length r \<le> length s"
  by (auto simp: scan_sign_def split: list.splits if_splits)

lemma scan_exp_length: "scan_exp s = Some (t, r) \<Longrightarrow> length r < length s"
  by (fastforce simp: scan_exp_def dest: scan_digits_length scan_sign_length split: list.splits if_splits prod.splits)

lemma scan_number_length: "scan_number s = Some (v, r) \<Longrightarrow> length r < length s"
  by (auto simp: scan_number_def Let_def dest!: scan_int_length scan_frac_length scan_exp_length
      split: if_splits option.splits prod.splits)

lemma scan_scalar_length: "scan_scalar s = Some (v, r) \<Longrightarrow> length r < length s"
  by (auto simp: scan_scalar_def startswith_iff dest!: scan_number_length split: if_splits)

text \<open>The ways in which the loops succeed.\<close>

lemma scan_membersE:
  assumes "scan_members (Suc n) s = Some (ps, r)"
  obtains s' k r1 r2 v r3 r4 ps' where "s = DQUOTE # s'" "scan_string s' = Some (k, r1)" "skip_ws r1 = CHR '':'' # r2"
    "scan_value n (skip_ws r2) = Some (v, r3)" "ps = (k, v) # ps'"
    "skip_ws r3 = CHR ''}'' # r \<and> ps' = [] \<or> skip_ws r3 = CHR '','' # r4 \<and> scan_members n (skip_ws r4) = Some (ps', r)"
proof -
  from assms obtain s' where s: "s = DQUOTE # s'" by (cases s) (simp_all split: if_splits)
  with assms have "Option.bind (scan_string s') (\<lambda>(k, r1). case skip_ws r1 of [] \<Rightarrow> None | d # r2 \<Rightarrow>
       if d \<noteq> CHR '':'' then None else Option.bind (scan_value n (skip_ws r2)) (\<lambda>(v, r3).
         case skip_ws r3 of [] \<Rightarrow> None | e # r4 \<Rightarrow> if e = CHR ''}'' then Some ([(k, v)], r4)
           else if e = CHR '','' then map_option (\<lambda>(ps, rest). ((k, v) # ps, rest)) (scan_members n (skip_ws r4))
           else None)) = Some (ps, r)" by simp
  with s obtain k r1 where 1: "s = DQUOTE # s'" "scan_string s' = Some (k, r1)"
    and m1: "(case skip_ws r1 of [] \<Rightarrow> None | d # r2 \<Rightarrow>
       if d \<noteq> CHR '':'' then None else Option.bind (scan_value n (skip_ws r2)) (\<lambda>(v, r3).
         case skip_ws r3 of [] \<Rightarrow> None | e # r4 \<Rightarrow> if e = CHR ''}'' then Some ([(k, v)], r4)
           else if e = CHR '','' then map_option (\<lambda>(ps, rest). ((k, v) # ps, rest)) (scan_members n (skip_ws r4))
           else None)) = Some (ps, r)"
    unfolding bind_eq_Some_conv by auto
  from m1 obtain r2 where 2: "skip_ws r1 = CHR '':'' # r2"
    and m2: "Option.bind (scan_value n (skip_ws r2)) (\<lambda>(v, r3).
         case skip_ws r3 of [] \<Rightarrow> None | e # r4 \<Rightarrow> if e = CHR ''}'' then Some ([(k, v)], r4)
           else if e = CHR '','' then map_option (\<lambda>(ps, rest). ((k, v) # ps, rest)) (scan_members n (skip_ws r4))
           else None) = Some (ps, r)"
    by (cases "skip_ws r1") (simp_all split: if_split_asm)
  from m2 obtain v r3 where 3: "scan_value n (skip_ws r2) = Some (v, r3)"
    and m3: "(case skip_ws r3 of [] \<Rightarrow> None | e # r4 \<Rightarrow> if e = CHR ''}'' then Some ([(k, v)], r4)
           else if e = CHR '','' then map_option (\<lambda>(ps, rest). ((k, v) # ps, rest)) (scan_members n (skip_ws r4))
           else None) = Some (ps, r)"
    unfolding bind_eq_Some_conv by auto
  from m3 obtain e r4 where e: "skip_ws r3 = e # r4" by (cases "skip_ws r3") simp_all
  show ?thesis
  proof (cases "e = CHR ''}''")
    case True
    with m3 e have "ps = (k, v) # []" "r4 = r" by simp_all
    with that [OF 1 2 3] e True show ?thesis by simp
  next
    case False
    with m3 e obtain ps' where "e = CHR '',''" "scan_members n (skip_ws r4) = Some (ps', r)" "ps = (k, v) # ps'"
      by (auto split: if_splits)
    with that [OF 1 2 3] e show ?thesis by simp
  qed
qed

lemma scan_elementsE:
  assumes "scan_elements (Suc n) s = Some (vs, r)"
  obtains v r1 r2 vs' where "scan_value n s = Some (v, r1)" "vs = v # vs'"
    "skip_ws r1 = CHR '']'' # r \<and> vs' = [] \<or> skip_ws r1 = CHR '','' # r2 \<and> scan_elements n (skip_ws r2) = Some (vs', r)"
proof -
  from assms obtain v r1 where 1: "scan_value n s = Some (v, r1)"
    and m: "(case skip_ws r1 of [] \<Rightarrow> None | e # r' \<Rightarrow> if e = CHR '']'' then Some ([v], r')
           else if e = CHR '','' then map_option (\<lambda>(vs, rest). (v # vs, rest)) (scan_elements n (skip_ws r')) else None)
       = Some (vs, r)"
    by (auto simp: bind_eq_Some_conv)
  from m obtain e r2 where e: "skip_ws r1 = e # r2" by (cases "skip_ws r1") simp_all
  show ?thesis
  proof (cases "e = CHR '']''")
    case True
    with m e have "vs = v # []" "r2 = r" by simp_all
    with that [OF 1] e True show ?thesis by simp
  next
    case False
    with m e obtain vs' where "e = CHR '',''" "scan_elements n (skip_ws r2) = Some (vs', r)" "vs = v # vs'"
      by (auto split: if_splits)
    with that [OF 1] e show ?thesis by simp
  qed
qed

lemma scan_valueE:
  assumes "scan_value (Suc n) s = Some (v, r)"
  obtains
    (str) s' t where "s = DQUOTE # s'" "scan_string s' = Some (t, r)" "v = JStr t"
  | (dict0) s' where "s = CHR ''{'' # s'" "skip_ws s' = CHR ''}'' # r" "v = JDict []"
  | (dict) s' d s'' ps where "s = CHR ''{'' # s'" "skip_ws s' = d # s''" "d \<noteq> CHR ''}''" "scan_members n (d # s'') = Some (ps, r)"
      "v = JDict (object_of ps)"
  | (list0) s' where "s = CHR ''['' # s'" "skip_ws s' = CHR '']'' # r" "v = JList []"
  | (list) s' d s'' xs where "s = CHR ''['' # s'" "skip_ws s' = d # s''" "d \<noteq> CHR '']''" "scan_elements n (d # s'') = Some (xs, r)"
      "v = JList xs"
  | (scalar) c s' where "s = c # s'" "c \<noteq> DQUOTE" "c \<noteq> CHR ''{''" "c \<noteq> CHR ''[''" "scan_scalar s = Some (v, r)"
proof -
  from assms obtain c s' where s: "s = c # s'" by (cases s) simp_all
  consider "c = DQUOTE" | "c = CHR ''{''" | "c = CHR ''[''" | "c \<noteq> DQUOTE" "c \<noteq> CHR ''{''" "c \<noteq> CHR ''[''" by blast
  then show ?thesis
  proof cases
    case 1
    with assms s show ?thesis by (auto intro: str)
  next
    case 2
    with assms s obtain d s'' where d: "skip_ws s' = d # s''" by (cases "skip_ws s'") simp_all
    with 2 assms s show ?thesis by (cases "d = CHR ''}''") (auto intro: dict0 dict)
  next
    case 3
    with assms s obtain d s'' where d: "skip_ws s' = d # s''" by (cases "skip_ws s'") simp_all
    with 3 assms s show ?thesis by (cases "d = CHR '']''") (auto intro: list0 list)
  next
    case 4
    with assms s show ?thesis by (auto intro: scalar)
  qed
qed

lemma scan_length:
  "scan_value n s = Some (v, r) \<Longrightarrow> length r < length s"
  "scan_members n s = Some (ps, r) \<Longrightarrow> length r < length s"
  "scan_elements n s = Some (vs, r) \<Longrightarrow> length r < length s"
proof (induction n arbitrary: s v ps vs r)
  case (Suc n)
  {
    case 1
    then show ?case
    proof (cases rule: scan_valueE)
      case (dict s' d s'' ps)
      then show ?thesis using Suc.IH(2) [of "d # s''"] skip_ws_Cons [of s' d s''] by auto
    next
      case (list s' d s'' xs)
      then show ?thesis using Suc.IH(3) [of "d # s''"] skip_ws_Cons [of s' d s''] by auto
    qed (auto dest: scan_string_length scan_scalar_length skip_ws_Cons)
  next
    case 2
    from 2 obtain s' k r1 r2 v r3 r4 ps' where s: "s = DQUOTE # s'" "scan_string s' = Some (k, r1)" "skip_ws r1 = CHR '':'' # r2"
      "scan_value n (skip_ws r2) = Some (v, r3)"
      and e: "skip_ws r3 = CHR ''}'' # r \<and> ps' = [] \<or> skip_ws r3 = CHR '','' # r4 \<and> scan_members n (skip_ws r4) = Some (ps', r)"
      by (rule scan_membersE)
    have "length r3 < length s"
      using s scan_string_length [OF s(2)] skip_ws_Cons [OF s(3)] Suc.IH(1) [OF s(4)] skip_ws_length [of r2] by simp
    moreover have "length r < length r3"
      using e
    proof
      assume "skip_ws r3 = CHR ''}'' # r \<and> ps' = []"
      then show ?thesis using skip_ws_Cons [of r3] by simp
    next
      assume "skip_ws r3 = CHR '','' # r4 \<and> scan_members n (skip_ws r4) = Some (ps', r)"
      then show ?thesis using skip_ws_Cons [of r3] Suc.IH(2) [of "skip_ws r4"] skip_ws_length [of r4] by fastforce
    qed
    ultimately show ?case by simp
  next
    case 3
    from 3 obtain v r1 r2 vs' where s: "scan_value n s = Some (v, r1)"
      and e: "skip_ws r1 = CHR '']'' # r \<and> vs' = [] \<or> skip_ws r1 = CHR '','' # r2 \<and> scan_elements n (skip_ws r2) = Some (vs', r)"
      by (rule scan_elementsE)
    have "length r < length r1"
      using e
    proof
      assume "skip_ws r1 = CHR '']'' # r \<and> vs' = []"
      then show ?thesis using skip_ws_Cons [of r1] by simp
    next
      assume "skip_ws r1 = CHR '','' # r2 \<and> scan_elements n (skip_ws r2) = Some (vs', r)"
      then show ?thesis using skip_ws_Cons [of r1] Suc.IH(3) [of "skip_ws r2"] skip_ws_length [of r2] by fastforce
    qed
    with Suc.IH(1) [OF s] show ?case by simp
  }
qed simp_all

section \<open>Fuel\<close>

lemma scan_membersI:
  assumes "scan_string s' = Some (k, r1)" and "skip_ws r1 = CHR '':'' # r2" and "scan_value n (skip_ws r2) = Some (v, r3)"
    and "skip_ws r3 = CHR ''}'' # r \<and> ps' = [] \<or> skip_ws r3 = CHR '','' # r4 \<and> scan_members n (skip_ws r4) = Some (ps', r)"
  shows "scan_members (Suc n) (DQUOTE # s') = Some ((k, v) # ps', r)"
  using assms(4) by (elim disjE conjE) (simp_all add: assms(1-3))

lemma scan_elementsI:
  assumes "scan_value n s = Some (v, r1)"
    and "skip_ws r1 = CHR '']'' # r \<and> vs' = [] \<or> skip_ws r1 = CHR '','' # r2 \<and> scan_elements n (skip_ws r2) = Some (vs', r)"
  shows "scan_elements (Suc n) s = Some (v # vs', r)"
  using assms(2) by (elim disjE conjE) (simp_all add: assms(1))

text \<open>More fuel does not change a result.\<close>

lemma scan_more:
  "scan_value n s = Some y \<Longrightarrow> scan_value (Suc n) s = Some y"
  "scan_members n s = Some ps \<Longrightarrow> scan_members (Suc n) s = Some ps"
  "scan_elements n s = Some vs \<Longrightarrow> scan_elements (Suc n) s = Some vs"
proof (induction n arbitrary: s y ps vs)
  case (Suc n)
  {
    case 1
    obtain v r where y: "y = (v, r)" by force
    from 1 [unfolded y] show ?case
    proof (cases rule: scan_valueE)
      case (dict s' d s'' ps)
      with Suc.IH(2) [OF dict(4)] show ?thesis unfolding y dict(1) by (subst scan_value.simps) simp
    next
      case (list s' d s'' xs)
      with Suc.IH(3) [OF list(4)] show ?thesis unfolding y list(1) by (subst scan_value.simps) simp
    qed (simp_all add: y)
  next
    case 2
    obtain qs r where ps: "ps = (qs, r)" by force
    from 2 [unfolded ps] show ?case
    proof (rule scan_membersE)
      fix s' k r1 r2 v r3 r4 ps'
      assume s: "s = DQUOTE # s'" "scan_string s' = Some (k, r1)" "skip_ws r1 = CHR '':'' # r2"
        "scan_value n (skip_ws r2) = Some (v, r3)" "qs = (k, v) # ps'"
        and e: "skip_ws r3 = CHR ''}'' # r \<and> ps' = [] \<or> skip_ws r3 = CHR '','' # r4 \<and> scan_members n (skip_ws r4) = Some (ps', r)"
      show ?thesis unfolding ps s(1,5)
        by (rule scan_membersI [OF s(2,3) Suc.IH(1) [OF s(4)]]) (use e Suc.IH(2) in blast)
    qed
  next
    case 3
    obtain xs r where vs: "vs = (xs, r)" by force
    from 3 [unfolded vs] show ?case
    proof (rule scan_elementsE)
      fix v r1 r2 vs'
      assume s: "scan_value n s = Some (v, r1)" "xs = v # vs'"
        and e: "skip_ws r1 = CHR '']'' # r \<and> vs' = [] \<or> skip_ws r1 = CHR '','' # r2 \<and> scan_elements n (skip_ws r2) = Some (vs', r)"
      show ?thesis unfolding vs s(2)
        by (rule scan_elementsI [OF Suc.IH(1) [OF s(1)]]) (use e Suc.IH(3) in blast)
    qed
  }
qed simp_all

lemma scan_mono:
  assumes "n \<le> m" and "scan_value n s = Some y"
  shows "scan_value m s = Some y"
  using assms by (induction rule: dec_induct) (auto simp del: scan_value.simps intro: scan_more)

text \<open>Twice the length of the text is enough: what is found with more fuel is found with this much.\<close>

lemma scan_less:
  "scan_value (Suc n) s = Some y \<Longrightarrow> 2 * length s < n \<Longrightarrow> scan_value n s = Some y"
  "scan_members (Suc n) s = Some ps \<Longrightarrow> 2 * length s < n \<Longrightarrow> scan_members n s = Some ps"
  "scan_elements (Suc n) s = Some vs \<Longrightarrow> 2 * length s + 1 < n \<Longrightarrow> scan_elements n s = Some vs"
proof (induction n arbitrary: s y ps vs)
  case (Suc n)
  {
    case 1
    obtain v r where y: "y = (v, r)" by force
    from 1(1) [unfolded y] show ?case
    proof (cases rule: scan_valueE)
      case (dict s' d s'' ps)
      then have "2 * length (d # s'') < n" using 1(2) skip_ws_length [of s'] by auto
      with Suc.IH(2) [OF dict(4)] dict show ?thesis unfolding y dict(1) by (subst scan_value.simps) simp
    next
      case (list s' d s'' xs)
      then have "2 * length (d # s'') + 1 < n" using 1(2) skip_ws_length [of s'] by auto
      with Suc.IH(3) [OF list(4)] list show ?thesis unfolding y list(1) by (subst scan_value.simps) simp
    qed (simp_all add: y)
  next
    case 2
    obtain qs r where ps: "ps = (qs, r)" by force
    from 2(1) [unfolded ps] show ?case
    proof (rule scan_membersE)
      fix s' k r1 r2 v r3 r4 ps'
      assume s: "s = DQUOTE # s'" "scan_string s' = Some (k, r1)" "skip_ws r1 = CHR '':'' # r2"
        "scan_value (Suc n) (skip_ws r2) = Some (v, r3)" "qs = (k, v) # ps'"
        and e: "skip_ws r3 = CHR ''}'' # r \<and> ps' = [] \<or> skip_ws r3 = CHR '','' # r4 \<and> scan_members (Suc n) (skip_ws r4) = Some (ps', r)"
      have l2: "length (skip_ws r2) < length s'"
        using scan_string_length [OF s(2)] skip_ws_Cons [OF s(3)] skip_ws_length [of r2] by simp
      have l3: "length r3 < length s'" using scan_length(1) [OF s(4)] l2 by simp
      have l4: "length (skip_ws r4) < length s'" if "skip_ws r3 = CHR '','' # r4"
        using l3 skip_ws_Cons [OF that] skip_ws_length [of r4] by simp
      have n: "2 * length s' + 1 < n" using 2(2) s(1) by simp
      show ?thesis unfolding ps s(1,5)
      proof (rule scan_membersI [OF s(2,3)])
        show "scan_value n (skip_ws r2) = Some (v, r3)" using Suc.IH(1) [OF s(4)] l2 n by simp
        show "skip_ws r3 = CHR ''}'' # r \<and> ps' = [] \<or> skip_ws r3 = CHR '','' # r4 \<and> scan_members n (skip_ws r4) = Some (ps', r)"
          using e Suc.IH(2) [of "skip_ws r4" "(ps', r)"] l4 n by auto
      qed
    qed
  next
    case 3
    obtain xs r where vs: "vs = (xs, r)" by force
    from 3(1) [unfolded vs] show ?case
    proof (rule scan_elementsE)
      fix v r1 r2 vs'
      assume s: "scan_value (Suc n) s = Some (v, r1)" "xs = v # vs'"
        and e: "skip_ws r1 = CHR '']'' # r \<and> vs' = [] \<or> skip_ws r1 = CHR '','' # r2 \<and> scan_elements (Suc n) (skip_ws r2) = Some (vs', r)"
      have l2: "length (skip_ws r2) < length s" if "skip_ws r1 = CHR '','' # r2"
        using scan_length(1) [OF s(1)] skip_ws_Cons [OF that] skip_ws_length [of r2] by simp
      show ?thesis unfolding vs s(2)
      proof (rule scan_elementsI)
        show "scan_value n s = Some (v, r1)" using Suc.IH(1) [OF s(1)] 3(2) by simp
        show "skip_ws r1 = CHR '']'' # r \<and> vs' = [] \<or> skip_ws r1 = CHR '','' # r2 \<and> scan_elements n (skip_ws r2) = Some (vs', r)"
          using e Suc.IH(3) [of "skip_ws r2" "(vs', r)"] l2 3(2) by auto
      qed
    qed
  }
qed simp_all

lemma scan_fuel_enough:
  assumes "scan_fuel s \<le> n"
  shows "scan_value n s = scan_value (scan_fuel s) s"
  using assms
proof (induction rule: dec_induct)
  case (step n)
  have "scan_value (Suc n) s = scan_value n s"
  proof (cases "scan_value (Suc n) s")
    case None
    then show ?thesis using scan_more(1) [of n s] by (cases "scan_value n s") auto
  next
    case (Some y)
    then show ?thesis using scan_less(1) [OF Some] step(1) by (simp add: scan_fuel_def)
  qed
  with step.IH show ?case by simp
qed simp

section \<open>Scanning in front of more text\<close>

text \<open>A number may go on in the text that follows, unless a character that ends it was seen.\<close>

definition ends_number :: "string \<Rightarrow> bool" where
  "ends_number r \<longleftrightarrow> r \<noteq> [] \<and> hd r \<notin> {CHR ''.'', CHR ''e'', CHR ''E''}"

definition settled :: "json \<Rightarrow> string \<Rightarrow> bool" where
  "settled v r \<longleftrightarrow> (case v of JInt i \<Rightarrow> ends_number r | JFloat q \<Rightarrow> ends_number r | _ \<Rightarrow> True)"

lemma scan_string_append: "scan_string s = Some (u, r) \<Longrightarrow> scan_string (s @ t) = Some (u, r @ t)"
proof (induction s arbitrary: u r rule: scan_string.induct)
  case (2 c s)
  consider "c = DQUOTE" | "c \<noteq> DQUOTE" "c \<noteq> BACKSLASH" | "c = BACKSLASH" by blast
  then show ?case
  proof cases
    case 2
    with "2.prems" have "\<not> (of_char c :: nat) < 32" by (auto split: if_splits)
    with 2 "2.prems" "2.IH"(1) show ?thesis by (auto simp: cons_char_Some)
  next
    case 3
    have b: "c \<noteq> DQUOTE" "\<not> (of_char c :: nat) < 32" "\<not> c \<noteq> BACKSLASH" using 3 by simp_all
    obtain e s' where s: "s = e # s'" using 3 "2.prems" by (cases s) simp_all
    show ?thesis
    proof (cases "e = CHR ''u''")
      case False
      with 3 s "2.prems" "2.IH"(2) [OF b s] show ?thesis by (auto simp: cons_char_Some split: option.splits)
    next
      case True
      obtain h1 h2 h3 h4 s2 where s': "s' = h1 # h2 # h3 # h4 # s2"
        using 3 True s "2.prems" by (auto split: list.splits)
      with 3 s True "2.prems" have h: "h1 = CHR ''0'' \<and> h2 = CHR ''0'' \<and> is_hexdigit h3 \<and> is_hexdigit h4"
        by (simp split: if_splits)
      have nu: "\<not> e \<noteq> CHR ''u''" using True by simp
      from 3 s True s' h "2.prems" "2.IH"(3) [OF b s nu s' refl refl refl h] show ?thesis
        by (auto simp: cons_char_Some)
    qed
  qed (use "2.prems" in simp)
qed simp

definition stops :: "string \<Rightarrow> bool" where
  "stops t \<longleftrightarrow> t = [] \<or> \<not> is_digit (hd t) \<and> hd t \<notin> {CHR ''.'', CHR ''e'', CHR ''E''}"

definition cut_ok :: "string \<Rightarrow> string \<Rightarrow> bool" where
  "cut_ok r t \<longleftrightarrow> r \<noteq> [] \<or> t = [] \<or> \<not> is_digit (hd t)"

lemma scan_digits_append: "scan_digits s = Some (u, r) \<Longrightarrow> cut_ok r t \<Longrightarrow> scan_digits (s @ t) = Some (u, r @ t)"
  unfolding scan_digits_def cut_ok_def
  by (cases s; cases t)
    (auto simp: takeWhile_append dropWhile_append intro!: takeWhile_eq_all_conv [THEN iffD2, symmetric] split: if_splits)

lemma scan_int_append: "scan_int s = Some (u, r) \<Longrightarrow> cut_ok r t \<Longrightarrow> scan_int (s @ t) = Some (u, r @ t)"
  using scan_digits_append [of s u r t] unfolding scan_int_def by (cases s) (auto split: if_splits)

lemma scan_frac_append:
  "scan_frac s = Some (u, r) \<Longrightarrow> cut_ok r t \<Longrightarrow> scan_frac (s @ t) = Some (u, r @ t)"
  "s = [] \<or> hd s \<noteq> CHR ''.'' \<Longrightarrow> scan_frac s = None"
  unfolding scan_frac_def by (cases s; auto simp: scan_digits_append split: if_splits)+

lemma scan_sign_append: "scan_sign s = (b, r) \<Longrightarrow> s \<noteq> [] \<Longrightarrow> scan_sign (s @ t) = (b, r @ t)"
  unfolding scan_sign_def by (cases s) (auto split: if_splits)

lemma scan_exp_append:
  "scan_exp s = Some (u, r) \<Longrightarrow> cut_ok r t \<Longrightarrow> scan_exp (s @ t) = Some (u, r @ t)"
  "s = [] \<or> hd s \<notin> {CHR ''e'', CHR ''E''} \<Longrightarrow> scan_exp s = None"
proof -
  assume a: "scan_exp s = Some (u, r)" "cut_ok r t"
  then obtain c s' where s: "s = c # s'" "c = CHR ''e'' \<or> c = CHR ''E''"
    by (cases s) (auto simp: scan_exp_def split: if_splits)
  obtain b s2 where sign: "scan_sign s' = (b, s2)" by force
  with a s obtain ds where ds: "scan_digits s2 = Some (ds, r)" "u = (if b then - int (digits_val ds) else int (digits_val ds))"
    by (auto simp: scan_exp_def)
  then have "s' \<noteq> []" using sign by (auto simp: scan_sign_def scan_digits_def)
  then show "scan_exp (s @ t) = Some (u, r @ t)"
    using s scan_sign_append [OF sign] scan_digits_append [OF ds(1) a(2)] ds(2) by (auto simp: scan_exp_def)
next
  show "s = [] \<or> hd s \<notin> {CHR ''e'', CHR ''E''} \<Longrightarrow> scan_exp s = None"
    unfolding scan_exp_def by (cases s) auto
qed

lemma scan_frac_exp:
  "scan_frac s = Some x \<Longrightarrow> s \<noteq> [] \<and> hd s = CHR ''.''"
  "scan_exp s = Some y \<Longrightarrow> s \<noteq> [] \<and> hd s \<in> {CHR ''e'', CHR ''E''}"
  by (cases s; auto simp: scan_frac_def scan_exp_def split: if_splits)+

definition add_rest :: "string \<Rightarrow> 'a \<times> string \<Rightarrow> 'a \<times> string" where
  "add_rest t = (\<lambda>(x, r). (x, r @ t))"

lemma scan_number_cut:
  assumes "scan_number s = Some (v, r)" and cut: "cut_ok r t"
    and hd: "r @ t = [] \<or> hd (r @ t) \<notin> {CHR ''.'', CHR ''e'', CHR ''E''}"
  shows "scan_number (s @ t) = Some (v, r @ t)"
proof -
  define neg where "neg = (s \<noteq> [] \<and> hd s = CHR ''-'')"
  define s1 where "s1 = (if neg then tl s else s)"
  obtain ip r1 where ip: "scan_int s1 = Some (ip, r1)"
    using assms(1) by (cases "scan_int s1") (auto simp: scan_number_def s1_def neg_def Let_def)
  define fp where "fp = map_option fst (scan_frac r1)"
  define r2 where "r2 = (case scan_frac r1 of None \<Rightarrow> r1 | Some (ds, r) \<Rightarrow> r)"
  define ep where "ep = map_option fst (scan_exp r2)"
  have val: "v = (if fp = None \<and> ep = None then JInt (if neg then - int (digits_val ip) else int (digits_val ip))
                 else JFloat (fl (decimal neg ip (get_default fp []) (get_default ep 0))))"
    and r: "r = (case scan_exp r2 of None \<Rightarrow> r2 | Some (e, r) \<Rightarrow> r)"
    using assms(1) ip unfolding scan_number_def fp_def r2_def ep_def s1_def neg_def
    by (auto simp: Let_def split: option.splits)
  have e: "scan_exp (r2 @ t) = map_option (add_rest t) (scan_exp r2)" and cut2: "cut_ok r2 t"
    and hd2: "r2 @ t = [] \<or> hd (r2 @ t) \<noteq> CHR ''.''"
  proof -
    show "scan_exp (r2 @ t) = map_option (add_rest t) (scan_exp r2)"
    proof (cases "scan_exp r2")
      case None
      with r hd show ?thesis using scan_exp_append(2) [of "r2 @ t"] by auto
    next
      case (Some y)
      with r cut show ?thesis using scan_exp_append(1) [of r2 "fst y" r t] by (cases y) (simp add: add_rest_def)
    qed
    show "cut_ok r2 t" "r2 @ t = [] \<or> hd (r2 @ t) \<noteq> CHR ''.''"
      using r cut hd scan_frac_exp(2) [of r2] by (cases "scan_exp r2"; auto simp: cut_ok_def)+
  qed
  have f: "scan_frac (r1 @ t) = map_option (add_rest t) (scan_frac r1)" and cut1: "cut_ok r1 t"
  proof -
    show "scan_frac (r1 @ t) = map_option (add_rest t) (scan_frac r1)"
    proof (cases "scan_frac r1")
      case None
      with hd2 show ?thesis using scan_frac_append(2) [of "r1 @ t"] by (simp add: r2_def)
    next
      case (Some y)
      with cut2 show ?thesis using scan_frac_append(1) [of r1 "fst y" r2 t] by (cases y) (simp add: add_rest_def r2_def)
    qed
    show "cut_ok r1 t" using cut2 scan_frac_exp(1) [of r1] by (cases "scan_frac r1") (auto simp: r2_def cut_ok_def)
  qed
  have "s \<noteq> []" using ip by (auto simp: s1_def scan_int_def split: if_splits)
  then have n: "(s @ t \<noteq> [] \<and> hd (s @ t) = CHR ''-'') = neg" "(if neg then tl (s @ t) else s @ t) = s1 @ t"
    by (auto simp: neg_def s1_def)
  have "(case scan_frac (r1 @ t) of None \<Rightarrow> (None, r1 @ t) | Some (ds, r) \<Rightarrow> (Some ds, r)) = (fp, r2 @ t)"
    unfolding f fp_def r2_def by (cases "scan_frac r1") (simp_all add: add_rest_def split: prod.split)
  moreover have "(case scan_exp (r2 @ t) of None \<Rightarrow> (None, r2 @ t) | Some (x, r) \<Rightarrow> (Some x, r)) = (ep, r @ t)"
    unfolding e ep_def r by (cases "scan_exp r2") (simp_all add: add_rest_def split: prod.split)
  ultimately show ?thesis
    unfolding scan_number_def Let_def n scan_int_append [OF ip cut1] val by (simp only: option.case prod.case)
qed

lemma scan_number_append:
  "scan_number s = Some (v, r) \<Longrightarrow> ends_number r \<Longrightarrow> scan_number (s @ t) = Some (v, r @ t)"
  by (rule scan_number_cut) (auto simp: ends_number_def cut_ok_def)

lemma scan_number_stops: "scan_number s = Some (v, []) \<Longrightarrow> stops t \<Longrightarrow> scan_number (s @ t) = Some (v, t)"
  using scan_number_cut [of s v "[]" t] by (auto simp: stops_def cut_ok_def)

lemma startswith_append: "startswith s p \<Longrightarrow> startswith (s @ t) p"
  by (auto simp: startswith_iff)

lemma scan_number_hd: "scan_number s = Some y \<Longrightarrow> s \<noteq> [] \<and> (is_digit (hd s) \<or> hd s = CHR ''-'')"
  by (cases s) (auto simp: scan_number_def scan_int_def scan_digits_def is_digit_def Let_def split: if_splits option.splits list.splits)

lemma scan_scalar_number: "scan_number s = Some y \<Longrightarrow> scan_scalar s = Some y"
  using scan_number_hd [of s y] by (cases s) (auto simp: scan_scalar_def is_digit_def)

lemma scan_scalar_append:
  assumes "scan_scalar s = Some (v, r)" and "settled v r"
  shows "scan_scalar (s @ t) = Some (v, r @ t)"
proof (cases "startswith s ''null'' \<or> startswith s ''true'' \<or> startswith s ''false''")
  case True
  then show ?thesis using assms(1)
    by (auto simp: scan_scalar_def startswith_iff)
next
  case False
  with assms(1) have n: "scan_number s = Some (v, r)" by (simp add: scan_scalar_def)
  then have "ends_number r" using assms(2)
    by (auto simp: settled_def scan_number_def Let_def split: option.splits prod.splits if_splits)
  from scan_number_append [OF n this] show ?thesis by (rule scan_scalar_number)
qed

lemma skip_ws_ends: "skip_ws r = c # r' \<Longrightarrow> c \<notin> {CHR ''.'', CHR ''e'', CHR ''E''} \<Longrightarrow> ends_number r"
  by (cases r) (auto simp: skip_ws_def ends_number_def json_ws_def split: if_splits)

lemma settled_ends: "ends_number r \<Longrightarrow> settled v r"
  by (simp add: settled_def split: json.split)

lemma settled_simps [simp]: "settled (JStr s) r" "settled (JDict d) r" "settled (JList xs) r"
  "settled JNull r" "settled (JBool b) r"
  by (simp_all add: settled_def)

lemma scan_append:
  "scan_value n s = Some (v, r) \<Longrightarrow> settled v r \<Longrightarrow> scan_value n (s @ t) = Some (v, r @ t)"
  "scan_members n s = Some (ps, r) \<Longrightarrow> scan_members n (s @ t) = Some (ps, r @ t)"
  "scan_elements n s = Some (vs, r) \<Longrightarrow> scan_elements n (s @ t) = Some (vs, r @ t)"
proof (induction n arbitrary: s v ps vs r)
  case (Suc n)
  {
    case 1
    from 1(1) show ?case
    proof (cases rule: scan_valueE)
      case (str s' u)
      then show ?thesis by (simp add: scan_string_append)
    next
      case (dict0 s')
      then show ?thesis using skip_ws_append [of s' t] by simp
    next
      case (dict s' d s'' ps)
      then have "scan_members n (d # s'' @ t) = Some (ps, r @ t)" using Suc.IH(2) [of "d # s''"] by simp
      with dict show ?thesis using skip_ws_append [of s' t] by (simp add: dict(1) del: scan_members.simps)
    next
      case (list0 s')
      then show ?thesis using skip_ws_append [of s' t] by simp
    next
      case (list s' d s'' xs)
      then have "scan_elements n (d # s'' @ t) = Some (xs, r @ t)" using Suc.IH(3) [of "d # s''"] by simp
      with list show ?thesis using skip_ws_append [of s' t] by (simp add: list(1))
    next
      case (scalar c s')
      then show ?thesis using scan_scalar_append [OF scalar(5) 1(2), of t] by simp
    qed
  next
    case 2
    then show ?case
    proof (rule scan_membersE)
      fix s' k r1 r2 v r3 r4 ps'
      assume s: "s = DQUOTE # s'" "scan_string s' = Some (k, r1)" "skip_ws r1 = CHR '':'' # r2"
        "scan_value n (skip_ws r2) = Some (v, r3)" "ps = (k, v) # ps'"
        and e: "skip_ws r3 = CHR ''}'' # r \<and> ps' = [] \<or> skip_ws r3 = CHR '','' # r4 \<and> scan_members n (skip_ws r4) = Some (ps', r)"
      have "skip_ws r2 \<noteq> []" using s(4) scan_length(1) [OF s(4)] by auto
      then have 2: "skip_ws (r2 @ t) = skip_ws r2 @ t" by (rule skip_ws_append)
      have "ends_number r3" using e by (auto intro: skip_ws_ends)
      with Suc.IH(1) [OF s(4)] 2 have 3: "scan_value n (skip_ws (r2 @ t)) = Some (v, r3 @ t)" by (simp add: settled_ends)
      have 4: "skip_ws (r4 @ t) = skip_ws r4 @ t" if "scan_members n (skip_ws r4) = Some (ps', r)"
        using scan_length(2) [OF that] by (intro skip_ws_append) auto
      have "skip_ws (r3 @ t) = CHR ''}'' # r @ t \<and> ps' = [] \<or>
          skip_ws (r3 @ t) = CHR '','' # r4 @ t \<and> scan_members n (skip_ws (r4 @ t)) = Some (ps', r @ t)"
        using e 4 Suc.IH(2) [of "skip_ws r4" ps' r] skip_ws_append [of r3 t] by auto
      from scan_membersI [OF scan_string_append [OF s(2)] _ 3 this] show ?thesis
        unfolding s(1,5) using s(3) skip_ws_append [of r1 t] by simp
    qed
  next
    case 3
    then show ?case
    proof (rule scan_elementsE)
      fix v r1 r2 vs'
      assume s: "scan_value n s = Some (v, r1)" "vs = v # vs'"
        and e: "skip_ws r1 = CHR '']'' # r \<and> vs' = [] \<or> skip_ws r1 = CHR '','' # r2 \<and> scan_elements n (skip_ws r2) = Some (vs', r)"
      have "ends_number r1" using e by (auto intro: skip_ws_ends)
      with Suc.IH(1) [OF s(1)] have 1: "scan_value n (s @ t) = Some (v, r1 @ t)" by (simp add: settled_ends)
      have 2: "skip_ws (r2 @ t) = skip_ws r2 @ t" if "scan_elements n (skip_ws r2) = Some (vs', r)"
        using scan_length(3) [OF that] by (intro skip_ws_append) auto
      have "skip_ws (r1 @ t) = CHR '']'' # r @ t \<and> vs' = [] \<or>
          skip_ws (r1 @ t) = CHR '','' # r2 @ t \<and> scan_elements n (skip_ws (r2 @ t)) = Some (vs', r @ t)"
        using e 2 Suc.IH(3) [of "skip_ws r2" vs' r] skip_ws_append [of r1 t] by auto
      from scan_elementsI [OF 1 this] show ?thesis unfolding s(2) .
    qed
  }
qed simp_all

section \<open>Prefixes of an object or a list\<close>

definition is_container :: "json \<Rightarrow> bool" where
  "is_container v \<longleftrightarrow> (\<exists>d. v = JDict d) \<or> (\<exists>xs. v = JList xs)"

lemma fuel_mono: "length s \<le> length u \<Longrightarrow> scan_fuel s \<le> scan_fuel u"
  by (simp add: scan_fuel_def)

lemma json_loads_Some:
  "json_loads s = Some v \<longleftrightarrow> (\<exists>r. scan_value (scan_fuel s) (skip_ws s) = Some (v, r) \<and> skip_ws r = [])"
  by (auto simp: json_loads_def bind_eq_Some_conv split: if_splits)

lemma container_hd: "is_container v \<Longrightarrow> scan_value n s = Some (v, r) \<Longrightarrow> hd s = CHR ''{'' \<or> hd s = CHR ''[''"
proof (cases n)
  case (Suc m)
  assume c: "is_container v" and "scan_value n s = Some (v, r)"
  then have "scan_value (Suc m) s = Some (v, r)" by (simp only: Suc)
  then show ?thesis
    by (cases rule: scan_valueE)
      (use c in \<open>auto simp: is_container_def scan_scalar_def scan_number_def Let_def split: if_splits option.splits prod.splits\<close>)
qed simp

lemma hd_container: "scan_value n s = Some (v, r) \<Longrightarrow> hd s = CHR ''{'' \<or> hd s = CHR ''['' \<Longrightarrow> is_container v"
proof (cases n)
  case (Suc m)
  assume "scan_value n s = Some (v, r)" and h: "hd s = CHR ''{'' \<or> hd s = CHR ''[''"
  then have "scan_value (Suc m) s = Some (v, r)" by (simp only: Suc)
  then show ?thesis by (cases rule: scan_valueE) (use h in \<open>auto simp: is_container_def\<close>)
qed simp

text \<open>A prefix that decodes at all decodes to the value of the whole text.\<close>

lemma json_loads_prefix:
  assumes "json_loads (p @ q) = Some v" and "is_container v" and "json_loads p = Some u"
  shows "u = v"
proof -
  from assms(3) obtain r where p: "scan_value (scan_fuel p) (skip_ws p) = Some (u, r)"
    by (auto simp: json_loads_Some)
  from assms(1) obtain r' where pq: "scan_value (scan_fuel (p @ q)) (skip_ws (p @ q)) = Some (v, r')"
    by (auto simp: json_loads_Some)
  have ne: "skip_ws p \<noteq> []" using scan_length(1) [OF p] by auto
  have "hd (skip_ws p) = hd (skip_ws (p @ q))" using ne by (simp add: skip_ws_append)
  with container_hd [OF assms(2) pq] hd_container [OF p] have "is_container u" by simp
  then have "settled u r" by (auto simp: is_container_def)
  from scan_append(1) [OF p this] ne have "scan_value (scan_fuel p) (skip_ws (p @ q)) = Some (u, r @ q)"
    by (simp add: skip_ws_append)
  with scan_mono [OF fuel_mono this, of "p @ q"] pq show ?thesis by simp
qed

lemma decode_utf8_prefix:
  "decode_utf8 (p @ q) = Some w \<Longrightarrow> decode_utf8 p = Some u \<Longrightarrow> \<exists>x. w = u @ x"
proof (induction p arbitrary: w u rule: decode_utf8.induct)
  case (2 c s)
  show ?case
  proof (cases "(of_char c :: nat) < 128")
    case True
    with "2.prems" "2.IH"(1) [OF refl True] show ?thesis by fastforce
  next
    case False
    then obtain d s' where s: "s = d # s'" using "2.prems"(2) by (cases s) (simp_all add: Let_def split: if_splits)
    have n: "(of_char c :: nat) = 194 \<or> (of_char c :: nat) = 195" and m: "128 \<le> (of_char d :: nat) \<and> (of_char d :: nat) < 192"
      using "2.prems"(2) False by (auto simp: Let_def s split: if_splits)
    from "2.prems" "2.IH"(2) [OF refl False n s refl m] False n m show ?thesis by (fastforce simp: s Let_def)
  qed
qed simp

lemma json_bytes_prefix:
  assumes "json_loads_bytes (p @ q) = Some v" and "is_container v" and "json_loads_bytes p = Some u"
  shows "u = v"
proof -
  from assms(1,3) obtain w x where wx: "decode_utf8 (p @ q) = Some w" "json_loads w = Some v"
    "decode_utf8 p = Some x" "json_loads x = Some u"
    by (auto simp: json_loads_bytes_def bind_eq_Some_conv)
  with decode_utf8_prefix [OF wx(1,3)] json_loads_prefix [of x _ v u] assms(2) show ?thesis by blast
qed

section \<open>Reading back what was written\<close>

text \<open>Strings.\<close>

lemma hex_digits:
  assumes "n < 256"
  shows "is_hexdigit (hex_char (n div 16)) \<and> is_hexdigit (hex_char (n mod 16)) \<and>
    16 * hex_val (hex_char (n div 16)) + hex_val (hex_char (n mod 16)) = n"
proof -
  have "n div 16 < 16" "n mod 16 < 16" using assms by (simp_all add: less_mult_imp_div_less)
  then show ?thesis by simp
qed

lemma scan_esc_char: "scan_string (esc_char c @ r) = cons_char c (scan_string r)"
proof -
  have n: "(of_char c :: nat) < 256" using nat_of_char_less_256 by simp
  note d = hex_digits [OF n]
  have "char_of (of_char c :: nat) = c" by simp
  with d show ?thesis
    by (auto simp: esc_char_def hex2_def unescape_def)
qed

lemma scan_enc_string: "scan_string (concat (map esc_char s) @ DQUOTE # r) = Some (s, r)"
proof (induction s)
  case (Cons c s)
  have "scan_string (esc_char c @ concat (map esc_char s) @ DQUOTE # r) = cons_char c (Some (s, r))"
    by (subst scan_esc_char) (simp only: Cons.IH)
  then show ?case by (simp add: cons_char_def)
qed simp

text \<open>Integers.\<close>

lemma digits_val_append: "digits_val (ds @ [c]) = 10 * digits_val ds + digit_val c"
  by (simp add: digits_val_def)

lemma digits_val_show_nat: "digits_val (show_nat n) = n"
proof (induction n rule: show_nat.induct)
  case (1 n)
  show ?case
  proof (cases "n < 10")
    case True
    then show ?thesis by (simp add: show_nat.simps [of n] digits_val_def)
  next
    case False
    with 1 show ?thesis by (subst show_nat.simps) (simp add: digits_val_append)
  qed
qed

lemma show_nat_hd_zero: "n \<noteq> 0 \<Longrightarrow> hd (show_nat n) \<noteq> CHR ''0''"
proof (induction n rule: show_nat.induct)
  case (1 n)
  show ?case
  proof (cases "n < 10")
    case True
    have "of_char (digit_char n) \<noteq> (of_char (CHR ''0'') :: nat)" using True "1.prems" by (simp add: of_char_digit_char)
    then have "digit_char n \<noteq> CHR ''0''" by metis
    with True show ?thesis by (simp add: show_nat.simps [of n])
  next
    case False
    with 1 show ?thesis by (subst show_nat.simps) simp
  qed
qed

lemma digit_char_0: "digit_char 0 = CHR ''0''"
  by code_simp

lemma scan_int_show: "scan_int (show_nat n) = Some (show_nat n, [])"
proof (cases "n = 0")
  case True
  then show ?thesis by (simp add: show_nat.simps scan_int_def digit_char_0)
next
  case False
  have d: "\<forall>c \<in> set (show_nat n). is_digit c" by (rule show_nat_digits)
  obtain c cs where c: "show_nat n = c # cs" by (cases "show_nat n") simp_all
  with show_nat_hd_zero [OF False] have "c \<noteq> CHR ''0''" by simp
  moreover have "takeWhile is_digit (show_nat n) = show_nat n" "dropWhile is_digit (show_nat n) = []"
    using d by (simp_all add: takeWhile_eq_all_conv dropWhile_eq_Nil_conv)
  ultimately show ?thesis using d by (simp add: scan_int_def scan_digits_def c)
qed

lemma digit_not_minus: "is_digit c \<Longrightarrow> c \<noteq> CHR ''-''"
  by auto

lemma scan_show_int: "scan_number (show_int i) = Some (JInt i, [])"
proof -
  have m: "hd (show_nat m) \<noteq> CHR ''-''" for m
    using show_nat_hd [of m] by (elim exE conjE) (auto dest: digit_not_minus)
  show ?thesis
    using m [of "nat i"] scan_int_show
    by (auto simp: scan_number_def show_int_def Let_def scan_frac_def scan_exp_def digits_val_show_nat)
qed

text \<open>
  What the decoder makes of a value: keys are strings, and of keys with the same text the last value
  stays. Floats must be written so that they read back (\<open>float(repr(x)) == x\<close>).
\<close>

fun json_norm :: "(rat \<Rightarrow> string) \<Rightarrow> json \<Rightarrow> json" where
  "json_norm repr (JList xs) = JList (map (json_norm repr) xs)"
| "json_norm repr (JDict d) = JDict (object_of (map (\<lambda>(k, v). (key_name repr k, json_norm repr v)) d))"
| "json_norm repr v = v"

fun floats_read :: "(rat \<Rightarrow> string) \<Rightarrow> json \<Rightarrow> bool" where
  "floats_read repr (JFloat q) = (scan_number (repr q) = Some (JFloat q, []))"
| "floats_read repr (JList xs) = list_all (floats_read repr) xs"
| "floats_read repr (JDict d) = list_all (\<lambda>(k, v). floats_read repr v) d"
| "floats_read repr v = True"

definition format_ok :: "json_format \<Rightarrow> bool" where
  "format_ok f \<longleftrightarrow> item_sep f \<in> {'','', '', ''} \<and> key_sep f \<in> {'':'', '': ''}"

lemma format_ok_simps [simp]: "format_ok default_format" "format_ok compact_format" "format_ok (indent_format n)"
  by (simp_all add: format_ok_def default_format_def compact_format_def indent_format_def)

text \<open>Scanning with some amount of fuel, which may be raised.\<close>

definition reads :: "string \<Rightarrow> json \<Rightarrow> string \<Rightarrow> bool" where
  "reads s v r \<longleftrightarrow> (\<exists>n. \<forall>m \<ge> n. scan_value m s = Some (v, r))"

definition reads_members :: "string \<Rightarrow> (string \<times> json) list \<Rightarrow> string \<Rightarrow> bool" where
  "reads_members s ps r \<longleftrightarrow> (\<exists>n. \<forall>m \<ge> n. scan_members m s = Some (ps, r))"

definition reads_elements :: "string \<Rightarrow> json list \<Rightarrow> string \<Rightarrow> bool" where
  "reads_elements s vs r \<longleftrightarrow> (\<exists>n. \<forall>m \<ge> n. scan_elements m s = Some (vs, r))"

lemma reads_fuel: "reads s v r \<Longrightarrow> scan_fuel s \<le> n \<Longrightarrow> scan_value n s = Some (v, r)"
proof -
  assume "reads s v r" and n: "scan_fuel s \<le> n"
  then obtain k where "\<forall>m \<ge> k. scan_value m s = Some (v, r)" unfolding reads_def by blast
  then have "scan_value (max n k) s = Some (v, r)" by simp
  with scan_fuel_enough [of s "max n k"] scan_fuel_enough [OF n] n show ?thesis by simp
qed

lemma Suc_le_obtain:
  assumes "Suc n \<le> m" obtains k where "m = Suc k" and "n \<le> k"
  using assms by (cases m) auto

lemma readsI: "(\<And>n. scan_value (Suc n) s = Some (v, r)) \<Longrightarrow> reads s v r"
  unfolding reads_def by (metis Suc_le_D)

lemma reads_list:
  assumes "skip_ws s = c # s'" and "c \<noteq> CHR '']''" and "reads_elements (c # s') vs r"
  shows "reads (CHR ''['' # s) (JList vs) r"
proof -
  from assms(3) obtain n where "\<forall>m \<ge> n. scan_elements m (c # s') = Some (vs, r)" unfolding reads_elements_def by blast
  then have "\<forall>m \<ge> Suc n. scan_value m (CHR ''['' # s) = Some (JList vs, r)"
    using assms(1,2) by (auto elim!: Suc_le_obtain simp del: scan_elements.simps)
  then show ?thesis unfolding reads_def by blast
qed

lemma reads_dict:
  assumes "skip_ws s = c # s'" and "c \<noteq> CHR ''}''" and "reads_members (c # s') ps r"
  shows "reads (CHR ''{'' # s) (JDict (object_of ps)) r"
proof -
  from assms(3) obtain n where "\<forall>m \<ge> n. scan_members m (c # s') = Some (ps, r)" unfolding reads_members_def by blast
  then have "\<forall>m \<ge> Suc n. scan_value m (CHR ''{'' # s) = Some (JDict (object_of ps), r)"
    using assms(1,2) by (auto elim!: Suc_le_obtain simp del: scan_members.simps)
  then show ?thesis unfolding reads_def by blast
qed

lemma reads_element:
  assumes "reads s v r1"
    and "skip_ws r1 = CHR '']'' # r \<and> vs = [] \<or> skip_ws r1 = CHR '','' # r2 \<and> reads_elements (skip_ws r2) vs r"
  shows "reads_elements s (v # vs) r"
proof -
  from assms(1) obtain n where n: "\<forall>m \<ge> n. scan_value m s = Some (v, r1)" unfolding reads_def by blast
  have "\<exists>k. \<forall>m \<ge> k. skip_ws r1 = CHR '']'' # r \<and> vs = [] \<or> skip_ws r1 = CHR '','' # r2 \<and> scan_elements m (skip_ws r2) = Some (vs, r)"
    using assms(2) unfolding reads_elements_def by blast
  then obtain k where k: "\<forall>m \<ge> k. skip_ws r1 = CHR '']'' # r \<and> vs = [] \<or>
      skip_ws r1 = CHR '','' # r2 \<and> scan_elements m (skip_ws r2) = Some (vs, r)" by (elim exE)
  have "scan_elements m s = Some (v # vs, r)" if "Suc (max n k) \<le> m" for m
    using that
  proof (rule Suc_le_obtain)
    fix i
    assume i: "m = Suc i" "max n k \<le> i"
    show ?thesis unfolding i(1) using n k i(2) by (intro scan_elementsI [where ?r1.0 = r1 and ?r2.0 = r2]) simp_all
  qed
  then show ?thesis unfolding reads_elements_def by blast
qed

lemma reads_member:
  assumes "scan_string s = Some (k, r1)" and "skip_ws r1 = CHR '':'' # r2" and "reads (skip_ws r2) v r3"
    and "skip_ws r3 = CHR ''}'' # r \<and> ps = [] \<or> skip_ws r3 = CHR '','' # r4 \<and> reads_members (skip_ws r4) ps r"
  shows "reads_members (DQUOTE # s) ((k, v) # ps) r"
proof -
  from assms(3) obtain n where n: "\<forall>m \<ge> n. scan_value m (skip_ws r2) = Some (v, r3)" unfolding reads_def by blast
  have "\<exists>j. \<forall>m \<ge> j. skip_ws r3 = CHR ''}'' # r \<and> ps = [] \<or> skip_ws r3 = CHR '','' # r4 \<and> scan_members m (skip_ws r4) = Some (ps, r)"
    using assms(4) unfolding reads_members_def by blast
  then obtain j where j: "\<forall>m \<ge> j. skip_ws r3 = CHR ''}'' # r \<and> ps = [] \<or>
      skip_ws r3 = CHR '','' # r4 \<and> scan_members m (skip_ws r4) = Some (ps, r)" by (elim exE)
  have "scan_members m (DQUOTE # s) = Some ((k, v) # ps, r)" if "Suc (max n j) \<le> m" for m
    using that
  proof (rule Suc_le_obtain)
    fix i
    assume i: "m = Suc i" "max n j \<le> i"
    show ?thesis unfolding i(1)
      using n j i(2) by (intro scan_membersI [OF assms(1,2), where ?r3.0 = r3 and ?r4.0 = r4]) simp_all
  qed
  then show ?thesis unfolding reads_members_def by blast
qed

text \<open>What an encoded value starts with is no whitespace; whitespace before it is skipped.\<close>

lemma number_hd: "scan_number s = Some y \<Longrightarrow> s \<noteq> [] \<and> \<not> json_ws (hd s) \<and> hd s \<notin> {CHR '']'', CHR ''}''}"
  using scan_number_hd [of s y] digit_not_space [of "hd s"] by (auto simp: json_ws_def is_digit_def is_space_def)

lemma enc_hd:
  assumes "floats_read repr v"
  shows "enc_value f repr L v \<noteq> [] \<and> \<not> json_ws (hd (enc_value f repr L v)) \<and> hd (enc_value f repr L v) \<notin> {CHR '']'', CHR ''}''}"
  using assms number_hd [OF scan_show_int] number_hd
  by (cases v) (auto simp: enclose_def enc_string_def json_ws_def)

lemma skip_ws_enc: "floats_read repr v \<Longrightarrow> skip_ws (enc_value f repr L v @ r) = enc_value f repr L v @ r"
  using enc_hd [of repr v f L] by (intro skip_ws_id) (auto simp: hd_append)

lemma skip_newline: "skip_ws (newline_indent f L @ r) = skip_ws r"
proof -
  have "skip_ws (replicate n CHR '' '' @ r) = skip_ws r" for n
    by (induction n) (simp_all add: skip_ws_def)
  then show ?thesis by (simp add: newline_indent_def skip_ws_def split: option.split)
qed

lemma stops_newline: "stops (newline_indent f L @ c # r) \<longleftrightarrow> indentation f \<noteq> None \<or> stops (c # r)"
  by (cases "indentation f") (auto simp: newline_indent_def stops_def is_digit_def)

lemma item_sep_skip: "format_ok f \<Longrightarrow> \<exists>w. item_sep f @ x = CHR '','' # w @ x \<and> skip_ws (w @ x) = skip_ws x"
  by (auto simp: format_ok_def skip_ws_def intro: exI [of _ "[]"] exI [of _ "'' ''"])

lemma key_sep_skip: "format_ok f \<Longrightarrow> \<exists>w. key_sep f @ x = CHR '':'' # w @ x \<and> skip_ws (w @ x) = skip_ws x"
  by (auto simp: format_ok_def skip_ws_def intro: exI [of _ "[]"] exI [of _ "'' ''"])

lemma stops_simps [simp]: "stops []" "stops (CHR '','' # r)" "stops (CHR '']'' # r)" "stops (CHR ''}'' # r)"
  by (simp_all add: stops_def is_digit_def)

definition item_gap :: "json_format \<Rightarrow> nat \<Rightarrow> string" where
  "item_gap f L = item_sep f @ newline_indent f (Suc L)"

lemma gap_skip: "format_ok f \<Longrightarrow> \<exists>w. item_gap f L @ x = CHR '','' # w \<and> skip_ws w = skip_ws x"
  using item_sep_skip [of f "newline_indent f (Suc L) @ x"] by (auto simp: item_gap_def skip_newline)

lemma reads_elements_enc:
  assumes "format_ok f" and "xs \<noteq> []" and "list_all (floats_read repr) xs"
    and "\<And>x r. x \<in> set xs \<Longrightarrow> stops r \<Longrightarrow> reads (enc_value f repr (Suc L) x @ r) (json_norm repr x) r"
  shows "reads_elements (join (item_gap f L) (map (enc_value f repr (Suc L)) xs) @ newline_indent f L @ CHR '']'' # r)
    (map (json_norm repr) xs) r"
  using assms(2-4)
proof (induction xs)
  case (Cons x xs)
  let ?e = "enc_value f repr (Suc L)"
  let ?fin = "newline_indent f L @ CHR '']'' # r"
  show ?case
  proof (cases "xs = []")
    case True
    have "reads (?e x @ ?fin) (json_norm repr x) ?fin"
      by (rule Cons.prems(3)) (simp_all add: stops_newline)
    from reads_element [OF this, of r "[]" "[]"] show ?thesis
      using True by (simp add: skip_newline) (simp add: skip_ws_def)
  next
    case False
    let ?more = "join (item_gap f L) (map ?e xs) @ ?fin"
    obtain w where w: "item_gap f L @ ?more = CHR '','' # w" "skip_ws w = skip_ws ?more"
      using gap_skip [OF assms(1)] by blast
    have "skip_ws ?more = ?more"
      using False Cons.prems(2) skip_ws_enc [of repr "hd xs" f "Suc L"]
      by (cases xs; cases "tl xs") auto
    moreover have "reads_elements ?more (map (json_norm repr) xs) r"
      using False Cons.prems by (intro Cons.IH) auto
    moreover have "reads (?e x @ CHR '','' # w) (json_norm repr x) (CHR '','' # w)"
      by (rule Cons.prems(3)) simp_all
    ultimately have "reads_elements (?e x @ CHR '','' # w) (json_norm repr x # map (json_norm repr) xs) r"
      using w(2) by (intro reads_element [where ?r2.0 = w]) (auto simp: skip_ws_def)
    then show ?thesis using False by (simp add: join_Cons w(1) [symmetric])
  qed
qed simp

definition enc_item :: "json_format \<Rightarrow> (rat \<Rightarrow> string) \<Rightarrow> nat \<Rightarrow> json \<times> json \<Rightarrow> string" where
  "enc_item f repr L = (\<lambda>(k, v). enc_string (key_name repr k) @ key_sep f @ enc_value f repr L v)"

lemma reads_members_enc:
  assumes "format_ok f" and "d \<noteq> []" and "list_all (\<lambda>(k, v). floats_read repr v) d"
    and "\<And>k v r. (k, v) \<in> set d \<Longrightarrow> stops r \<Longrightarrow> reads (enc_value f repr (Suc L) v @ r) (json_norm repr v) r"
  shows "reads_members (join (item_gap f L) (map (enc_item f repr (Suc L)) d) @ newline_indent f L @ CHR ''}'' # r)
    (map (\<lambda>(k, v). (key_name repr k, json_norm repr v)) d) r"
  using assms(2-4)
proof (induction d)
  case (Cons kv d)
  obtain k v where kv: "kv = (k, v)" by force
  let ?e = "enc_value f repr (Suc L)"
  let ?fin = "newline_indent f L @ CHR ''}'' # r"
  let ?name = "key_name repr k"
  let ?n = "map (\<lambda>(k, v). (key_name repr k, json_norm repr v))"
  have fl: "floats_read repr v" using Cons.prems(2) kv by simp
  have item: "reads_members (enc_item f repr (Suc L) kv @ s) ((?name, json_norm repr v) # ps) r"
    if st: "stops s" and s: "skip_ws s = CHR ''}'' # r \<and> ps = [] \<or> skip_ws s = CHR '','' # s' \<and> reads_members (skip_ws s') ps r"
    for s s' ps
  proof -
    obtain w where w: "key_sep f @ ?e v @ s = CHR '':'' # w" "skip_ws w = skip_ws (?e v @ s)"
      using key_sep_skip [OF assms(1), of "?e v @ s"] by auto
    have "reads (skip_ws w) (json_norm repr v) s"
      unfolding w(2) skip_ws_enc [OF fl] by (rule Cons.prems(3) [of k]) (simp_all add: kv st)
    from reads_member [OF scan_enc_string _ this s, of "CHR '':'' # w" ?name]
    show ?thesis by (simp add: enc_item_def kv enc_string_def w(1) skip_ws_def)
  qed
  show ?case
  proof (cases "d = []")
    case True
    have "skip_ws ?fin = CHR ''}'' # r" by (simp add: skip_newline) (simp add: skip_ws_def)
    then show ?thesis using item [of ?fin "[]" "[]"] True by (simp add: kv stops_newline)
  next
    case False
    let ?more = "join (item_gap f L) (map (enc_item f repr (Suc L)) d) @ ?fin"
    obtain w where w: "item_gap f L @ ?more = CHR '','' # w" "skip_ws w = skip_ws ?more"
      using gap_skip [OF assms(1)] by blast
    have "skip_ws ?more = ?more"
      using False by (cases d; cases "tl d") (auto simp: enc_item_def enc_string_def intro!: skip_ws_id)
    moreover have "reads_members ?more (?n d) r"
      using False Cons.prems by (intro Cons.IH) auto
    ultimately have "reads_members (enc_item f repr (Suc L) kv @ CHR '','' # w) ((?name, json_norm repr v) # ?n d) r"
      using w(2) by (intro item [where ?s' = w]) (auto simp: skip_ws_def)
    then show ?thesis using False by (simp add: join_Cons w(1) [symmetric] kv)
  qed
qed simp

lemma object_of_Nil [simp]: "object_of [] = []"
  by (simp add: object_of_def)

text \<open>Every value, in front of a text that does not continue a number.\<close>

lemma reads_scalar:
  assumes "scan_scalar s = Some (v, r)" and "s \<noteq> []" and "hd s \<notin> {DQUOTE, CHR ''{'', CHR ''[''}"
  shows "reads s v r"
  using assms by (cases s) (auto intro!: readsI)

lemma reads_enc:
  assumes "format_ok f" and "floats_read repr v" and "stops r"
  shows "reads (enc_value f repr L v @ r) (json_norm repr v) r"
  using assms(2,3)
proof (induction v arbitrary: L r)
  case (JInt i)
  have "scan_scalar (show_int i @ r) = Some (JInt i, r)"
    using scan_scalar_number [OF scan_number_stops [OF scan_show_int JInt.prems(2)]] .
  with scan_number_hd [OF scan_show_int, of i] show ?case
    by (auto intro!: reads_scalar simp: is_digit_def hd_append)
next
  case (JFloat q)
  then have n: "scan_number (repr q) = Some (JFloat q, [])" by simp
  from scan_scalar_number [OF scan_number_stops [OF n JFloat.prems(2)]] scan_number_hd [OF n] show ?case
    by (auto intro!: reads_scalar simp: is_digit_def hd_append)
next
  case (JStr s)
  show ?case by (rule readsI) (simp add: enc_string_def scan_enc_string)
next
  case (JList xs)
  show ?case
  proof (cases "xs = []")
    case True
    then show ?thesis by (auto intro!: readsI simp: enclose_def skip_ws_def)
  next
    case False
    let ?items = "join (item_gap f L) (map (enc_value f repr (Suc L)) xs) @ newline_indent f L @ CHR '']'' # r"
    have els: "reads_elements ?items (map (json_norm repr) xs) r"
      using JList by (intro reads_elements_enc assms(1) False) (auto simp: list_all_iff)
    obtain x ys where xs: "xs = x # ys" using False by (cases xs) simp
    have "hd ?items = hd (enc_value f repr (Suc L) x) \<and> ?items \<noteq> []"
      using enc_hd [of repr x f "Suc L"] JList.prems(1) by (cases ys) (auto simp: xs hd_append)
    then have hd: "?items \<noteq> []" "\<not> json_ws (hd ?items)" "hd ?items \<noteq> CHR '']''"
      using enc_hd [of repr x f "Suc L"] JList.prems(1) by (auto simp: xs)
    have "skip_ws (newline_indent f (Suc L) @ ?items) = ?items"
      unfolding skip_newline using hd by (intro skip_ws_id) simp
    then have "reads (CHR ''['' # newline_indent f (Suc L) @ ?items) (JList (map (json_norm repr) xs)) r"
      using els hd by (intro reads_list [of _ "hd ?items" "tl ?items"]) simp_all
    then show ?thesis using False by (simp add: enclose_def item_gap_def)
  qed
next
  case (JDict d)
  show ?case
  proof (cases "d = []")
    case True
    then show ?thesis by (auto intro!: readsI simp: enclose_def skip_ws_def)
  next
    case False
    let ?items = "join (item_gap f L) (map (enc_item f repr (Suc L)) d) @ newline_indent f L @ CHR ''}'' # r"
    have mem: "reads_members ?items (map (\<lambda>(k, v). (key_name repr k, json_norm repr v)) d) r"
      using JDict by (intro reads_members_enc assms(1) False) (auto simp: list_all_iff)
    obtain k v ys where d: "d = (k, v) # ys" using False by (cases d) auto
    have hd: "\<exists>s. ?items = DQUOTE # s"
      by (cases ys) (auto simp: d enc_item_def enc_string_def)
    then have "skip_ws (newline_indent f (Suc L) @ ?items) = ?items"
      unfolding skip_newline by (intro skip_ws_id) auto
    then have "reads (CHR ''{'' # newline_indent f (Suc L) @ ?items)
        (JDict (object_of (map (\<lambda>(k, v). (key_name repr k, json_norm repr v)) d))) r"
      using mem hd by (auto intro: reads_dict)
    then show ?thesis using False by (simp add: enclose_def item_gap_def enc_item_def)
  qed
qed (auto intro!: readsI simp: scan_scalar_def)

text \<open>The round trip.\<close>

theorem json_loads_dumps:
  assumes "format_ok f" and "floats_read repr v"
  shows "json_loads (json_dumps f repr v) = Some (json_norm repr v)"
proof -
  let ?s = "json_dumps f repr v"
  have "reads ?s (json_norm repr v) []"
    using reads_enc [OF assms, of "[]" 0] by (simp add: json_dumps_def)
  moreover have "skip_ws ?s = ?s"
    using skip_ws_enc [OF assms(2), of f 0 "[]"] by (simp add: json_dumps_def)
  ultimately show ?thesis by (auto simp: json_loads_Some skip_ws_def reads_fuel)
qed

text \<open>A value whose dictionaries have different strings as their keys is what is read back.\<close>

fun string_keyed :: "json \<Rightarrow> bool" where
  "string_keyed (JList xs) = list_all string_keyed xs"
| "string_keyed (JDict d) =
     (wf_dict d \<and> list_all (\<lambda>(k, v). (case k of JStr s \<Rightarrow> True | _ \<Rightarrow> False) \<and> string_keyed v) d)"
| "string_keyed v = True"

lemma dict_set_new: "k \<notin> set (dict_keys d) \<Longrightarrow> dict_set k v d = d @ [(k, v)]"
  by (induction d) (auto simp: dict_set_def dict_keys_def)

lemma object_of_distinct: "distinct (map fst ps) \<Longrightarrow> object_of ps = map (\<lambda>(k, v). (JStr k, v)) ps"
proof (induction ps rule: rev_induct)
  case (snoc p ps)
  obtain k v where p: "p = (k, v)" by force
  with snoc have "object_of (ps @ [p]) = dict_set (JStr k) v (map (\<lambda>(k, v). (JStr k, v)) ps)"
    by (simp add: object_of_def)
  also have "\<dots> = map (\<lambda>(k, v). (JStr k, v)) ps @ [(JStr k, v)]"
    using snoc.prems by (intro dict_set_new) (force simp: p dict_keys_def)
  finally show ?case by (simp add: p)
qed simp

lemma json_norm_id: "string_keyed v \<Longrightarrow> json_norm repr v = v"
proof (induction v)
  case (JList xs)
  then show ?case by (auto simp: list_all_iff intro!: map_idI)
next
  case (JDict d)
  have key: "JStr (key_name repr k) = k \<and> json_norm repr v = v" if "(k, v) \<in> set d" for k v
    using JDict that by (force simp: list_all_iff split: json.splits)
  let ?ps = "map (\<lambda>(k, v). (key_name repr k, json_norm repr v)) d"
  have "map (\<lambda>(k, v). (JStr k, v)) ?ps = d"
    using key by (auto intro!: map_idI)
  moreover have "map JStr (map fst ?ps) = dict_keys d"
    unfolding dict_keys_def using key by (auto simp: comp_def case_prod_beta)
  then have "distinct (map JStr (map fst ?ps))" using JDict.prems by (simp add: wf_dict_def del: map_map)
  then have "distinct (map fst ?ps)" unfolding distinct_map [of JStr] by blast
  ultimately show ?case by (simp add: object_of_distinct)
qed simp_all

corollary json_loads_dumps_id:
  "format_ok f \<Longrightarrow> floats_read repr v \<Longrightarrow> string_keyed v \<Longrightarrow> json_loads (json_dumps f repr v) = Some v"
  by (simp add: json_loads_dumps json_norm_id)

text \<open>What the decoder gives has only strings as keys, each once; so do the parts of such a value.\<close>

lemma dict_set_all: "list_all P d \<Longrightarrow> P (k, v) \<Longrightarrow> list_all P (dict_set k v d)"
  unfolding dict_set_def by (induction d) auto

lemma object_of_wf: "wf_dict (object_of ps)"
  by (induction ps rule: rev_induct) (auto simp: object_of_def wf_dict_def dict_keys_def dict_set_def distinct_update)

lemma string_keyed_dict_of:
  "list_all (\<lambda>(k, v). string_keyed v) ps \<Longrightarrow> string_keyed (JDict (object_of ps))"
proof -
  have "list_all (\<lambda>(k, v). string_keyed v) ps \<Longrightarrow>
      list_all (\<lambda>(k, v). (case k of JStr s \<Rightarrow> True | _ \<Rightarrow> False) \<and> string_keyed v) (object_of ps)"
    by (induction ps rule: rev_induct) (auto simp: object_of_def intro!: dict_set_all)
  then show "list_all (\<lambda>(k, v). string_keyed v) ps \<Longrightarrow> string_keyed (JDict (object_of ps))"
    by (simp add: object_of_wf)
qed

lemma string_keyed_empty [simp]: "string_keyed (JDict [])"
  by (simp add: wf_dict_def dict_keys_def)

lemma scan_scalar_keyed: "scan_scalar s = Some (v, r) \<Longrightarrow> string_keyed v"
  by (auto simp: scan_scalar_def scan_number_def Let_def split: if_splits option.splits prod.splits)

lemma scan_string_keyed:
  "scan_value n s = Some (v, r) \<Longrightarrow> string_keyed v"
  "scan_members n s = Some (ps, r) \<Longrightarrow> list_all (\<lambda>(k, v). string_keyed v) ps"
  "scan_elements n s = Some (vs, r) \<Longrightarrow> list_all string_keyed vs"
proof (induction n arbitrary: s v ps vs r)
  case (Suc n)
  {
    case 1
    then show ?case
      by (cases rule: scan_valueE)
        (auto dest: Suc.IH scan_scalar_keyed simp: wf_dict_def dict_keys_def simp del: string_keyed.simps(2)
          intro!: string_keyed_dict_of)
  next
    case 2
    then show ?case by (rule scan_membersE) (auto dest: Suc.IH)
  next
    case 3
    then show ?case by (rule scan_elementsE) (auto dest: Suc.IH)
  }
qed simp_all

lemma json_loads_keyed: "json_loads s = Some v \<Longrightarrow> string_keyed v"
  by (auto simp: json_loads_Some dest: scan_string_keyed)

lemma json_loads_bytes_keyed: "json_loads_bytes s = Some v \<Longrightarrow> string_keyed v"
  by (auto simp: json_loads_bytes_def bind_eq_Some_conv dest: json_loads_keyed)

lemma keyed_dict_get: "string_keyed (JDict d) \<Longrightarrow> dict_get d k = Some v \<Longrightarrow> string_keyed v"
  by (auto simp: dict_get_def list_all_iff dest: map_of_SomeD)

lemma keyed_jget: "string_keyed v \<Longrightarrow> jget v k = Inr x \<Longrightarrow> string_keyed x"
  unfolding jget_Inr by (auto simp del: string_keyed.simps intro: keyed_dict_get)

lemma keyed_jget_dflt: "string_keyed v \<Longrightarrow> jget_dflt v k d = Inr x \<Longrightarrow> string_keyed d \<Longrightarrow> string_keyed x"
  by (cases v)
    (auto simp: jget_dflt_def get_default_def simp del: string_keyed.simps split: option.splits dest: keyed_dict_get)

lemma keyed_jhead: "string_keyed v \<Longrightarrow> jhead v = Inr x \<Longrightarrow> string_keyed x"
  by (cases v) (auto simp: type_error_def split: list.splits option.splits dest: keyed_dict_get simp del: string_keyed.simps(2))

lemma keyed_jiter: "string_keyed v \<Longrightarrow> jiter v = Inr xs \<Longrightarrow> x \<in> set xs \<Longrightarrow> string_keyed x"
  by (cases v) (force simp: type_error_def list_all_iff dict_keys_def split: json.splits)+

lemma string_keyed_jd: "string_keyed (jd kvs) \<longleftrightarrow> distinct (map fst kvs) \<and> list_all (\<lambda>(k, v). string_keyed v) kvs"
proof -
  have "map fst (map (\<lambda>(k, v). (JStr k, v)) kvs) = map JStr (map fst kvs)" by auto
  moreover have "inj_on JStr A" for A by (simp add: inj_on_def)
  ultimately show ?thesis
    by (auto simp: jd_def wf_dict_def dict_keys_def distinct_map list_all_iff simp del: map_map)
qed

end
