(* ===== verification/Netbox_Lookups.thy ===== *)
theory Netbox_Lookups
  imports PyJsonText_Props
begin

text \<open>
  The execution modules that templates call while they are rendered: \<open>_modules/site_prefixes.py\<close>,
  \<open>_modules/extra_dns_entries.py\<close>, \<open>_modules/netbox_vms.py\<close> and \<open>_modules/cfssl_certs.py\<close>. The package
  \<open>requests\<close> is outside the repository: sending a request is a parameter, an action that gives a reply
  or raises. A reply is what the code reads of it, its status and its decoded body, \<open>None\<close> when the
  body is not JSON. The interface \<open>fail_closed\<close> is what the three Netbox lookups promise to the
  templates.
\<close>

record http_reply =
  rs_status :: int
  rs_reason :: string
  rs_url :: string
  rs_json :: "json option"

type_synonym hdrs = "(string \<times> string) list"
type_synonym 'w rget = "string \<Rightarrow> hdrs \<Rightarrow> ('w, http_reply) act"

text \<open>\<open>raise_for_status()\<close> and \<open>json()\<close> of a reply, as \<open>requests\<close> documents them.\<close>

definition raise_for_status :: "http_reply \<Rightarrow> unit res" where
  "raise_for_status r =
     (let about = rs_reason r @ '' for url: '' @ rs_url r in
      if 400 \<le> rs_status r \<and> rs_status r < 500 then Inl (OSError (show_int (rs_status r) @ '' Client Error: '' @ about))
      else if 500 \<le> rs_status r \<and> rs_status r < 600 then Inl (OSError (show_int (rs_status r) @ '' Server Error: '' @ about))
      else Inr ())"

definition reply_json :: "http_reply \<Rightarrow> json res" where
  "reply_json r = (case rs_json r of None \<Rightarrow> Inl (ValueError ''response body is not JSON'') | Some v \<Rightarrow> Inr v)"

text \<open>\<open>try: response = get(...); raise_for_status(); results = response.json()["results"] except Exception\<close>\<close>

definition try_results :: "('w, http_reply) act \<Rightarrow> (py_exc \<Rightarrow> py_exc) \<Rightarrow> ('w, json) act" where
  "try_results query fail w =
     (case abind query (\<lambda>response.
             abind (alift (raise_for_status response)) (\<lambda>_.
             abind (alift (reply_json response)) (\<lambda>body. alift (jget body ''results'')))) w of
        (Inl exc, w') \<Rightarrow> (Inl (if ordinary exc then fail exc else exc), w')
      | (Inr results, w') \<Rightarrow> (Inr results, w'))"

definition netbox_error :: "string \<Rightarrow> string \<Rightarrow> py_exc \<Rightarrow> py_exc" where
  "netbox_error what url exc =
     CommandExecutionError (what @ '' failed ('' @ url @ ''): '' @ exc_str exc)"

section \<open>site\_prefixes\<close>

definition add_prefix :: "json \<Rightarrow> (json, json) dict \<Rightarrow> (json, json) dict res" where
  "add_prefix prefix prefixes =
     rbind (jget prefix ''description'') (\<lambda>d. rbind (jkey d) (\<lambda>k. Inr (dict_set k prefix prefixes)))"

definition site_prefixes_url :: "string \<Rightarrow> string \<Rightarrow> string" where
  "site_prefixes_url netbox_api flt = netbox_api @ ''/ipam/prefixes/?'' @ flt"

definition get_site_prefixes ::
  "'w rget \<Rightarrow> string \<Rightarrow> string \<Rightarrow> string \<Rightarrow> ('w, (json, json) dict) act" where
  "get_site_prefixes get netbox_api netbox_token flt =
     (let headers = [(''Authorization'', ''Token '' @ netbox_token)];
          url = site_prefixes_url netbox_api flt
      in abind (try_results (get url headers)
                 (netbox_error ''site_prefixes: querying Netbox for prefixes'' url)) (\<lambda>results.
         alift (rbind (jiter results) (\<lambda>xs. rfold add_prefix xs []))))"

section \<open>extra\_dns\_entries\<close>

text \<open>The value of an entry: the keys \<open>address\<close> and \<open>address6\<close> when they are set.\<close>

definition add_address :: "json \<Rightarrow> string \<Rightarrow> string \<Rightarrow> (string, string) dict \<Rightarrow> (string, string) dict res" where
  "add_address host field key entry =
     rbind (jget host field) (\<lambda>ip.
     if jtruth ip then
       rbind (jget ip ''address'') (\<lambda>a. rbind (jsplit_head CHR ''/'' a) (\<lambda>s. Inr (dict_set key s entry)))
     else Inr entry)"

definition add_entry ::
  "json \<Rightarrow> (json, (string, string) dict) dict \<Rightarrow> (json, (string, string) dict) dict res" where
  "add_entry host entries =
     rbind (jget host ''name'') (\<lambda>n. rbind (jkey n) (\<lambda>k.
     rbind (add_address host ''primary_ip4'' ''address'' []) (\<lambda>entry.
     rbind (add_address host ''primary_ip6'' ''address6'' entry) (\<lambda>entry.
     Inr (dict_set k entry entries)))))"

definition extra_dns_url :: "string \<Rightarrow> string \<Rightarrow> string" where
  "extra_dns_url netbox_api flt = netbox_api @ ''/dcim/devices/?'' @ flt"

definition get_extra_dns_entries ::
  "'w rget \<Rightarrow> string \<Rightarrow> string \<Rightarrow> string \<Rightarrow> ('w, (json, (string, string) dict) dict) act" where
  "get_extra_dns_entries get netbox_api netbox_token flt =
     (let headers = [(''Authorization'', ''Token '' @ netbox_token)];
          url = extra_dns_url netbox_api flt
      in abind (try_results (get url headers)
                 (netbox_error ''extra_dns_entries: querying Netbox for devices'' url)) (\<lambda>results.
         alift (rbind (jiter results) (\<lambda>xs. rfold add_entry xs []))))"

section \<open>netbox\_vms\<close>

definition vms_url :: "string \<Rightarrow> string \<Rightarrow> string" where
  "vms_url netbox_api flt = netbox_api @ ''/virtualization/virtual-machines/?'' @ flt"

definition get_vms_by_filter ::
  "'w rget \<Rightarrow> string \<Rightarrow> string \<Rightarrow> string \<Rightarrow> ('w, json list) act" where
  "get_vms_by_filter get netbox_api netbox_token flt =
     (let headers = [(''Authorization'', ''Token '' @ netbox_token), (''Accept'', ''application/json'')];
          url = vms_url netbox_api flt
      in abind (try_results (get url headers)
                 (netbox_error ''netbox_vms: querying Netbox for virtual machines'' url)) (\<lambda>results.
         alift (rbind (jiter results) (rmap (\<lambda>vm. jget vm ''name'')))))"

section \<open>cfssl\_certs\<close>

definition cfssl_virtual :: "bool \<Rightarrow> loader_ret" where
  "cfssl_virtual import_worked =
     (if import_worked then Loaded ''cfssl_certs''
      else Unavailable ''The cfssl_certs execution module cannot be loaded: requests unavailable.'')"

definition cert_dict :: "string \<Rightarrow> json" where
  "cert_dict certname =
     JDict [(JStr ''request'', JDict
       [(JStr ''CN'', JStr certname),
        (JStr ''hosts'', JList [JStr certname]),
        (JStr ''key'', JDict [(JStr ''algo'', JStr ''rsa''), (JStr ''size'', JInt 2048)]),
        (JStr ''names'', JList [JDict [(JStr ''C'', JStr ''DE''), (JStr ''ST'', JStr ''Bavaria''),
           (JStr ''L'', JStr ''Munich''), (JStr ''O'', JStr ''FFMUC'')]])])]"

definition cert_req :: "string \<Rightarrow> string" where
  "cert_req certname = json_dumps default_format (\<lambda>_. []) (cert_dict certname)"

definition request_cert ::
  "(string \<Rightarrow> string \<Rightarrow> hdrs \<Rightarrow> ('w, http_reply) act) \<Rightarrow> string \<Rightarrow> string \<Rightarrow> ('w, json) act" where
  "request_cert post ca_url certname w =
     (let headers = [(''Content-type'', ''application/json'')] in
      case abind (post (ca_url @ ''/api/v1/cfssl/newcert'') (cert_req certname) headers) (\<lambda>r.
             abind (alift (raise_for_status r)) (\<lambda>_.
             abind (alift (reply_json r)) (\<lambda>cert_bundle. alift (jget cert_bundle ''result'')))) w of
        (Inl exc, w') \<Rightarrow> (if ordinary exc then Inr (JBool False) else Inl exc, w')
      | (Inr result, w') \<Rightarrow> (Inr result, w'))"

text \<open>The authority reads the request as it was meant, whatever the name.\<close>

lemma cert_req_read: "json_loads (cert_req certname) = Some (cert_dict certname)"
  unfolding cert_req_def by (rule json_loads_dumps_id) (simp_all add: cert_dict_def wf_dict_def dict_keys_def)

section \<open>The contract of a lookup\<close>

text \<open>A reply with results: no error status, and a JSON body with the key \<open>results\<close>.\<close>

definition gives_results :: "http_reply \<Rightarrow> json \<Rightarrow> bool" where
  "gives_results resp results \<longleftrightarrow> \<not> (400 \<le> rs_status resp \<and> rs_status resp < 600) \<and>
     (\<exists>body. rs_json resp = Some body \<and> jget body ''results'' = Inr results)"

definition no_results :: "http_reply res \<Rightarrow> bool" where
  "no_results a \<longleftrightarrow> (case a of Inl e \<Rightarrow> ordinary e | Inr resp \<Rightarrow> \<nexists>results. gives_results resp results)"

text \<open>
  A lookup asks once. When the reply gives results it gives what \<open>process\<close> makes of them, and on every
  failure of the request, of its status or of its decoding it raises a \<open>CommandExecutionError\<close>, so that
  rendering stops. Only \<open>SystemExit\<close> passes as it is.
\<close>

locale fail_closed =
  fixes lookup :: "('w, http_reply) act \<Rightarrow> ('w, 'r) act"
    and process :: "json \<Rightarrow> 'r res"
  assumes answered: "query w = (Inr resp, w') \<Longrightarrow> gives_results resp results \<Longrightarrow>
      lookup query w = (process results, w')"
    and failed: "query w = (a, w') \<Longrightarrow> no_results a \<Longrightarrow> \<exists>msg. lookup query w = (Inl (CommandExecutionError msg), w')"
    and exits: "query w = (Inl e, w') \<Longrightarrow> \<not> ordinary e \<Longrightarrow> lookup query w = (Inl e, w')"
begin

lemma returns_iff:
  "lookup query w = (Inr r, w') \<longleftrightarrow>
    (\<exists>resp results. query w = (Inr resp, w') \<and> gives_results resp results \<and> process results = Inr r)"
proof (cases "query w")
  case (Pair q w1)
  show ?thesis
  proof (cases q)
    case (Inl e)
    with failed [of query w q w1] exits [of query w e w1] Pair show ?thesis
      by (cases "ordinary e") (auto simp: no_results_def)
  next
    case (Inr resp)
    show ?thesis
    proof (cases "\<exists>results. gives_results resp results")
      case True
      then obtain results where res: "gives_results resp results" by blast
      then have "gives_results resp results' \<longleftrightarrow> results' = results" for results'
        by (auto simp: gives_results_def)
      then show ?thesis using answered [of query w resp w1 results] res Pair Inr by auto
    next
      case False
      with failed [of query w q w1] Pair Inr show ?thesis by (auto simp: no_results_def)
    qed
  qed
qed

lemma no_answer_no_value:
  "no_results (fst (query w)) \<Longrightarrow> \<exists>msg. fst (lookup query w) = Inl (CommandExecutionError msg)"
  using failed [of query w] by (metis prod.collapse fst_conv)

end

lemma jget_ordinary: "jget v k = Inl e \<Longrightarrow> ordinary e"
  by (cases v) (auto simp: type_error_def split: option.splits)

lemma raise_for_status_cases:
  "raise_for_status r = Inr () \<longleftrightarrow> \<not> (400 \<le> rs_status r \<and> rs_status r < 600)"
  "raise_for_status r = Inl e \<Longrightarrow> ordinary e \<and> 400 \<le> rs_status r \<and> rs_status r < 600"
  by (auto simp: raise_for_status_def Let_def split: if_splits)

lemma try_results_laws:
  "query w = (Inr resp, w') \<Longrightarrow> gives_results resp results \<Longrightarrow> try_results query f w = (Inr results, w')"
  "query w = (a, w') \<Longrightarrow> no_results a \<Longrightarrow> \<exists>e. try_results query f w = (Inl (f e), w')"
  "query w = (Inl e, w') \<Longrightarrow> \<not> ordinary e \<Longrightarrow> try_results query f w = (Inl e, w')"
proof -
  show "try_results query f w = (Inr results, w')" if "query w = (Inr resp, w')" "gives_results resp results"
    using that raise_for_status_cases(1) [of resp]
    by (auto simp: try_results_def abind_def alift_def reply_json_def gives_results_def)
  show "\<exists>e. try_results query f w = (Inl (f e), w')" if "query w = (a, w')" "no_results a"
  proof (cases a)
    case (Inl e)
    with that show ?thesis by (auto simp: try_results_def abind_def no_results_def)
  next
    case (Inr resp)
    show ?thesis
    proof (cases "raise_for_status resp")
      case (Inl e)
      with raise_for_status_cases(2) [OF Inl] that \<open>a = Inr resp\<close> show ?thesis
        by (auto simp: try_results_def abind_def alift_def araise_def)
    next
      case ok: (Inr u)
      then have "\<nexists>body results. rs_json resp = Some body \<and> jget body ''results'' = Inr results"
        using that(2) \<open>a = Inr resp\<close> raise_for_status_cases(1) [of resp] by (auto simp: no_results_def gives_results_def)
      then have "rs_json resp = None \<or> (\<exists>body e. rs_json resp = Some body \<and> jget body ''results'' = Inl e)"
        by (metis option.exhaust sum.exhaust)
      with ok jget_ordinary that(1) \<open>a = Inr resp\<close> show ?thesis
        by (auto simp: try_results_def abind_def alift_def reply_json_def)
    qed
  qed
  show "try_results query f w = (Inl e, w')" if "query w = (Inl e, w')" "\<not> ordinary e"
    using that by (simp add: try_results_def abind_def)
qed

text \<open>What is processed after the \<open>try\<close> block does not see a failure.\<close>

lemma lookup_laws:
  "query w = (Inr resp, w') \<Longrightarrow> gives_results resp results \<Longrightarrow>
     abind (try_results query (netbox_error what url)) (\<lambda>r. alift (process r)) w = (process results, w')"
  "query w = (a, w') \<Longrightarrow> no_results a \<Longrightarrow>
     \<exists>msg. abind (try_results query (netbox_error what url)) (\<lambda>r. alift (process r)) w = (Inl (CommandExecutionError msg), w')"
  "query w = (Inl e, w') \<Longrightarrow> \<not> ordinary e \<Longrightarrow>
     abind (try_results query (netbox_error what url)) (\<lambda>r. alift (process r)) w = (Inl e, w')"
proof -
  let ?l = "abind (try_results query (netbox_error what url)) (\<lambda>r. alift (process r)) w"
  show "?l = (process results, w')" if "query w = (Inr resp, w')" "gives_results resp results"
    using try_results_laws(1) [of query w resp w' results] that by (cases "process results") (simp_all add: abind_def alift_def act_defs)
  show "\<exists>msg. ?l = (Inl (CommandExecutionError msg), w')" if "query w = (a, w')" "no_results a"
    using try_results_laws(2) [of query w a w' "netbox_error what url"] that by (auto simp: abind_def netbox_error_def)
  show "?l = (Inl e, w')" if "query w = (Inl e, w')" "\<not> ordinary e"
    using try_results_laws(3) [of query w e w'] that by (simp add: abind_def)
qed

interpretation site: fail_closed
  "\<lambda>query. get_site_prefixes (\<lambda>url hs. query) api token flt"
  "\<lambda>results. rbind (jiter results) (\<lambda>xs. rfold add_prefix xs [])"
  unfolding get_site_prefixes_def Let_def by unfold_locales (rule lookup_laws; assumption)+

interpretation extra: fail_closed
  "\<lambda>query. get_extra_dns_entries (\<lambda>url hs. query) api token flt"
  "\<lambda>results. rbind (jiter results) (\<lambda>xs. rfold add_entry xs [])"
  unfolding get_extra_dns_entries_def Let_def by unfold_locales (rule lookup_laws; assumption)+

interpretation vms: fail_closed
  "\<lambda>query. get_vms_by_filter (\<lambda>url hs. query) api token flt"
  "\<lambda>results. rbind (jiter results) (rmap (\<lambda>vm. jget vm ''name''))"
  unfolding get_vms_by_filter_def Let_def by unfold_locales (rule lookup_laws; assumption)+

text \<open>
  \<open>request_cert\<close> never raises what \<open>except Exception\<close> catches, and gives the result of the authority
  only on a reply without an error status.
\<close>

lemma request_cert_returns:
  assumes "post (ca_url @ ''/api/v1/cfssl/newcert'') (cert_req certname) [(''Content-type'', ''application/json'')] w = (a, w')"
  shows "request_cert post ca_url certname w =
    (case a of
       Inl e \<Rightarrow> if ordinary e then Inr (JBool False) else Inl e
     | Inr r \<Rightarrow> if 400 \<le> rs_status r \<and> rs_status r < 600 then Inr (JBool False)
         else (case rs_json r of None \<Rightarrow> Inr (JBool False)
           | Some v \<Rightarrow> (case jget v ''result'' of Inl e \<Rightarrow> Inr (JBool False) | Inr x \<Rightarrow> Inr x)), w')"
proof (cases a)
  case (Inl e)
  then show ?thesis using assms by (simp add: request_cert_def abind_def)
next
  case (Inr r)
  then show ?thesis
  proof (cases "raise_for_status r")
    case (Inl e)
    with raise_for_status_cases(2) [OF Inl] \<open>a = Inr r\<close> assms show ?thesis by (simp add: request_cert_def abind_def alift_def araise_def)
  next
    case ok: (Inr u)
    then have "\<not> (400 \<le> rs_status r \<and> rs_status r < 600)" using raise_for_status_cases(1) [of r] by simp
    with ok \<open>a = Inr r\<close> assms show ?thesis
      by (auto simp: request_cert_def abind_def alift_def reply_json_def dest: jget_ordinary split: option.split sum.split)
  qed
qed

section \<open>What the lookups compute\<close>

definition addr_of :: "json \<Rightarrow> string \<Rightarrow> string option" where
  "addr_of host field =
     (case jget host field of
        Inr ip \<Rightarrow> (case jget ip ''address'' of Inr (JStr a) \<Rightarrow> Some (takeWhile (\<lambda>c. c \<noteq> CHR ''/'') a) | _ \<Rightarrow> None)
      | Inl e \<Rightarrow> None)"

definition host_entry :: "json \<Rightarrow> (string, string) dict" where
  "host_entry host =
     (case addr_of host ''primary_ip4'' of None \<Rightarrow> [] | Some a \<Rightarrow> [(''address'', a)]) @
     (case addr_of host ''primary_ip6'' of None \<Rightarrow> [] | Some a \<Rightarrow> [(''address6'', a)])"

definition name_of :: "json \<Rightarrow> json option" where
  "name_of host = (case jget host ''name'' of Inr n \<Rightarrow> Some n | Inl e \<Rightarrow> None)"

definition entry_pair :: "json \<Rightarrow> (json \<times> (string, string) dict) res" where
  "entry_pair host =
     rbind (jget host ''name'') (\<lambda>n. rbind (jkey n) (\<lambda>k.
     rbind (add_address host ''primary_ip4'' ''address'' []) (\<lambda>entry.
     rbind (add_address host ''primary_ip6'' ''address6'' entry) (\<lambda>entry. Inr (k, entry)))))"

lemma add_entry_pair: "add_entry = (\<lambda>host d. rbind (entry_pair host) (\<lambda>(k, v). Inr (dict_set k v d)))"
  by (simp add: fun_eq_iff add_entry_def entry_pair_def monad_simps)

lemma jsplit_head_Inr: "jsplit_head c v = Inr s \<longleftrightarrow> (\<exists>a. v = JStr a \<and> s = takeWhile (\<lambda>x. x \<noteq> c) a)"
  by (cases v) (auto simp: hd_split_on)

lemma jget_falsy: "\<not> jtruth v \<Longrightarrow> \<exists>e. jget v k = Inl e"
  by (cases v) (auto simp: type_error_def dict_get_def)

lemma add_address_addr:
  assumes "add_address host field key entry = Inr entry'"
  shows "entry' = (case addr_of host field of None \<Rightarrow> entry | Some a \<Rightarrow> dict_set key a entry)"
proof -
  obtain ip where ip: "jget host field = Inr ip" using assms by (auto simp: add_address_def rbind_eq_Inr)
  show ?thesis
  proof (cases "jtruth ip")
    case True
    then show ?thesis using assms ip
      by (auto simp: add_address_def addr_of_def rbind_eq_Inr jsplit_head_Inr)
  next
    case False
    with jget_falsy [of ip "''address''"] show ?thesis using assms ip
      by (auto simp: add_address_def addr_of_def)
  qed
qed

lemma entry_pair_Inr:
  "entry_pair host = Inr (k, e) \<Longrightarrow> name_of host = Some k \<and> host_entry host = e"
  by (auto simp: entry_pair_def rbind_eq_Inr jkey_Inr name_of_def host_entry_def dict_set_def
      dest!: add_address_addr split: option.splits)

lemma fold_entries:
  assumes "rfold add_entry hosts [] = Inr entries"
  shows "dict_get entries n = map_option host_entry (find (\<lambda>h. name_of h = Some n) (rev hosts))"
proof -
  obtain kvs where kvs: "rmap entry_pair hosts = Inr kvs" "entries = fold (\<lambda>(k, v) d. dict_set k v d) kvs []"
    using rfold_store [OF assms [unfolded add_entry_pair]] by blast
  have "list_all2 (\<lambda>h (k, e). name_of h = Some k \<and> host_entry h = e) hosts kvs"
    using kvs(1) unfolding rmap_Inr_iff by (rule list_all2_mono) (auto dest: entry_pair_Inr)
  from map_of_rev_find [OF this] pyd.get_build [of kvs n] kvs(2) show ?thesis
    by (simp add: pyd.build_def)
qed

section \<open>Properties\<close>

text \<open>
  C17. The Netbox lookups fail closed: when the request raises an exception, or its reply has an error
  status (400 to 599), a body that is not JSON or one without results, each of the three lookups
  raises a \<open>CommandExecutionError\<close>; none of them returns an empty answer that a template could render.
  (\<open>SystemExit\<close>, which \<open>except Exception\<close> does not catch, is passed on.)
\<close>

theorem lookups_fail_closed:
  "(no_results (fst (get (site_prefixes_url api flt) [(''Authorization'', ''Token '' @ token)] w)) \<longrightarrow>
     (\<exists>msg. fst (get_site_prefixes get api token flt w) = Inl (CommandExecutionError msg))) \<and>
   (no_results (fst (get (extra_dns_url api flt) [(''Authorization'', ''Token '' @ token)] w)) \<longrightarrow>
     (\<exists>msg. fst (get_extra_dns_entries get api token flt w) = Inl (CommandExecutionError msg))) \<and>
   (no_results (fst (get (vms_url api flt)
        [(''Authorization'', ''Token '' @ token), (''Accept'', ''application/json'')] w)) \<longrightarrow>
     (\<exists>msg. fst (get_vms_by_filter get api token flt w) = Inl (CommandExecutionError msg)))"
proof (intro conjI impI)
  show "\<exists>msg. fst (get_site_prefixes get api token flt w) = Inl (CommandExecutionError msg)"
    if "no_results (fst (get (site_prefixes_url api flt) [(''Authorization'', ''Token '' @ token)] w))"
    using that site.no_answer_no_value
      [where w = w and query = "get (site_prefixes_url api flt) [(''Authorization'', ''Token '' @ token)]"] by (simp add: get_site_prefixes_def Let_def)
  show "\<exists>msg. fst (get_extra_dns_entries get api token flt w) = Inl (CommandExecutionError msg)"
    if "no_results (fst (get (extra_dns_url api flt) [(''Authorization'', ''Token '' @ token)] w))"
    using that extra.no_answer_no_value
      [where w = w and query = "get (extra_dns_url api flt) [(''Authorization'', ''Token '' @ token)]"] by (simp add: get_extra_dns_entries_def Let_def)
  show "\<exists>msg. fst (get_vms_by_filter get api token flt w) = Inl (CommandExecutionError msg)"
    if "no_results (fst (get (vms_url api flt) [(''Authorization'', ''Token '' @ token), (''Accept'', ''application/json'')] w))"
    using that vms.no_answer_no_value
      [where w = w and query = "get (vms_url api flt) [(''Authorization'', ''Token '' @ token), (''Accept'', ''application/json'')]"] by (simp add: get_vms_by_filter_def Let_def)
qed

text \<open>A reply with an error status, although its body has results.\<close>

definition ex_reply :: "int \<Rightarrow> http_reply" where
  "ex_reply status = \<lparr>rs_status = status, rs_reason = ''Server Error'', rs_url = ''http://nb/api'',
     rs_json = Some (JDict [(JStr ''results'', JList
       [JDict [(JStr ''name'', JStr ''gw01''), (JStr ''primary_ip4'', JDict [(JStr ''address'', JStr ''10.0.0.1/24'')]),
         (JStr ''primary_ip6'', JNull)]])])\<rparr>"

theorem lookups_fail_closed_witness:
  "(\<exists>msg. fst (get_extra_dns_entries (\<lambda>url hs w. (Inr (ex_reply 500), w)) ''http://nb/api'' ''t'' ''site=muc'' ()) =
     Inl (CommandExecutionError msg)) \<and>
   \<not> isl (fst (get_extra_dns_entries (\<lambda>url hs w. (Inr (ex_reply 200), w)) ''http://nb/api'' ''t'' ''site=muc'' ()))"
proof
  have "no_results (Inr (ex_reply 500))" by (simp add: no_results_def gives_results_def ex_reply_def)
  then show "\<exists>msg. fst (get_extra_dns_entries (\<lambda>url hs w. (Inr (ex_reply 500), w)) ''http://nb/api'' ''t'' ''site=muc'' ()) =
      Inl (CommandExecutionError msg)"
    using lookups_fail_closed [of "\<lambda>url hs w. (Inr (ex_reply 500), w)" "''http://nb/api''" "''site=muc''" "''t''" "()"] by simp
  show "\<not> isl (fst (get_extra_dns_entries (\<lambda>url hs w. (Inr (ex_reply 200), w)) ''http://nb/api'' ''t'' ''site=muc'' ()))"
    by code_simp
qed

text \<open>
  C18. \<open>get_extra_dns_entries\<close> returns exactly the answered hosts: it succeeds only on a reply without
  an error status that has results, and the entry of a name is that of the last host with the name,
  holding the addresses of its primary IPv4 and IPv6 objects up to the prefix length.
\<close>

theorem extra_dns_entries_spec:
  assumes "get_extra_dns_entries get api token flt w = (Inr entries, w')"
  shows "\<exists>resp body results hosts.
    get (extra_dns_url api flt) [(''Authorization'', ''Token '' @ token)] w = (Inr resp, w') \<and>
    \<not> (400 \<le> rs_status resp \<and> rs_status resp < 600) \<and> rs_json resp = Some body \<and>
    jget body ''results'' = Inr results \<and> jiter results = Inr hosts \<and>
    (\<forall>n. dict_get entries n = map_option host_entry (find (\<lambda>h. name_of h = Some n) (rev hosts)))"
proof -
  let ?q = "get (extra_dns_url api flt) [(''Authorization'', ''Token '' @ token)]"
  have "get_extra_dns_entries (\<lambda>url hs. ?q) api token flt w = (Inr entries, w')"
    using assms by (simp add: get_extra_dns_entries_def Let_def)
  then obtain resp results where "?q w = (Inr resp, w')" "gives_results resp results"
    and "rbind (jiter results) (\<lambda>xs. rfold add_entry xs []) = Inr entries"
    unfolding extra.returns_iff by blast
  then show ?thesis by (auto simp: rbind_eq_Inr fold_entries gives_results_def)
qed

theorem extra_dns_entries_spec_witness:
  "\<exists>hosts. (\<forall>n. dict_get (projr (fst (get_extra_dns_entries (\<lambda>url hs w. (Inr (ex_reply 200), w))
       ''http://nb/api'' ''t'' ''role=gw'' ()))) n =
     map_option host_entry (find (\<lambda>h. name_of h = Some n) (rev hosts)))"
proof -
  let ?r = "get_extra_dns_entries (\<lambda>url hs w. (Inr (ex_reply 200), w)) ''http://nb/api'' ''t'' ''role=gw'' ()"
  have "\<not> isl (fst ?r)" by code_simp
  then have "?r = (Inr (projr (fst ?r)), ())" by (simp add: prod_eq_iff)
  from extra_dns_entries_spec [OF this] show ?thesis by auto
qed

end
