(* ===== verification/Netbox_Pillar.thy ===== *)
theory Netbox_Pillar
  imports PyJson
begin

text \<open>
  The external pillar \<open>_pillar/netbox.py\<close>. \<open>salt.utils.http.query\<close> is a parameter: an action that
  gives a dictionary with the key \<open>dict\<close> for a decoded body, or with \<open>error\<close> and \<open>status\<close>. An address is
  kept as the parts that the source joins with slashes. Log calls are kept where their arguments
  can raise.
\<close>

section \<open>Queries and control flow\<close>

record nb_query =
  nq_url :: "json list"
  nq_params :: "(string \<times> json) list"
  nq_headers :: "(string \<times> string) list"

type_synonym 'w nbhttp = "nb_query \<Rightarrow> ('w, json) act"

record nb_cfg =
  nc_api_url :: "string option"
  nc_api_token :: "string option"
  nc_site_details :: "bool option"
  nc_site_prefixes :: "bool option"
  nc_proxy_username :: "string option"
  nc_proxy_return :: "bool option"

text \<open>A stage of the function either returns its result or goes on with a value.\<close>

datatype 'a flow = Return json | Next 'a

definition fbind :: "('w, 'a flow) act \<Rightarrow> ('a \<Rightarrow> ('w, 'b flow) act) \<Rightarrow> ('w, 'b flow) act" where
  "fbind m f = abind m (\<lambda>x. case x of Return r \<Rightarrow> areturn (Return r) | Next a \<Rightarrow> f a)"

definition str_true' :: "string option \<Rightarrow> bool" where
  "str_true' v \<longleftrightarrow> v \<noteq> None \<and> v \<noteq> Some []"

definition nb_headers :: "nb_cfg \<Rightarrow> (string \<times> string) list" where
  "nb_headers cfg = (if str_true' (nc_api_token cfg)
     then [(''Authorization'', ''Token '' @ the (nc_api_token cfg))] else [])"

definition nb_get :: "'w nbhttp \<Rightarrow> nb_cfg \<Rightarrow> json list \<Rightarrow> (string \<times> json) list \<Rightarrow> ('w, json) act" where
  "nb_get http cfg url params = http \<lparr>nq_url = url, nq_params = params, nq_headers = nb_headers cfg\<rparr>"

text \<open>\<open>rstrip("/")\<close> of the configured address, as the first part of every URL.\<close>

definition api_part :: "nb_cfg \<Rightarrow> json" where
  "api_part cfg = JStr (rstrip_by (\<lambda>c. c = CHR ''/'') (get_default (nc_api_url cfg) []))"

definition results_of :: "json \<Rightarrow> json res" where
  "results_of answer = rbind (jget answer ''dict'') (\<lambda>d. jget d ''results'')"

text \<open>The two log lines of an error branch: they read \<open>status\<close> and \<open>error\<close> of the answer they name.\<close>

definition log_failure :: "json \<Rightarrow> unit res" where
  "log_failure answer = rbind (jget answer ''status'') (\<lambda>_. rbind (jget answer ''error'') (\<lambda>_. Inr ()))"

text \<open>\<open>if "error" in answer: log; return ret\<close>\<close>

definition check_error :: "json \<Rightarrow> json \<Rightarrow> json \<Rightarrow> unit flow res" where
  "check_error answer logged ret =
     rbind (jin ''error'' answer) (\<lambda>e.
     if e then rbind (log_failure logged) (\<lambda>_. Inr (Return ret)) else Inr (Next ()))"

definition nb_ret :: "json \<Rightarrow> json" where
  "nb_ret netbox = JDict [(JStr ''netbox'', netbox)]"

section \<open>The device\<close>

definition search :: "'w nbhttp \<Rightarrow> nb_cfg \<Rightarrow> string \<Rightarrow> string \<Rightarrow> string \<Rightarrow> ('w, json) act" where
  "search http cfg minion_id app endpoint =
     nb_get http cfg [api_part cfg, JStr app, JStr endpoint] [(''name'', JStr minion_id)]"

definition find_device :: "'w nbhttp \<Rightarrow> nb_cfg \<Rightarrow> string \<Rightarrow> ('w, json flow) act" where
  "find_device http cfg minion_id =
     abind (search http cfg minion_id ''dcim'' ''devices'') (\<lambda>device_search_results.
     abind (alift (rbind (results_of device_search_results) jlen)) (\<lambda>n.
     abind (if n = 0 then search http cfg minion_id ''virtualization'' ''virtual-machines''
            else areturn device_search_results) (\<lambda>search_results.
     fbind (alift (check_error search_results search_results (JDict []))) (\<lambda>_.
     abind (alift (rbind (results_of search_results) jlen)) (\<lambda>m.
     areturn (if m = 0 then Return (JDict []) else if m > 1 then Return (JDict []) else Next search_results))))))"

text \<open>The identifier of the only result, and the record of the device or virtual machine.\<close>

definition fetch_device :: "'w nbhttp \<Rightarrow> nb_cfg \<Rightarrow> json \<Rightarrow> ('w, (json \<times> json) flow) act" where
  "fetch_device http cfg search_results =
     abind (alift (rbind (results_of search_results) jhead)) (\<lambda>first.
     abind (alift (jin ''vcpus'' first)) (\<lambda>vm.
     abind (alift (jget first ''id'')) (\<lambda>i.
     abind (nb_get http cfg
       (if \<not> vm then [api_part cfg, JStr ''dcim'', JStr ''devices'', i, JStr []]
        else [api_part cfg, JStr ''virtualization'', JStr ''virtual-machines'', i, JStr []]) []) (\<lambda>device_results.
     fbind (alift (check_error device_results search_results (JDict []))) (\<lambda>_.
     abind (alift (jget device_results ''dict'')) (\<lambda>d. areturn (Next (i, d))))))))"

text \<open>The site of the device: its identifier and name, or \<open>None\<close>, which switches the site queries off.\<close>

definition device_site :: "json \<Rightarrow> json option res" where
  "device_site netbox =
     rbind (jget netbox ''site'') (\<lambda>site.
     if \<not> jtruth site then Inr None
     else rbind (jget site ''id'') (\<lambda>i. rbind (jget site ''name'') (\<lambda>_. Inr (Some i))))"

section \<open>Services, interfaces and addresses\<close>

definition add_service :: "json \<Rightarrow> json \<Rightarrow> json res" where
  "add_service service netbox =
     rbind (jget service ''name'') (\<lambda>n. jchange (JStr ''services'') (jput n service) netbox)"

definition add_services :: "'w nbhttp \<Rightarrow> nb_cfg \<Rightarrow> json \<Rightarrow> ('w, json) act" where
  "add_services http cfg netbox =
     abind (nb_get http cfg [api_part cfg, JStr ''ipam'', JStr ''services''] []) (\<lambda>service_results.
     alift (rbind (results_of service_results) (\<lambda>services. rbind (jlen services) (\<lambda>n.
     if n \<ge> 1 then
       rbind (jset ''services'' (JDict []) netbox) (\<lambda>netbox.
       rbind (jiter services) (\<lambda>xs. rfold add_service xs netbox))
     else Inr netbox))))"

definition if_app :: "bool \<Rightarrow> string" where
  "if_app vm = (if vm then ''virtualization'' else ''dcim'')"

definition id_param :: "bool \<Rightarrow> string" where
  "id_param vm = (if vm then ''virtual_machine_id'' else ''device_id'')"

definition add_interface :: "json \<Rightarrow> json \<Rightarrow> json res" where
  "add_interface itf netbox =
     rbind (jget itf ''name'') (\<lambda>n.
     rbind (jchange (JStr ''interfaces'') (jput n itf) netbox)
       (jchange (JStr ''interfaces'') (jchange n (jset ''ipaddresses'' (JList [])))))"

definition add_interfaces :: "'w nbhttp \<Rightarrow> nb_cfg \<Rightarrow> json \<Rightarrow> json \<Rightarrow> ('w, json flow) act" where
  "add_interfaces http cfg i netbox =
     abind (alift (jin ''vcpus'' netbox)) (\<lambda>vm.
     abind (alift (jset ''interfaces'' (JDict []) netbox)) (\<lambda>netbox.
     abind (nb_get http cfg [api_part cfg, JStr (if_app vm), JStr ''interfaces'', JStr []]
              [(id_param vm, i), (''limit'', JInt 1000)]) (\<lambda>interface_results.
     fbind (alift (check_error interface_results interface_results (nb_ret netbox))) (\<lambda>_.
     alift (rbind (results_of interface_results) (\<lambda>rs. rbind (jiter rs) (\<lambda>xs.
       rbind (rfold add_interface xs netbox) (\<lambda>nb. Inr (Next nb)))))))))"

text \<open>Attaching an address to the interface \<open>d\<close> it is assigned to; \<open>ifs\<close> is \<open>ret["netbox"]["interfaces"]\<close>.\<close>

definition attach :: "json \<Rightarrow> json \<Rightarrow> json \<Rightarrow> json res" where
  "attach d ip ifs =
     rbind (jget d ''name'') (\<lambda>n.
     rbind (jhas n ifs) (\<lambda>known.
     rbind (if \<not> known then jput n d ifs else Inr ifs) (\<lambda>ifs.
     rbind (rbind (jat ifs n) (jin ''ipaddresses'')) (\<lambda>has.
     rbind (if \<not> has then jchange n (jset ''ipaddresses'' (JList [])) ifs else Inr ifs)
       (jchange n (jchange (JStr ''ipaddresses'') (jappend ip)))))))"

fun address_loop :: "'w nbhttp \<Rightarrow> nb_cfg \<Rightarrow> json list \<Rightarrow> json \<Rightarrow> ('w, json flow) act" where
  "address_loop http cfg [] netbox = areturn (Next netbox)"
| "address_loop http cfg (ipaddress # ipaddresses) netbox =
     abind (alift (jget ipaddress ''assigned_object_id'')) (\<lambda>interface_id.
     abind (alift (jin ''vcpus'' netbox)) (\<lambda>vm.
     abind (nb_get http cfg [api_part cfg, JStr (if_app vm), JStr ''interfaces'', interface_id, JStr []] [])
       (\<lambda>interface_results.
     fbind (alift (check_error interface_results interface_results (nb_ret netbox))) (\<lambda>_.
     abind (alift (rbind (jget interface_results ''dict'') (\<lambda>d.
       jchange (JStr ''interfaces'') (attach d ipaddress) netbox))) (\<lambda>netbox.
     address_loop http cfg ipaddresses netbox)))))"

text \<open>The addresses, with the last value of the loop variable \<open>ipaddress\<close>, \<open>None\<close> while it is unbound.\<close>

definition add_addresses :: "'w nbhttp \<Rightarrow> nb_cfg \<Rightarrow> json \<Rightarrow> json \<Rightarrow> ('w, (json \<times> json option) flow) act" where
  "add_addresses http cfg i netbox =
     abind (alift (jin ''vcpus'' netbox)) (\<lambda>vm.
     abind (nb_get http cfg [api_part cfg, JStr ''ipam'', JStr ''ip-addresses'', JStr []] [(id_param vm, i)])
       (\<lambda>ipaddress_results.
     fbind (alift (check_error ipaddress_results ipaddress_results (nb_ret netbox))) (\<lambda>_.
     abind (alift (rbind (results_of ipaddress_results) jiter)) (\<lambda>ipaddresses.
     fbind (address_loop http cfg ipaddresses netbox) (\<lambda>netbox.
     areturn (Next (netbox, if ipaddresses = [] then None else Some (last ipaddresses))))))))"

section \<open>Site, proxy and tags\<close>

definition add_site_details :: "'w nbhttp \<Rightarrow> nb_cfg \<Rightarrow> json \<Rightarrow> json \<Rightarrow> ('w, json) act" where
  "add_site_details http cfg site_id netbox =
     abind (nb_get http cfg [api_part cfg, JStr ''dcim'', JStr ''sites'', site_id, JStr []] [])
       (\<lambda>site_details_ret.
     alift (rbind (jin ''error'' site_details_ret) (\<lambda>e.
     if e then rbind (log_failure site_details_ret) (\<lambda>_. Inr netbox)
     else rbind (jget site_details_ret ''dict'') (\<lambda>d. jset ''site'' d netbox))))"

definition add_site_prefixes :: "'w nbhttp \<Rightarrow> nb_cfg \<Rightarrow> json \<Rightarrow> json \<Rightarrow> ('w, json) act" where
  "add_site_prefixes http cfg site_id netbox =
     abind (nb_get http cfg [api_part cfg, JStr ''ipam'', JStr ''prefixes''] [(''site_id'', site_id)])
       (\<lambda>site_prefixes_ret.
     alift (rbind (jin ''error'' site_prefixes_ret) (\<lambda>e.
     if e then rbind (log_failure site_prefixes_ret) (\<lambda>_. Inr netbox)
     else rbind (results_of site_prefixes_ret) (\<lambda>rs. jchange (JStr ''site'') (jset ''prefixes'' rs) netbox))))"

text \<open>
  \<open>ipaddress.IPv4Interface(a).ip\<close>: the function assigns the name \<open>ipaddress\<close> in its loop, so the name
  is the local variable and not the module. It is unbound when there was no address, and a decoded
  JSON value otherwise, which has no such attribute.
\<close>

definition ipv4_interface :: "json option \<Rightarrow> (json \<Rightarrow> string res) res" where
  "ipv4_interface ipaddress =
     (case ipaddress of
        None \<Rightarrow> Inl (UnboundLocalError ''ipaddress'')
      | Some v \<Rightarrow> Inl (AttributeError ''IPv4Interface''))"

definition proxy_data :: "'w nbhttp \<Rightarrow> nb_cfg \<Rightarrow> json option \<Rightarrow> json \<Rightarrow> ('w, json option) act" where
  "proxy_data http cfg ipaddress netbox =
     abind (alift (rbind (jget netbox ''platform'') (\<lambda>p. jget p ''url''))) (\<lambda>url.
     abind (nb_get http cfg [url] []) (\<lambda>platform_results.
     abind (alift (rbind (jin ''error'' platform_results) (\<lambda>e.
       if e then rbind (jget platform_results ''error'') (\<lambda>_. Inr ()) else Inr ()))) (\<lambda>_.
     abind (alift (rbind (jget platform_results ''dict'') (\<lambda>d. jget_opt d ''napalm_driver''))) (\<lambda>driver.
     if \<not> jtruth driver then areturn None else
     alift (rbind (ipv4_interface ipaddress) (\<lambda>interface.
       rbind (rbind (jget netbox ''primary_ip4'') (\<lambda>p. jget p ''address'')) (\<lambda>a.
       rbind (interface a) (\<lambda>host.
       Inr (Some (JDict ([(JStr ''host'', JStr host), (JStr ''driver'', driver),
         (JStr ''proxytype'', JStr ''napalm'')] @
         (if str_true' (nc_proxy_username cfg)
          then [(JStr ''username'', JStr (the (nc_proxy_username cfg)))] else []))))))))))))"

text \<open>\<open>try ... except Exception\<close> around it: what was sent stays sent, and the key is not set.\<close>

definition try_proxy :: "'w nbhttp \<Rightarrow> nb_cfg \<Rightarrow> json option \<Rightarrow> json \<Rightarrow> ('w, json option) act" where
  "try_proxy http cfg ipaddress netbox w =
     (case proxy_data http cfg ipaddress netbox w of
        (Inl e, w') \<Rightarrow> (if ordinary e then Inr None else Inl e, w')
      | (Inr p, w') \<Rightarrow> (Inr p, w'))"

definition add_tags :: "json \<Rightarrow> json res" where
  "add_tags netbox =
     rbind (jget netbox ''tags'') (\<lambda>ts. rbind (jiter ts) (\<lambda>tags.
     rbind (rmap (\<lambda>tag. jget tag ''slug'') tags) (\<lambda>tag_list.
     jset ''tag_list'' (JList tag_list) netbox)))"

section \<open>The pillar\<close>

text \<open>Everything after the device is known.\<close>

definition complete_device ::
  "'w nbhttp \<Rightarrow> nb_cfg \<Rightarrow> json \<Rightarrow> json \<Rightarrow> ('w, json flow) act" where
  "complete_device http cfg i netbox =
     abind (alift (device_site netbox)) (\<lambda>site.
     let site_details = (site \<noteq> None \<and> get_default (nc_site_details cfg) True);
         site_prefixes = (site \<noteq> None \<and> get_default (nc_site_prefixes cfg) True)
     in
     abind (add_services http cfg netbox) (\<lambda>netbox.
     fbind (add_interfaces http cfg i netbox) (\<lambda>netbox.
     fbind (add_addresses http cfg i netbox) (\<lambda>(netbox, ipaddress).
     abind (if site_details then add_site_details http cfg (the site) netbox else areturn netbox) (\<lambda>netbox.
     abind (if site_prefixes then add_site_prefixes http cfg (the site) netbox else areturn netbox) (\<lambda>netbox.
     abind (if get_default (nc_proxy_return cfg) True then try_proxy http cfg ipaddress netbox
            else areturn None) (\<lambda>proxy.
     abind (alift (add_tags netbox)) (\<lambda>netbox.
     areturn (Next (JDict ([(JStr ''netbox'', netbox)] @
       (case proxy of None \<Rightarrow> [] | Some p \<Rightarrow> [(JStr ''proxy'', p)]))))))))))))"

definition pillar_flow :: "'w nbhttp \<Rightarrow> nb_cfg \<Rightarrow> string \<Rightarrow> ('w, json flow) act" where
  "pillar_flow http cfg minion_id =
     fbind (find_device http cfg minion_id) (\<lambda>search_results.
     fbind (fetch_device http cfg search_results) (\<lambda>(i, netbox).
     complete_device http cfg i netbox))"

definition ext_pillar :: "'w nbhttp \<Rightarrow> string \<Rightarrow> nb_cfg \<Rightarrow> ('w, json) act" where
  "ext_pillar http minion_id cfg =
     (if minion_id = ''*'' then areturn (JDict [])
      else if nc_api_url cfg = None then araise (KeyError ''api_url'')
      else abind (pillar_flow http cfg minion_id) (\<lambda>f. case f of Return r \<Rightarrow> areturn r | Next r \<Rightarrow> areturn r))"

section \<open>The shape of the result\<close>

text \<open>A run that returns gives an empty pillar or one with the key \<open>netbox\<close> alone.\<close>

definition ret_ok :: "json \<Rightarrow> bool" where
  "ret_ok r \<longleftrightarrow> r = JDict [] \<or> (\<exists>nb. r = nb_ret nb)"

text \<open>\<open>returns_ok m\<close>: every early return of the stage has that shape.\<close>

definition returns_ok :: "('w, 'a flow) act \<Rightarrow> bool" where
  "returns_ok m \<longleftrightarrow> (\<forall>w r w'. m w = (Inr (Return r), w') \<longrightarrow> ret_ok r)"

lemma returns_ok_areturn [intro, simp]: "returns_ok (areturn (Next x))"
  by (simp add: returns_ok_def)

lemma returns_ok_alift_Next [intro, simp]:
  "returns_ok (alift (rbind m (\<lambda>x. Inr (Next (f x)))))"
  by (auto simp: returns_ok_def alift_def rbind_eq_Inr)

lemma returns_ok_alift_rbind:
  "(\<And>x. returns_ok (alift (f x))) \<Longrightarrow> returns_ok (alift (rbind m f))"
  by (auto simp: returns_ok_def alift_def rbind_eq_Inr)

lemma returns_ok_abind: "(\<And>x. returns_ok (f x)) \<Longrightarrow> returns_ok (abind m f)"
  unfolding returns_ok_def by (auto elim!: abind_InrE)

lemma returns_ok_fbind: "returns_ok m \<Longrightarrow> (\<And>x. returns_ok (f x)) \<Longrightarrow> returns_ok (fbind m f)"
  unfolding returns_ok_def fbind_def by (fastforce elim!: abind_InrE split: flow.splits)

lemma returns_ok_check [intro]: "ret_ok ret \<Longrightarrow> returns_ok (alift (check_error answer l ret))"
  by (auto simp: returns_ok_def alift_def check_error_def rbind_eq_Inr split: if_splits)

lemma ret_ok_intros [intro, simp]: "ret_ok (JDict [])" "ret_ok (nb_ret nb)"
  by (auto simp: ret_ok_def)

lemmas returns_ok_rules = returns_ok_fbind returns_ok_abind returns_ok_check returns_ok_alift_Next
  returns_ok_areturn ret_ok_intros

lemma find_device_ok: "returns_ok (find_device http cfg m)"
  unfolding find_device_def by (intro returns_ok_rules) (auto simp: returns_ok_def)

lemma fetch_device_ok: "returns_ok (fetch_device http cfg s)"
  unfolding fetch_device_def by (intro returns_ok_rules)

lemma add_interfaces_ok: "returns_ok (add_interfaces http cfg i nb)"
  unfolding add_interfaces_def
  by (intro returns_ok_fbind returns_ok_abind returns_ok_check ret_ok_intros returns_ok_alift_rbind
      returns_ok_alift_Next)

lemma address_loop_ok: "returns_ok (address_loop http cfg ips nb)"
  by (induction http cfg ips nb rule: address_loop.induct) (auto intro!: returns_ok_rules)

lemma add_addresses_ok: "returns_ok (add_addresses http cfg i nb)"
  unfolding add_addresses_def by (intro returns_ok_rules address_loop_ok)

text \<open>The name \<open>ipaddress\<close> never is the module, so \<open>proxy\<close> is never set.\<close>

lemma proxy_data_None: "proxy_data http cfg ip nb w = (Inr p, w') \<Longrightarrow> p = None"
  unfolding proxy_data_def
  by (auto elim!: abind_InrE simp: alift_def ipv4_interface_def split: if_splits option.splits)

lemma try_proxy_None: "try_proxy http cfg ip nb w = (Inr p, w') \<Longrightarrow> p = None"
  unfolding try_proxy_def by (auto split: prod.splits sum.splits if_splits dest: proxy_data_None)

lemma proxy_stage_None:
  "(if b then try_proxy http cfg ip nb else areturn None) w = (Inr p, w') \<Longrightarrow> p = None"
  by (auto split: if_splits dest: try_proxy_None)

fun flow_val :: "json flow \<Rightarrow> json" where
  "flow_val (Return r) = r"
| "flow_val (Next r) = r"

definition ends_ok :: "('w, json flow) act \<Rightarrow> bool" where
  "ends_ok m \<longleftrightarrow> (\<forall>w f w'. m w = (Inr f, w') \<longrightarrow> ret_ok (flow_val f))"

lemma ends_ok_abind: "(\<And>x. ends_ok (f x)) \<Longrightarrow> ends_ok (abind m f)"
  unfolding ends_ok_def by (auto elim!: abind_InrE)

lemma ends_ok_fbind:
  assumes "returns_ok m" and "\<And>x. ends_ok (f x)"
  shows "ends_ok (fbind m f)"
  using assms unfolding ends_ok_def returns_ok_def fbind_def
  by (fastforce elim!: abind_InrE split: flow.splits)

text \<open>The last two steps: the stage that computes \<open>proxy\<close> and the one that builds the result.\<close>

lemma ends_ok_proxy:
  assumes "ends_ok (f None)"
  shows "ends_ok (abind (if b then try_proxy http cfg ip nb else areturn None) f)"
  using assms unfolding ends_ok_def by (blast elim: abind_InrE dest: proxy_stage_None)

lemma complete_device_ok: "ends_ok (complete_device http cfg i nb)"
  unfolding complete_device_def Let_def case_prod_beta
  by (rule ends_ok_proxy | rule ends_ok_fbind add_interfaces_ok add_addresses_ok | rule ends_ok_abind)+
    (simp add: ends_ok_def ret_ok_def nb_ret_def)

lemma pillar_flow_ok: "ends_ok (pillar_flow http cfg minion_id)"
  unfolding pillar_flow_def case_prod_beta
  by (intro ends_ok_fbind find_device_ok fetch_device_ok complete_device_ok)

text \<open>
  C19. The pillar has the key \<open>netbox\<close> or is empty; it never has the key \<open>proxy\<close>, whatever Netbox
  answers and however the module is configured, because the loop over the addresses makes
  \<open>ipaddress\<close> a local name and the expression that should give the host always raises inside the
  \<open>try\<close>.
\<close>

theorem pillar_never_has_proxy:
  assumes "ext_pillar http minion_id cfg w = (Inr ret, w')"
  shows "ret = JDict [] \<or> (\<exists>nb. ret = JDict [(JStr ''netbox'', nb)])"
proof -
  have "ret_ok ret"
  proof (cases "minion_id = ''*'' \<or> nc_api_url cfg = None")
    case True
    then show ?thesis using assms by (auto simp: ext_pillar_def araise_def split: if_splits)
  next
    case False
    then show ?thesis using assms pillar_flow_ok [of http cfg minion_id] unfolding ext_pillar_def ends_ok_def
      by (auto elim!: abind_InrE split: flow.splits dest: spec) (metis flow_val.simps)+
  qed
  then show ?thesis by (simp add: ret_ok_def nb_ret_def)
qed

section \<open>Addresses of interfaces\<close>

text \<open>The addresses that the pillar lists for an interface.\<close>

definition listed :: "json \<Rightarrow> json list" where
  "listed itf = (case jget itf ''ipaddresses'' of Inr (JList xs) \<Rightarrow> xs | _ \<Rightarrow> [])"

definition addrs :: "json \<Rightarrow> json \<Rightarrow> json list" where
  "addrs ifs n = (case ifs of
     JDict d \<Rightarrow> (case dict_get d n of Some itf \<Rightarrow> listed itf | None \<Rightarrow> [])
   | _ \<Rightarrow> [])"

lemma addrs_dict: "addrs (JDict d) n = (case dict_get d n of Some itf \<Rightarrow> listed itf | None \<Rightarrow> [])"
  by (simp add: addrs_def)

lemma addrs_set: "addrs (JDict (dict_set n itf d)) m = (if m = n then listed itf else addrs (JDict d) m)"
  by (simp add: addrs_dict dict_get_set)

lemma append_addr:
  assumes "jchange n (jchange (JStr ''ipaddresses'') (jappend ip)) ifs = Inr ifs'"
  shows "addrs ifs' m = addrs ifs m @ (if m = n then [ip] else [])"
proof -
  from assms obtain d itf xs where ifs: "ifs = JDict d" and n: "jkey n = Inr n" and itf: "dict_get d n = Some (JDict itf)"
    and xs: "dict_get itf (JStr ''ipaddresses'') = Some (JList xs)"
    and ifs': "ifs' = JDict (dict_set n (JDict (dict_set (JStr ''ipaddresses'') (JList (xs @ [ip])) itf)) d)"
    by (auto simp: jchange_Inr jappend_Inr)
  show ?thesis
    unfolding ifs' addrs_set ifs by (simp add: addrs_dict itf xs listed_def dict_get_set)
qed

lemma attach_addrs:
  assumes att: "attach d ip ifs = Inr ifs'" and n: "jget d ''name'' = Inr n" and new: "jin ''ipaddresses'' d = Inr False"
  shows "addrs ifs' m = addrs ifs m @ (if m = n then [ip] else [])"
proof -
  obtain known ifs1 has ifs2 where known: "jhas n ifs = Inr known"
    and ifs1: "(if \<not> known then jput n d ifs else Inr ifs) = Inr ifs1"
    and has: "rbind (jat ifs1 n) (jin ''ipaddresses'') = Inr has"
    and ifs2: "(if \<not> has then jchange n (jset ''ipaddresses'' (JList [])) ifs1 else Inr ifs1) = Inr ifs2"
    and app: "jchange n (jchange (JStr ''ipaddresses'') (jappend ip)) ifs2 = Inr ifs'"
    using att n unfolding attach_def by (auto simp: rbind_eq_Inr)
  have d: "\<exists>e. d = JDict e" using n by (auto simp: jget_Inr)
  have 1: "addrs ifs1 m = addrs ifs m"
  proof (cases known)
    case True
    then show ?thesis using ifs1 by simp
  next
    case False
    then obtain e where e: "ifs = JDict e" "jkey n = Inr n" "ifs1 = JDict (dict_set n d e)"
      using ifs1 by (auto simp: jput_Inr)
    moreover have "dict_get e n = None" using known e False by (simp add: dict_has_def)
    moreover have "listed d = []" using d new by (auto simp: listed_def jin_Inr dict_has_def)
    ultimately show ?thesis by (simp add: addrs_set) (simp add: addrs_dict)
  qed
  have 2: "addrs ifs2 m = addrs ifs1 m"
  proof (cases has)
    case True
    then show ?thesis using ifs2 by simp
  next
    case False
    then obtain e itf where e: "ifs1 = JDict e" "jkey n = Inr n" "dict_get e n = Some (JDict itf)"
        "ifs2 = JDict (dict_set n (JDict (dict_set (JStr ''ipaddresses'') (JList []) itf)) e)"
      using ifs2 by (auto simp: jchange_Inr jset_Inr)
    moreover have "dict_get itf (JStr ''ipaddresses'') = None"
      using has e False by (auto simp: jat_Inr rbind_eq_Inr jin_Inr dict_has_def)
    ultimately show ?thesis by (simp add: addrs_set listed_def dict_get_set) (simp add: addrs_dict listed_def)
  qed
  show ?thesis using append_addr [OF app, of m] 1 2 by simp
qed

text \<open>
  Attaching an address leaves the records of other interfaces as they are, and the other keys of the
  record of its interface, which is the one listed already, or the one given for the address.
\<close>

definition iface_rec :: "json \<Rightarrow> json \<Rightarrow> json option" where
  "iface_rec ifs n = (case ifs of JDict d \<Rightarrow> dict_get d n | _ \<Rightarrow> None)"

lemma change_rec:
  assumes "jchange n f ifs = Inr ifs'"
  shows "\<exists>itf itf'. iface_rec ifs n = Some itf \<and> f itf = Inr itf' \<and>
    (\<forall>m. iface_rec ifs' m = (if m = n then Some itf' else iface_rec ifs m))"
  using assms by (auto simp: jchange_Inr iface_rec_def dict_get_set)

lemma attach_frame:
  assumes att: "attach d ip ifs = Inr ifs'" and n: "jget d ''name'' = Inr n"
  shows "m \<noteq> n \<Longrightarrow> iface_rec ifs' m = iface_rec ifs m"
    and "\<exists>itf'. iface_rec ifs' n = Some itf' \<and>
      (\<forall>k. k \<noteq> ''ipaddresses'' \<longrightarrow> jget itf' k = jget (get_default (iface_rec ifs n) d) k)"
proof -
  obtain known ifs1 has ifs2 where known: "jhas n ifs = Inr known"
    and ifs1: "(if \<not> known then jput n d ifs else Inr ifs) = Inr ifs1"
    and has: "rbind (jat ifs1 n) (jin ''ipaddresses'') = Inr has"
    and ifs2: "(if \<not> has then jchange n (jset ''ipaddresses'' (JList [])) ifs1 else Inr ifs1) = Inr ifs2"
    and app: "jchange n (jchange (JStr ''ipaddresses'') (jappend ip)) ifs2 = Inr ifs'"
    using att n unfolding attach_def by (auto simp: rbind_eq_Inr)
  have 1: "iface_rec ifs1 = (iface_rec ifs)(n \<mapsto> get_default (iface_rec ifs n) d)"
  proof (cases known)
    case True
    then have "ifs1 = ifs" using ifs1 by simp
    moreover obtain e itf where "ifs1 = JDict e" "dict_get e n = Some itf"
      using has by (auto simp: rbind_eq_Inr jat_Inr)
    ultimately show ?thesis by (auto simp: iface_rec_def fun_eq_iff)
  next
    case False
    then obtain e where e: "ifs = JDict e" "ifs1 = JDict (dict_set n d e)"
      using ifs1 by (auto simp: jput_Inr)
    moreover have "dict_get e n = None" using known e False by (cases n) (auto simp: dict_has_def type_error_def)
    ultimately show ?thesis by (auto simp: iface_rec_def fun_eq_iff dict_get_set)
  qed
  have 2: "(\<forall>m. m \<noteq> n \<longrightarrow> iface_rec ifs2 m = iface_rec ifs1 m) \<and>
      (\<exists>itf. iface_rec ifs2 n = Some itf \<and>
        (\<forall>k. k \<noteq> ''ipaddresses'' \<longrightarrow> jget itf k = jget (get_default (iface_rec ifs n) d) k))"
  proof (cases has)
    case True
    then show ?thesis using ifs2 1 by simp
  next
    case False
    with ifs2 have "jchange n (jset ''ipaddresses'' (JList [])) ifs1 = Inr ifs2" by simp
    from change_rec [OF this] obtain itf itf' where "iface_rec ifs1 n = Some itf"
      "jset ''ipaddresses'' (JList []) itf = Inr itf'"
      "\<forall>m. iface_rec ifs2 m = (if m = n then Some itf' else iface_rec ifs1 m)" by blast
    then show ?thesis using jget_jset [of "''ipaddresses''" "JList []" itf itf'] 1 by auto
  qed
  from change_rec [OF app] obtain itf itf' where itf: "iface_rec ifs2 n = Some itf"
    "jchange (JStr ''ipaddresses'') (jappend ip) itf = Inr itf'"
    "\<forall>m. iface_rec ifs' m = (if m = n then Some itf' else iface_rec ifs2 m)" by blast
  show "m \<noteq> n \<Longrightarrow> iface_rec ifs' m = iface_rec ifs m" using itf(3) 1 2 by simp
  show "\<exists>itf'. iface_rec ifs' n = Some itf' \<and>
      (\<forall>k. k \<noteq> ''ipaddresses'' \<longrightarrow> jget itf' k = jget (get_default (iface_rec ifs n) d) k)"
    using itf 2 jget_jchange [OF itf(2)] by auto
qed

text \<open>
  A service that answers each query always the same way, and the interface record it gives for the
  interface an address is assigned to.
\<close>

definition iface_query :: "nb_cfg \<Rightarrow> bool \<Rightarrow> json \<Rightarrow> nb_query" where
  "iface_query cfg vm i = \<lparr>nq_url = [api_part cfg, JStr (if_app vm), JStr ''interfaces'', i, JStr []],
     nq_params = [], nq_headers = nb_headers cfg\<rparr>"

definition address_query :: "nb_cfg \<Rightarrow> bool \<Rightarrow> json \<Rightarrow> nb_query" where
  "address_query cfg vm i = \<lparr>nq_url = [api_part cfg, JStr ''ipam'', JStr ''ip-addresses'', JStr []],
     nq_params = [(id_param vm, i)], nq_headers = nb_headers cfg\<rparr>"

definition iface_of :: "(nb_query \<Rightarrow> json) \<Rightarrow> nb_cfg \<Rightarrow> bool \<Rightarrow> json \<Rightarrow> json res" where
  "iface_of ans cfg vm ip =
     rbind (jget ip ''assigned_object_id'') (\<lambda>i. jget (ans (iface_query cfg vm i)) ''dict'')"

definition owner :: "(nb_query \<Rightarrow> json) \<Rightarrow> nb_cfg \<Rightarrow> bool \<Rightarrow> json \<Rightarrow> json res" where
  "owner ans cfg vm ip = rbind (iface_of ans cfg vm ip) (\<lambda>d. jget d ''name'')"

lemma fbind_NextE:
  assumes "fbind m f w = (Inr (Next y), w'')"
  obtains x w' where "m w = (Inr (Next x), w')" and "f x w' = (Inr (Next y), w'')"
  using assms unfolding fbind_def by (auto elim!: abind_InrE split: flow.splits)

lemma address_loop_Cons:
  assumes "address_loop (\<lambda>q. areturn (ans q)) cfg (ip # ips) nb w = (Inr (Next nb'), w')"
    and "jin ''vcpus'' nb = Inr vm" and "jget nb ''interfaces'' = Inr ifs"
  obtains d n nb1 ifs1 where "iface_of ans cfg vm ip = Inr d" and "jget d ''name'' = Inr n"
    and "owner ans cfg vm ip = Inr n" and "attach d ip ifs = Inr ifs1"
    and "address_loop (\<lambda>q. areturn (ans q)) cfg ips nb1 w = (Inr (Next nb'), w')"
    and "jin ''vcpus'' nb1 = Inr vm" and "jget nb1 ''interfaces'' = Inr ifs1"
    and "\<And>k. k \<noteq> ''interfaces'' \<Longrightarrow> jget nb1 k = jget nb k"
proof -
  from assms(1,2) obtain i d nb1 where i: "jget ip ''assigned_object_id'' = Inr i"
    and d: "jget (ans (iface_query cfg vm i)) ''dict'' = Inr d"
    and nb1: "jchange (JStr ''interfaces'') (attach d ip) nb = Inr nb1"
    and rest: "address_loop (\<lambda>q. areturn (ans q)) cfg ips nb1 w = (Inr (Next nb'), w')"
    by (auto elim!: abind_InrE fbind_NextE simp: alift_def nb_get_def iface_query_def rbind_eq_Inr)
  have dip: "iface_of ans cfg vm ip = Inr d" by (simp add: iface_of_def i d)
  obtain ifs1 where att: "attach d ip ifs = Inr ifs1" and ifs1: "jget nb1 ''interfaces'' = Inr ifs1"
    using nb1 assms(3) by (auto simp: jchange_Inr dict_get_set jget_Inr)
  obtain n where n: "jget d ''name'' = Inr n" using att by (auto simp: attach_def rbind_eq_Inr)
  show thesis
    using that [OF dip n _ att rest _ ifs1] n dip jin_jchange [OF nb1] assms(2) jget_jchange [OF nb1]
    by (simp add: owner_def)
qed

text \<open>The record an interface starts from: the listed one, or the one given for its first address.\<close>

definition first_rec :: "(nb_query \<Rightarrow> json) \<Rightarrow> nb_cfg \<Rightarrow> bool \<Rightarrow> json list \<Rightarrow> json \<Rightarrow> json \<Rightarrow> json" where
  "first_rec ans cfg vm ips ifs n =
     (case iface_rec ifs n of
        Some itf \<Rightarrow> itf
      | None \<Rightarrow> (case filter (\<lambda>ip. owner ans cfg vm ip = Inr n) ips of
          [] \<Rightarrow> JNull | ip # _ \<Rightarrow> projr (iface_of ans cfg vm ip)))"

definition loop_result :: "(nb_query \<Rightarrow> json) \<Rightarrow> nb_cfg \<Rightarrow> bool \<Rightarrow> json list \<Rightarrow> json \<Rightarrow> json \<Rightarrow> bool" where
  "loop_result ans cfg vm ips ifs ifs' \<longleftrightarrow>
     (\<forall>n. addrs ifs' n = addrs ifs n @ filter (\<lambda>ip. owner ans cfg vm ip = Inr n) ips) \<and>
     (\<forall>n. if \<exists>ip \<in> set ips. owner ans cfg vm ip = Inr n
          then \<exists>itf. iface_rec ifs' n = Some itf \<and>
            (\<forall>k. k \<noteq> ''ipaddresses'' \<longrightarrow> jget itf k = jget (first_rec ans cfg vm ips ifs n) k)
          else iface_rec ifs' n = iface_rec ifs n)"

lemma address_loop_result:
  assumes "address_loop (\<lambda>q. areturn (ans q)) cfg ips nb w = (Inr (Next nb'), w')"
    and "jin ''vcpus'' nb = Inr vm" and "jget nb ''interfaces'' = Inr ifs"
    and "\<And>ip d. ip \<in> set ips \<Longrightarrow> iface_of ans cfg vm ip = Inr d \<Longrightarrow> jin ''ipaddresses'' d = Inr False"
  shows "\<exists>ifs'. jget nb' ''interfaces'' = Inr ifs' \<and> loop_result ans cfg vm ips ifs ifs' \<and>
    (\<forall>k. k \<noteq> ''interfaces'' \<longrightarrow> jget nb' k = jget nb k)"
  using assms
proof (induction ips arbitrary: nb ifs w)
  case Nil
  then show ?case by (simp add: loop_result_def)
next
  case (Cons ip ips)
  from Cons.prems(1-3) obtain d n nb1 ifs1 where
    d: "iface_of ans cfg vm ip = Inr d" and n: "jget d ''name'' = Inr n"
    and own: "owner ans cfg vm ip = Inr n" and att: "attach d ip ifs = Inr ifs1"
    and rest: "address_loop (\<lambda>q. areturn (ans q)) cfg ips nb1 w = (Inr (Next nb'), w')"
      "jin ''vcpus'' nb1 = Inr vm" "jget nb1 ''interfaces'' = Inr ifs1"
    and same: "\<And>k. k \<noteq> ''interfaces'' \<Longrightarrow> jget nb1 k = jget nb k" by (rule address_loop_Cons) blast
  from Cons.IH [OF rest] Cons.prems(4) obtain ifs' where ifs': "jget nb' ''interfaces'' = Inr ifs'"
    and IH: "loop_result ans cfg vm ips ifs1 ifs'" and same': "\<forall>k. k \<noteq> ''interfaces'' \<longrightarrow> jget nb' k = jget nb1 k"
    by auto
  have step: "addrs ifs1 m = addrs ifs m @ (if m = n then [ip] else [])" for m
    by (rule attach_addrs [OF att n Cons.prems(4) [OF _ d]]) simp
  then have addrs: "\<forall>m. addrs ifs' m = addrs ifs m @ filter (\<lambda>ip. owner ans cfg vm ip = Inr m) (ip # ips)"
    using IH own by (auto simp: loop_result_def)
  obtain itf where itf: "iface_rec ifs1 n = Some itf"
    "\<forall>k. k \<noteq> ''ipaddresses'' \<longrightarrow> jget itf k = jget (first_rec ans cfg vm (ip # ips) ifs n) k"
    using attach_frame(2) [OF att n] own d by (auto simp: first_rec_def get_default_def split: option.splits)
  have "if \<exists>ip \<in> set (ip # ips). owner ans cfg vm ip = Inr m
      then \<exists>itf. iface_rec ifs' m = Some itf \<and>
        (\<forall>k. k \<noteq> ''ipaddresses'' \<longrightarrow> jget itf k = jget (first_rec ans cfg vm (ip # ips) ifs m) k)
      else iface_rec ifs' m = iface_rec ifs m" for m
  proof (cases "m = n")
    case True
    have "first_rec ans cfg vm ips ifs1 n = itf" using itf(1) by (simp add: first_rec_def)
    then have "\<exists>itf'. iface_rec ifs' n = Some itf' \<and> (\<forall>k. k \<noteq> ''ipaddresses'' \<longrightarrow> jget itf' k = jget itf k)"
      using IH itf(1) unfolding loop_result_def by (metis (no_types, lifting))
    then show ?thesis using True own itf(2) by auto
  next
    case False
    have "iface_rec ifs1 m = iface_rec ifs m" by (rule attach_frame(1) [OF att n False])
    moreover have "owner ans cfg vm ip \<noteq> Inr m" using own False by simp
    ultimately have "first_rec ans cfg vm ips ifs1 m = first_rec ans cfg vm (ip # ips) ifs m"
      by (cases "iface_rec ifs m") (simp_all add: first_rec_def)
    moreover have "if \<exists>ip \<in> set ips. owner ans cfg vm ip = Inr m
        then \<exists>itf. iface_rec ifs' m = Some itf \<and>
          (\<forall>k. k \<noteq> ''ipaddresses'' \<longrightarrow> jget itf k = jget (first_rec ans cfg vm ips ifs1 m) k)
        else iface_rec ifs' m = iface_rec ifs1 m"
      using IH unfolding loop_result_def by blast
    ultimately show ?thesis using \<open>owner ans cfg vm ip \<noteq> Inr m\<close> \<open>iface_rec ifs1 m = iface_rec ifs m\<close>
      by (cases "\<exists>ip \<in> set ips. owner ans cfg vm ip = Inr m") simp_all
  qed
  with addrs have "loop_result ans cfg vm (ip # ips) ifs ifs'" unfolding loop_result_def by blast
  with ifs' same same' show ?case by auto
qed

text \<open>
  C20. Addresses are filed under their interface: with a service that gives the same answers during
  the run and sends no key \<open>ipaddresses\<close> of its own in an interface record, the addresses that the pillar lists for an interface name are those it listed before,
  followed by exactly the addresses of the device whose interface has that name, in the order of the
  answer. Nothing else changes: the record of an interface that gets an address keeps its other keys
  (the record listed before, or else the one the service gives for its first address), the record of
  an interface that gets none is as it was, and so is every key of the pillar but \<open>interfaces\<close>.
\<close>

theorem addresses_filed_by_interface:
  assumes "add_addresses (\<lambda>q. areturn (ans q)) cfg i nb w = (Inr (Next (nb', l)), w')"
    and "jin ''vcpus'' nb = Inr vm" and "jget nb ''interfaces'' = Inr ifs"
    and "\<And>ip d. iface_of ans cfg vm ip = Inr d \<Longrightarrow> jin ''ipaddresses'' d = Inr False"
  shows "\<exists>ips ifs'. rbind (results_of (ans (address_query cfg vm i))) jiter = Inr ips \<and>
    jget nb' ''interfaces'' = Inr ifs' \<and>
    (\<forall>n. addrs ifs' n = addrs ifs n @ filter (\<lambda>ip. owner ans cfg vm ip = Inr n) ips) \<and>
    (\<forall>n. if \<exists>ip \<in> set ips. owner ans cfg vm ip = Inr n
         then \<exists>itf. iface_rec ifs' n = Some itf \<and>
           (\<forall>k. k \<noteq> ''ipaddresses'' \<longrightarrow> jget itf k = jget (first_rec ans cfg vm ips ifs n) k)
         else iface_rec ifs' n = iface_rec ifs n) \<and>
    (\<forall>k. k \<noteq> ''interfaces'' \<longrightarrow> jget nb' k = jget nb k)"
proof -
  from assms(1,2) obtain ips where ips: "rbind (results_of (ans (address_query cfg vm i))) jiter = Inr ips"
    and loop: "address_loop (\<lambda>q. areturn (ans q)) cfg ips nb w = (Inr (Next nb'), w')"
    unfolding add_addresses_def
    by (auto elim!: abind_InrE fbind_NextE simp: alift_def nb_get_def address_query_def)
  from address_loop_result [OF loop assms(2,3)] assms(4) ips show ?thesis
    unfolding loop_result_def by blast
qed

section \<open>An example service\<close>

definition body :: "json \<Rightarrow> json" where
  "body d = jd [(''dict'', d)]"

definition ex_iface :: json where
  "ex_iface = jd [(''id'', JInt 3), (''name'', JStr ''eth0'')]"

definition ex_addr :: json where
  "ex_addr = jd [(''address'', JStr ''10.0.0.1/24''), (''assigned_object_id'', JInt 3)]"

definition ex_ans :: "nb_query \<Rightarrow> json" where
  "ex_ans q = (case nq_url q of
     [_, _] \<Rightarrow> JNull
   | [_, app, ep] \<Rightarrow>
       if ep = JStr ''devices'' then body (jd [(''results'', JList [jd [(''id'', JInt 7)]])])
       else body (jd [(''results'', JList [])])
   | [_, app, ep, _] \<Rightarrow>
       if ep = JStr ''interfaces'' then body (jd [(''results'', JList [ex_iface])])
       else body (jd [(''results'', JList [ex_addr])])
   | [_, app, ep, _, _] \<Rightarrow>
       if ep = JStr ''interfaces'' then body ex_iface
       else body (jd [(''site'', JNull), (''tags'', JList []), (''platform'', jd [(''url'', JStr ''p'')]),
         (''primary_ip4'', jd [(''address'', JStr ''10.0.0.1/24'')])])
   | _ \<Rightarrow> body (jd [(''napalm_driver'', JStr ''junos'')]))"

definition ex_cfg :: nb_cfg where
  "ex_cfg = \<lparr>nc_api_url = Some ''http://netbox/api/'', nc_api_token = None, nc_site_details = None,
     nc_site_prefixes = None, nc_proxy_username = None, nc_proxy_return = None\<rparr>"

theorem pillar_never_has_proxy_witness:
  "\<not> isl (fst (ext_pillar (\<lambda>q. areturn (ex_ans q)) ''gw01'' ex_cfg ())) \<and>
   (projr (fst (ext_pillar (\<lambda>q. areturn (ex_ans q)) ''gw01'' ex_cfg ())) = JDict [] \<or>
    (\<exists>nb. projr (fst (ext_pillar (\<lambda>q. areturn (ex_ans q)) ''gw01'' ex_cfg ())) = JDict [(JStr ''netbox'', nb)]))"
proof -
  let ?P = "ext_pillar (\<lambda>q. areturn (ex_ans q)) ''gw01'' ex_cfg ()"
  have ok: "\<not> isl (fst ?P)" by code_simp
  then have "?P = (Inr (projr (fst ?P)), snd ?P)" by (simp add: prod_eq_iff)
  from pillar_never_has_proxy [OF this] ok show ?thesis by blast
qed

theorem addresses_filed_by_interface_witness:
  "\<exists>ifs' itf. (\<forall>n. addrs ifs' n = filter (\<lambda>ip. owner ex_ans ex_cfg False ip = Inr n) [ex_addr]) \<and>
     addrs ifs' (JStr ''eth0'') = [ex_addr] \<and> iface_rec ifs' (JStr ''eth0'') = Some itf \<and> jget itf ''id'' = Inr (JInt 3)"
proof -
  let ?nb = "jd [(''interfaces'', JDict [])]"
  let ?P = "add_addresses (\<lambda>q. areturn (ex_ans q)) ex_cfg (JInt 7) ?nb ()"
  let ?own = "\<lambda>n ip. owner ex_ans ex_cfg False ip = Inr n"
  have run: "?P = (Inr (Next (jd [(''interfaces'', jd [(''eth0'', jd [(''id'', JInt 3), (''name'', JStr ''eth0''),
      (''ipaddresses'', JList [ex_addr])])])], Some ex_addr)), ())" by code_simp
  have vm: "jin ''vcpus'' ?nb = Inr False" and ifs: "jget ?nb ''interfaces'' = Inr (JDict [])" by code_simp+
  have new: "jin ''ipaddresses'' d = Inr False" if "iface_of ex_ans ex_cfg False ip = Inr d" for ip d
  proof -
    have "d = ex_iface" using that
      by (auto simp: iface_of_def rbind_eq_Inr ex_ans_def iface_query_def body_def jd_def dict_get_def)
    then show ?thesis by simp code_simp
  qed
  obtain ips ifs' where
    ips: "rbind (results_of (ex_ans (address_query ex_cfg False (JInt 7)))) jiter = Inr ips"
    and ifs': "\<forall>n. addrs ifs' n = addrs (JDict []) n @ filter (?own n) ips"
    and rec: "\<forall>n. if \<exists>ip \<in> set ips. ?own n ip
         then \<exists>itf. iface_rec ifs' n = Some itf \<and>
           (\<forall>k. k \<noteq> ''ipaddresses'' \<longrightarrow> jget itf k = jget (first_rec ex_ans ex_cfg False ips (JDict []) n) k)
         else iface_rec ifs' n = iface_rec (JDict []) n"
    using addresses_filed_by_interface [OF run vm ifs] new by blast
  have "rbind (results_of (ex_ans (address_query ex_cfg False (JInt 7)))) jiter = Inr [ex_addr]" by code_simp
  then have [simp]: "ips = [ex_addr]" using ips by simp
  have own: "owner ex_ans ex_cfg False ex_addr = Inr (JStr ''eth0'')" by code_simp
  have first: "jget (first_rec ex_ans ex_cfg False [ex_addr] (JDict []) (JStr ''eth0'')) ''id'' = Inr (JInt 3)" by code_simp
  obtain itf where "iface_rec ifs' (JStr ''eth0'') = Some itf" "jget itf ''id'' = Inr (JInt 3)"
    using spec [OF rec, of "JStr ''eth0''"] own first by auto
  moreover have "addrs (JDict []) n = []" for n by (simp add: addrs_def dict_get_def)
  ultimately show ?thesis using ifs' own by (intro exI [of _ ifs'] exI [of _ itf]) auto
qed

text \<open>
  C21. A failing query for the device record is not handled as meant: the error branch reads the
  \<open>status\<close> of the search answer instead of that of the failed answer; a successful search answer
  has no such key, so the pillar raises a \<open>KeyError\<close> where it should log and return what it has.
\<close>

theorem device_failure_raises:
  assumes "minion_id \<noteq> ''*''" and "nc_api_url cfg \<noteq> None"
    and "find_device http cfg minion_id w = (Inr (Next s), w1)"
    and "results_of s = Inr (JList [first])" and "jin ''vcpus'' first = Inr vm" and "jget first ''id'' = Inr i"
    and "\<And>q. http q w1 = (Inr a, w2)" and "jin ''error'' a = Inr True"
    and "jget s ''status'' = Inl (KeyError ''status'')"
  shows "ext_pillar http minion_id cfg w = (Inl (KeyError ''status''), w2)"
proof -
  have "fetch_device http cfg s w1 = (Inl (KeyError ''status''), w2)"
    using assms(4-9) by (simp add: fetch_device_def abind_def alift_def fbind_def nb_get_def check_error_def
        log_failure_def araise_def)
  then show ?thesis
    using assms(1-3) by (auto simp: ext_pillar_def pillar_flow_def fbind_def abind_def)
qed

definition ex_failing :: "nb_query \<Rightarrow> (nat, json) act" where
  "ex_failing q n = (Inr (if n = 0 then ex_ans q
     else jd [(''error'', JStr ''HTTP 502''), (''status'', JInt 502)]), Suc n)"

theorem device_failure_raises_witness:
  "ext_pillar ex_failing ''gw01'' ex_cfg 0 = (Inl (KeyError ''status''), 2)"
proof (rule device_failure_raises)
  show "find_device ex_failing ex_cfg ''gw01'' 0 = (Inr (Next (body (jd [(''results'', JList [jd [(''id'', JInt 7)]])]))), 1)"
    by code_simp
  show "results_of (body (jd [(''results'', JList [jd [(''id'', JInt 7)]])])) = Inr (JList [jd [(''id'', JInt 7)]])"
    by code_simp
  show "ex_failing q 1 = (Inr (jd [(''error'', JStr ''HTTP 502''), (''status'', JInt 502)]), 2)" for q
    by (simp add: ex_failing_def)
  show "jin ''vcpus'' (jd [(''id'', JInt 7)]) = Inr False" by code_simp
  show "jget (jd [(''id'', JInt 7)]) ''id'' = Inr (JInt 7)" by code_simp
  show "jin ''error'' (jd [(''error'', JStr ''HTTP 502''), (''status'', JInt 502)]) = Inr True" by code_simp
  show "jget (body (jd [(''results'', JList [jd [(''id'', JInt 7)]])])) ''status'' = Inl (KeyError ''status'')" by code_simp
qed (simp_all add: ex_cfg_def)

text \<open>A failing search raises too: its length is taken before the check for an error.\<close>

lemma search_failure_raises:
  assumes "search http cfg minion_id ''dcim'' ''devices'' w = (Inr (JDict d), w1)" and "dict_get d (JStr ''dict'') = None"
  shows "find_device http cfg minion_id w = (Inl (KeyError ''dict''), w1)"
  using assms by (simp add: find_device_def abind_def alift_def results_of_def araise_def)

end
