(* ===== verification/PyArgparse.thy ===== *)
theory PyArgparse
  imports PyFloat
begin

text \<open>
  Command lines, the part of Python's \<open>argparse\<close> (3.11) that the programs use: options that store
  a text or a float, flags, options that print something and exit, and at most one optional positional
  argument. A failure is \<open>SystemExit\<close> with the exit code 2, a request for help the exit code 0. Floats
  are those of \<open>py_float\<close>.
\<close>

section \<open>Parsers\<close>

datatype arg_val = ANone | AText string | ANum rat | AFlag bool

type_synonym namespace = "(string, arg_val) dict"

datatype arg_action = Store | StoreFloat | StoreTrue | ShowAndExit

record opt_spec =
  o_flags :: "string list"
  o_dest :: string
  o_action :: arg_action
  o_required :: bool
  o_default :: arg_val

record arg_parser =
  p_options :: "opt_spec list"
  p_positional :: "(string \<times> string) option"

definition opt_store :: "string \<Rightarrow> string \<Rightarrow> bool \<Rightarrow> arg_val \<Rightarrow> opt_spec" where
  "opt_store flag dest required v = \<lparr>o_flags = [flag], o_dest = dest, o_action = Store, o_required = required, o_default = v\<rparr>"

definition opt_float :: "string \<Rightarrow> string \<Rightarrow> opt_spec" where
  "opt_float flag dest = \<lparr>o_flags = [flag], o_dest = dest, o_action = StoreFloat, o_required = False, o_default = ANone\<rparr>"

definition opt_true :: "string list \<Rightarrow> string \<Rightarrow> opt_spec" where
  "opt_true flags dest = \<lparr>o_flags = flags, o_dest = dest, o_action = StoreTrue, o_required = False, o_default = AFlag False\<rparr>"

definition opt_show :: "string list \<Rightarrow> opt_spec" where
  "opt_show flags = \<lparr>o_flags = flags, o_dest = [], o_action = ShowAndExit, o_required = False, o_default = ANone\<rparr>"

text \<open>Every parser has the option \<open>--help\<close> first.\<close>

definition argument_parser :: "opt_spec list \<Rightarrow> (string \<times> string) option \<Rightarrow> arg_parser" where
  "argument_parser opts pos = \<lparr>p_options = opt_show [''-h'', ''--help''] # opts, p_positional = pos\<rparr>"

definition flag_table :: "arg_parser \<Rightarrow> (string \<times> opt_spec) list" where
  "flag_table P = concat (map (\<lambda>opt. map (\<lambda>f. (f, opt)) (o_flags opt)) (p_options P))"

definition arg_error :: "'a res" where
  "arg_error = Inl (SystemExit ''2'')"

section \<open>Classification\<close>

text \<open>
  What an argument is: a value, or an option with its flag, whether the value follows an equals sign, and
  the value; an option that is not known has no specification.
\<close>

type_synonym opt_use = "opt_spec option \<times> string \<times> bool \<times> string option"

datatype arg_token = Val string | Opt opt_use | Dashes

definition negative_number :: "string \<Rightarrow> bool" where
  "negative_number s =
     (let t = drop 1 (if last s = NL then butlast s else s);
          rest = dropWhile is_digit t in
      isdigit t \<or> (case rest of [] \<Rightarrow> False | c # ds \<Rightarrow> c = CHR ''.'' \<and> isdigit ds))"

definition option_tuples :: "arg_parser \<Rightarrow> string \<Rightarrow> opt_use list" where
  "option_tuples P s =
     (if startswith s ''--'' then
        (case partition_on CHR ''='' s of (pre, sep, x) \<Rightarrow>
          map (\<lambda>(f, opt). (Some opt, f, sep, if sep then Some x else None)) (filter (\<lambda>(f, opt). startswith f pre) (flag_table P)))
      else
        concat (map (\<lambda>(f, opt).
            if f = take 2 s then [(Some opt, f, False, Some (drop 2 s))]
            else if startswith f s then [(Some opt, f, False, None)] else [])
          (flag_table P)))"

definition parse_optional :: "arg_parser \<Rightarrow> string \<Rightarrow> opt_use option res" where
  "parse_optional P s =
     (if s = [] \<or> hd s \<noteq> CHR ''-'' then Inr None
      else case map_of (flag_table P) s of
        Some opt \<Rightarrow> Inr (Some (Some opt, s, False, None))
      | None \<Rightarrow>
          if length s = 1 then Inr None
          else (case partition_on CHR ''='' s of (pre, sep, x) \<Rightarrow>
            (case (if sep then map_of (flag_table P) pre else None) of
               Some opt \<Rightarrow> Inr (Some (Some opt, pre, True, Some x))
             | None \<Rightarrow>
                 (case option_tuples P s of
                    _ # _ # _ \<Rightarrow> arg_error
                  | [use] \<Rightarrow> Inr (Some use)
                  | [] \<Rightarrow> if negative_number s \<or> CHR '' '' \<in> set s then Inr None
                          else Inr (Some (None, s, False, None))))))"

fun arg_tokens :: "arg_parser \<Rightarrow> string list \<Rightarrow> arg_token list res" where
  "arg_tokens P [] = Inr []"
| "arg_tokens P (s # ss) =
     (if s = ''--'' then Inr (Dashes # map Val ss)
      else rbind (parse_optional P s) (\<lambda>use.
        rbind (arg_tokens P ss) (\<lambda>ts. Inr ((case use of None \<Rightarrow> Val s | Some u \<Rightarrow> Opt u) # ts))))"

section \<open>Actions\<close>

record arg_state =
  as_ns :: namespace
  as_seen :: "string list"
  as_extras :: "string list"
  as_positional :: "string option"

definition take_action :: "opt_spec \<Rightarrow> string option \<Rightarrow> arg_state \<Rightarrow> arg_state res" where
  "take_action opt value st =
     rbind (case (o_action opt, value) of
         (Store, Some v) \<Rightarrow> Inr (AText v)
       | (StoreFloat, Some v) \<Rightarrow> (case py_float v of Inl _ \<Rightarrow> arg_error | Inr q \<Rightarrow> Inr (ANum q))
       | (StoreTrue, _) \<Rightarrow> Inr (AFlag True)
       | (ShowAndExit, _) \<Rightarrow> Inl (SystemExit ''0'')
       | _ \<Rightarrow> arg_error) (\<lambda>v.
     Inr (st\<lparr>as_ns := dict_set (o_dest opt) v (as_ns st), as_seen := o_dest opt # as_seen st\<rparr>))"

definition takes_value :: "opt_spec \<Rightarrow> bool" where
  "takes_value opt \<longleftrightarrow> o_action opt = Store \<or> o_action opt = StoreFloat"

text \<open>
  The options in one argument: short flags may share it (\<open>-vt\<close>). The result is the options with the values
  inside of the argument, the one that takes the next argument, and what is left over.
\<close>

function option_group :: "arg_parser \<Rightarrow> opt_spec \<Rightarrow> string \<Rightarrow> bool \<Rightarrow> string option
    \<Rightarrow> ((opt_spec \<times> string option) list \<times> opt_spec option \<times> string list) res" where
  "option_group P opt flag sep value =
     (case value of
        None \<Rightarrow> if takes_value opt then Inr ([], Some opt, []) else Inr ([(opt, None)], None, [])
      | Some x \<Rightarrow>
          if takes_value opt then Inr ([(opt, Some x)], None, [])
          else if startswith flag ''--'' \<or> x = [] \<or> sep \<or> hd x = CHR ''-'' then arg_error
          else case map_of (flag_table P) [CHR ''-'', hd x] of
            None \<Rightarrow> Inr ([(opt, None)], None, [CHR ''-'' # x])
          | Some opt' \<Rightarrow>
              rbind (option_group P opt' [CHR ''-'', hd x] (take 1 (tl x) = ''='')
                (if tl x = [] then None else if take 1 (tl x) = ''='' then Some (drop 2 x) else Some (tl x))) (\<lambda>(os, next, ex).
              Inr ((opt, None) # os, next, ex)))"
  by pat_completeness auto
termination
  by (relation "measure (\<lambda>(P, opt, flag, sep, value). case value of None \<Rightarrow> 0 | Some x \<Rightarrow> Suc (length x))")
    (auto simp: length_greater_0_conv [symmetric] simp del: length_greater_0_conv)

definition take_actions :: "(opt_spec \<times> string option) list \<Rightarrow> arg_state \<Rightarrow> arg_state res" where
  "take_actions os st = rfold (\<lambda>(opt, v). take_action opt v) os st"

definition take_positional :: "string \<Rightarrow> string \<Rightarrow> arg_state \<Rightarrow> arg_state" where
  "take_positional dest v st = st\<lparr>as_ns := dict_set dest (AText v) (as_ns st), as_positional := None\<rparr>"

definition drop_dashes :: "arg_token list \<Rightarrow> arg_token list" where
  "drop_dashes ts = (case ts of Dashes # ts' \<Rightarrow> ts' | _ \<Rightarrow> ts)"

lemma length_drop_dashes: "length (drop_dashes ts) \<le> length ts"
  by (auto simp: drop_dashes_def split: list.split arg_token.split)

function consume :: "arg_parser \<Rightarrow> arg_token list \<Rightarrow> arg_state \<Rightarrow> arg_state res" where
  "consume P [] st = Inr st"
| "consume P (Val s # ts) st =
     (case as_positional st of
        Some dest \<Rightarrow> consume P (drop_dashes ts) (take_positional dest s st)
      | None \<Rightarrow> consume P ts (st\<lparr>as_extras := as_extras st @ [s]\<rparr>))"
| "consume P (Dashes # ts) st =
     (case as_positional st of
        Some dest \<Rightarrow> (case ts of
            Val s # ts' \<Rightarrow> consume P ts' (take_positional dest s st)
          | _ \<Rightarrow> consume P ts (st\<lparr>as_positional := None\<rparr>))
      | None \<Rightarrow> consume P ts (st\<lparr>as_extras := as_extras st @ [''--'']\<rparr>))"
| "consume P (Opt (None, s, sep, value) # ts) st = consume P ts (st\<lparr>as_extras := as_extras st @ [s]\<rparr>)"
| "consume P (Opt (Some opt, flag, sep, value) # ts) st =
     (case option_group P opt flag sep value of
        Inl e \<Rightarrow> Inl e
      | Inr (os, None, ex) \<Rightarrow>
          (case take_actions os (st\<lparr>as_extras := as_extras st @ ex\<rparr>) of Inl e \<Rightarrow> Inl e | Inr st' \<Rightarrow> consume P ts st')
      | Inr (os, Some o', ex) \<Rightarrow>
          (case ts of
             Val v # ts' \<Rightarrow> (case take_actions (os @ [(o', Some v)]) st of Inl e \<Rightarrow> Inl e | Inr st' \<Rightarrow> consume P ts' st')
           | _ \<Rightarrow> arg_error))"
  by pat_completeness auto
termination
  by (relation "measure (\<lambda>(P, ts, st). length ts)") (auto simp: less_Suc_eq_le length_drop_dashes)

definition defaults :: "arg_parser \<Rightarrow> namespace" where
  "defaults P = fold (\<lambda>opt ns. if o_action opt = ShowAndExit then ns else dict_set (o_dest opt) (o_default opt) ns) (p_options P)
     (case p_positional P of None \<Rightarrow> [] | Some (dest, v) \<Rightarrow> [(dest, AText v)])"

definition parse_args :: "arg_parser \<Rightarrow> string list \<Rightarrow> namespace res" where
  "parse_args P argv =
     rbind (arg_tokens P argv) (\<lambda>ts.
     rbind (consume P ts \<lparr>as_ns = defaults P, as_seen = [], as_extras = [],
         as_positional = map_option fst (p_positional P)\<rparr>) (\<lambda>st.
     if (\<exists>opt \<in> set (p_options P). o_required opt \<and> o_dest opt \<notin> set (as_seen st)) \<or> as_extras st \<noteq> [] then arg_error
     else Inr (as_ns st)))"

text \<open>What the programs read from the namespace.\<close>

definition ns_text :: "namespace \<Rightarrow> string \<Rightarrow> string option" where
  "ns_text ns k = (case dict_get ns k of Some (AText v) \<Rightarrow> Some v | _ \<Rightarrow> None)"

definition ns_num :: "namespace \<Rightarrow> string \<Rightarrow> rat option" where
  "ns_num ns k = (case dict_get ns k of Some (ANum q) \<Rightarrow> Some q | _ \<Rightarrow> None)"

definition ns_flag :: "namespace \<Rightarrow> string \<Rightarrow> bool" where
  "ns_flag ns k = (dict_get ns k = Some (AFlag True))"

section \<open>Options with their values\<close>

text \<open>
  A command line of long options: flags and options with a value in the next argument, in any order.
\<close>

type_synonym given_option = "string \<times> string option"

definition option_words :: "given_option \<Rightarrow> string list" where
  "option_words kv = (''--'' @ fst kv) # (case snd kv of None \<Rightarrow> [] | Some v \<Rightarrow> [v])"

definition command_line :: "given_option list \<Rightarrow> string list" where
  "command_line opts = concat (map option_words opts)"

definition known_option :: "arg_parser \<Rightarrow> given_option \<Rightarrow> bool" where
  "known_option P kv \<longleftrightarrow> fst kv \<noteq> [] \<and> (case map_of (flag_table P) (''--'' @ fst kv) of
     None \<Rightarrow> False
   | Some opt \<Rightarrow> o_dest opt = fst kv \<and> o_action opt = (if snd kv = None then StoreTrue else Store))"

text \<open>What may stand where an option expects its value.\<close>

definition is_value :: "arg_parser \<Rightarrow> string \<Rightarrow> bool" where
  "is_value P v \<longleftrightarrow> v \<noteq> ''--'' \<and> parse_optional P v = Inr None"

definition values_fit :: "arg_parser \<Rightarrow> given_option list \<Rightarrow> bool" where
  "values_fit P opts \<longleftrightarrow> list_all (\<lambda>kv. case snd kv of None \<Rightarrow> True | Some v \<Rightarrow> is_value P v) opts"

definition stored_value :: "string option \<Rightarrow> arg_val" where
  "stored_value v = (case v of None \<Rightarrow> AFlag True | Some s \<Rightarrow> AText s)"

definition store_option :: "given_option \<Rightarrow> arg_state \<Rightarrow> arg_state" where
  "store_option kv st = st\<lparr>as_ns := dict_set (fst kv) (stored_value (snd kv)) (as_ns st), as_seen := fst kv # as_seen st\<rparr>"

definition arg_run :: "arg_parser \<Rightarrow> string list \<Rightarrow> arg_state \<Rightarrow> arg_state res" where
  "arg_run P argv st = rbind (arg_tokens P argv) (\<lambda>ts. consume P ts st)"

lemma parse_optional_error: "parse_optional P s = Inl e \<Longrightarrow> Inl e = (arg_error :: 'b res)"
  by (auto simp: parse_optional_def arg_error_def split: if_splits option.splits list.splits prod.splits)

lemma arg_tokens_error: "arg_tokens P ss = Inl e \<Longrightarrow> Inl e = (arg_error :: 'b res)"
proof (induction ss)
  case (Cons s ss)
  show ?case
  proof (cases "parse_optional P s")
    case (Inl e')
    then show ?thesis using Cons.prems parse_optional_error [OF Inl] by (simp split: if_splits)
  next
    case (Inr u)
    then show ?thesis using Cons by (cases "arg_tokens P ss") (simp_all split: if_splits)
  qed
qed simp

lemma parse_optional_equals:
  assumes "map_of (flag_table P) f = Some opt" and "CHR ''='' \<notin> set f" and "startswith f ''-''"
    and "map_of (flag_table P) (f @ CHR ''='' # v) = None"
  shows "parse_optional P (f @ CHR ''='' # v) = Inr (Some (Some opt, f, True, Some v))"
  using assms by (cases f) (simp_all add: parse_optional_def partition_on_append [of "CHR ''=''" "_ # _", simplified])

lemma known_flag:
  assumes "known_option P (k, v)"
  obtains opt where "parse_optional P (''--'' @ k) = Inr (Some (Some opt, ''--'' @ k, False, None))"
    and "''--'' @ k \<noteq> ''--''" and "o_dest opt = k" and "o_action opt = (if v = None then StoreTrue else Store)"
  using assms by (auto simp: known_option_def parse_optional_def split: option.splits)

lemma run_flag:
  assumes "known_option P (k, None)"
  shows "arg_run P (option_words (k, None) @ rest) st = arg_run P rest (store_option (k, None) st)"
proof -
  obtain opt where o: "parse_optional P (''--'' @ k) = Inr (Some (Some opt, ''--'' @ k, False, None))" "''--'' @ k \<noteq> ''--''"
      "o_dest opt = k" "o_action opt = StoreTrue"
    using known_flag [OF assms] by auto
  show ?thesis
    using o by (cases "arg_tokens P rest")
      (simp_all add: arg_run_def option_words_def takes_value_def take_actions_def take_action_def store_option_def stored_value_def)
qed

lemma run_value:
  assumes "known_option P (k, Some v)" and "is_value P v"
  shows "arg_run P (option_words (k, Some v) @ rest) st = arg_run P rest (store_option (k, Some v) st)"
proof -
  obtain opt where o: "parse_optional P (''--'' @ k) = Inr (Some (Some opt, ''--'' @ k, False, None))" "''--'' @ k \<noteq> ''--''"
      "o_dest opt = k" "o_action opt = Store"
    using known_flag [OF assms(1)] by auto
  show ?thesis
    using o assms(2) by (cases "arg_tokens P rest")
      (simp_all add: arg_run_def is_value_def option_words_def takes_value_def take_actions_def take_action_def store_option_def stored_value_def)
qed

lemma run_no_value:
  assumes "known_option P (k, Some v)" and "\<not> is_value P v"
  shows "arg_run P (option_words (k, Some v) @ rest) st = arg_error"
proof -
  obtain opt where o: "parse_optional P (''--'' @ k) = Inr (Some (Some opt, ''--'' @ k, False, None))" "''--'' @ k \<noteq> ''--''"
      "o_dest opt = k" "o_action opt = Store"
    using known_flag [OF assms(1)] by auto
  show ?thesis
  proof (cases "v = ''--''")
    case True
    then show ?thesis using o by (simp add: arg_run_def option_words_def takes_value_def)
  next
    case False
    show ?thesis
    proof (cases "parse_optional P v")
      case (Inl e)
      then show ?thesis using o False parse_optional_error [OF Inl] by (simp add: arg_run_def option_words_def)
    next
      case (Inr u)
      then obtain use where u: "u = Some use" using assms(2) False by (cases u) (auto simp: is_value_def)
      show ?thesis
      proof (cases "arg_tokens P rest")
        case (Inl e)
        then show ?thesis using o False Inr arg_tokens_error [OF Inl] by (simp add: arg_run_def option_words_def)
      next
        case ts: (Inr ts)
        then show ?thesis using o False Inr u by (simp add: arg_run_def option_words_def takes_value_def)
      qed
    qed
  qed
qed

lemma run_command_line:
  assumes "list_all (known_option P) opts"
  shows "arg_run P (command_line opts) st = (if values_fit P opts then Inr (fold store_option opts st) else arg_error)"
  using assms
proof (induction opts arbitrary: st)
  case Nil
  then show ?case by (simp add: command_line_def values_fit_def arg_run_def)
next
  case (Cons kv opts)
  obtain k v where kv: "kv = (k, v)" by force
  have line: "command_line ((k, v) # opts) = option_words (k, v) @ command_line opts" by (simp add: command_line_def)
  show ?case
  proof (cases v)
    case None
    then show ?thesis using Cons run_flag [of P k "command_line opts" st] unfolding kv line by (simp add: values_fit_def)
  next
    case (Some x)
    then show ?thesis
      using Cons run_value [of P k x "command_line opts" st] run_no_value [of P k x "command_line opts" st]
      unfolding kv line by (cases "is_value P x") (simp_all add: values_fit_def)
  qed
qed

lemma store_option_fields:
  "as_extras (store_option kv st) = as_extras st"
  "as_seen (store_option kv st) = fst kv # as_seen st"
  "as_ns (store_option kv st) = dict_set (fst kv) (stored_value (snd kv)) (as_ns st)"
  by (simp_all add: store_option_def)

lemma stored_options:
  "as_extras (fold store_option opts st) = as_extras st"
  "set (as_seen (fold store_option opts st)) = fst ` set opts \<union> set (as_seen st)"
  "distinct (map fst opts) \<Longrightarrow> dict_get (as_ns (fold store_option opts st)) k =
     (case map_of opts k of None \<Rightarrow> dict_get (as_ns st) k | Some v \<Rightarrow> Some (stored_value v))"
proof (induction opts arbitrary: st)
  case (Cons kv opts)
  { case 1 show ?case by (simp add: Cons.IH store_option_fields) }
  { case 2 show ?case by (auto simp: Cons.IH store_option_fields) }
  { case 3
    then have "map_of opts (fst kv) = None" by (auto simp: map_of_eq_None_iff)
    with 3 show ?case by (auto simp: Cons.IH store_option_fields dict_get_set split: option.split) }
qed simp_all

text \<open>
  Parsing such a line succeeds exactly when every value may be one and the required options are there;
  the namespace has the given values and the defaults of the rest.
\<close>

lemma parse_command_line:
  assumes "list_all (known_option P) opts" and "distinct (map fst opts)"
    and "\<forall>opt \<in> set (p_options P). o_required opt \<longrightarrow> o_dest opt \<in> fst ` set opts"
  shows "if values_fit P opts
    then \<exists>ns. parse_args P (command_line opts) = Inr ns \<and>
      (\<forall>k. dict_get ns k = (case map_of opts k of None \<Rightarrow> dict_get (defaults P) k | Some v \<Rightarrow> Some (stored_value v)))
    else parse_args P (command_line opts) = arg_error"
proof -
  define st where "st = \<lparr>as_ns = defaults P, as_seen = [], as_extras = [], as_positional = map_option fst (p_positional P)\<rparr>"
  have run: "parse_args P (command_line opts) = rbind (arg_run P (command_line opts) st) (\<lambda>st.
     if (\<exists>opt \<in> set (p_options P). o_required opt \<and> o_dest opt \<notin> set (as_seen st)) \<or> as_extras st \<noteq> [] then arg_error
     else Inr (as_ns st))"
    by (cases "arg_tokens P (command_line opts)") (simp_all add: parse_args_def arg_run_def st_def)
  show ?thesis
    using stored_options(1,2) [of opts st] stored_options(3) [OF assms(2), of st] assms(3)
    unfolding run run_command_line [OF assms(1)] by (auto simp: st_def arg_error_def split: option.split)
qed

end
