(* ===== verification/Kea_Stats.thy ===== *)
theory Kea_Stats
  imports PyJsonText PyArgparse
begin

text \<open>
  Pool statistics of the Kea DHCP server, \<open>dhcp-server/kea_pool_stats.py\<close>: the exchange on the control
  socket, the report in the format of \<open>dhcpd-pools\<close>, and the Icinga check. The socket is a
  parameter; \<open>other\<close> is the text of values that are neither names nor numbers (see \<open>jstr\<close>), and \<open>repr\<close>
  that of floats in the printed report.
\<close>

section \<open>The control socket\<close>

text \<open>
  The loop that reads until the data parses. Data that cannot be decoded raises \<open>ValueError\<close>,
  and the loop goes on; the decoded \<open>null\<close> is the Python value \<open>None\<close>, for which the loop goes on as well. The
  loop ends with \<open>JNull\<close> when the peer closes the connection.
\<close>

partial_function (option) kea_loop ::
  "('w, string) act \<Rightarrow> string \<Rightarrow> 'w \<Rightarrow> (json res \<times> 'w) option" where
  "kea_loop recv data w =
     (case recv w of
        (Inl e, w') \<Rightarrow> Some (Inl e, w')
      | (Inr chunk, w') \<Rightarrow>
          if chunk = [] then Some (Inr JNull, w')
          else (case json_loads_bytes (data @ chunk) of
              None \<Rightarrow> kea_loop recv (data @ chunk) w'
            | Some response \<Rightarrow>
                if response = JNull then kea_loop recv (data @ chunk) w'
                else Some (Inr response, w')))"

declare kea_loop.simps [code]

text \<open>The checks after the loop.\<close>

definition kea_result :: "(json \<Rightarrow> string) \<Rightarrow> string \<Rightarrow> json \<Rightarrow> json res" where
  "kea_result other command response =
     (if response = JNull
      then Inl (RuntimeError (''no complete response from Kea for '' @ [SQUOTE] @ command @ [SQUOTE]))
      else
       rbind (case response of JList xs \<Rightarrow> jhead response | _ \<Rightarrow> Inr response) (\<lambda>response.
       rbind (jget_dflt response ''result'' JNull) (\<lambda>result.
       if \<not> jeq_int result 0
       then rbind (jget_dflt response ''text'' JNull) (\<lambda>text.
         Inl (RuntimeError (''Kea '' @ [SQUOTE] @ command @ [SQUOTE] @ '' failed: '' @ jstr other text)))
       else jget_dflt response ''arguments'' (JDict []))))"

text \<open>\<open>connect\<close> opens the socket at a path and sends the request.\<close>

definition kea_request :: "string \<Rightarrow> string" where
  "kea_request command = json_dumps default_format (\<lambda>_. []) (jd [(''command'', JStr command)])"

definition kea_command ::
  "(string \<Rightarrow> string \<Rightarrow> ('w, unit) act) \<Rightarrow> ('w, string) act \<Rightarrow> (json \<Rightarrow> string) \<Rightarrow>
     string \<Rightarrow> string \<Rightarrow> 'w \<Rightarrow> (json res \<times> 'w) option" where
  "kea_command connect recv other socket_path command w =
     (case connect socket_path (kea_request command) w of
        (Inl e, w') \<Rightarrow> Some (Inl e, w')
      | (Inr _, w') \<Rightarrow>
          (case kea_loop recv [] w' of
             None \<Rightarrow> None
           | Some (Inl e, w'') \<Rightarrow> Some (Inl e, w'')
           | Some (Inr response, w'') \<Rightarrow> Some (kea_result other command response, w'')))"

section \<open>Counters\<close>

definition kea_stat :: "json \<Rightarrow> string \<Rightarrow> int res" where
  "kea_stat stats name =
     rbind (jget_dflt stats name JNull) (\<lambda>samples.
     if \<not> jtruth samples then Inr 0 else rbind (jhead samples) (\<lambda>s. rbind (jhead s) jint))"

record counters =
  c_defined :: int
  c_used :: int
  c_touched :: int
  c_free :: int
  c_percent :: rat
  c_touch_count :: int
  c_touch_percent :: rat

text \<open>\<open>round(100.0 * n / defined, 3)\<close>; the integers are converted to floats first.\<close>

definition percent_of :: "int \<Rightarrow> int \<Rightarrow> rat" where
  "percent_of n defined =
     (if defined \<noteq> 0 then py_round 3 (fl (fl (100 * fl (of_int n)) / fl (of_int defined))) else 0)"

definition kea_counters :: "int \<Rightarrow> int \<Rightarrow> int \<Rightarrow> counters" where
  "kea_counters defined used touched =
     (let touch_count = used + touched in
      \<lparr>c_defined = defined, c_used = used, c_touched = touched, c_free = max (defined - used) 0,
       c_percent = percent_of used defined, c_touch_count = touch_count,
       c_touch_percent = percent_of touch_count defined\<rparr>)"

datatype status = OK | WARNING | CRITICAL | UNKNOWN

fun status_code :: "status \<Rightarrow> int" where
  "status_code OK = 0"
| "status_code WARNING = 1"
| "status_code CRITICAL = 2"
| "status_code UNKNOWN = 3"

fun STATUS_TEXT :: "status \<Rightarrow> string" where
  "STATUS_TEXT OK = ''OK''"
| "STATUS_TEXT WARNING = ''WARNING''"
| "STATUS_TEXT CRITICAL = ''CRITICAL''"
| "STATUS_TEXT UNKNOWN = ''UNKNOWN''"

definition kea_status :: "rat \<Rightarrow> rat option \<Rightarrow> rat option \<Rightarrow> status" where
  "kea_status percent warning critical =
     (case critical of Some c \<Rightarrow> if percent \<ge> c then CRITICAL
          else (case warning of Some v \<Rightarrow> if percent \<ge> v then WARNING else OK | None \<Rightarrow> OK)
      | None \<Rightarrow> (case warning of Some v \<Rightarrow> if percent \<ge> v then WARNING else OK | None \<Rightarrow> OK))"

section \<open>The report\<close>

record pool_entry =
  pe_location :: json
  pe_first_ip :: string
  pe_last_ip :: string
  pe_range :: string
  pe_counters :: counters
  pe_status :: status

record net_entry =
  ne_location :: json
  ne_counters :: counters
  ne_status :: status

record report =
  rp_subnets :: "pool_entry list"
  rp_shared_networks :: "net_entry list"
  rp_summary :: net_entry

type_synonym totals = "int \<times> int \<times> int"

text \<open>Warning and critical threshold, in percent.\<close>

type_synonym limits = "rat option \<times> rat option"

definition status_of :: "limits \<Rightarrow> counters \<Rightarrow> status" where
  "status_of lims c = kea_status (c_percent c) (fst lims) (snd lims)"

definition net_entry_of :: "limits \<Rightarrow> json \<Rightarrow> totals \<Rightarrow> net_entry" where
  "net_entry_of lims location t = (case t of (defined, used, touched) \<Rightarrow>
     let c = kea_counters defined used touched in
     \<lparr>ne_location = location, ne_counters = c, ne_status = status_of lims c\<rparr>)"

fun jpartition :: "char \<Rightarrow> json \<Rightarrow> (string \<times> string) res" where
  "jpartition c (JStr s) = (case partition_on c s of (a, _, b) \<Rightarrow> Inr (a, b))"
| "jpartition c v = Inl (AttributeError ''partition'')"

definition pool_entry_of :: "limits \<Rightarrow> json \<Rightarrow> json \<Rightarrow> totals \<Rightarrow> json \<Rightarrow> pool_entry res" where
  "pool_entry_of lims name subnet t pool =
     rbind (rbind (jget pool ''pool'') (jpartition CHR ''-'')) (\<lambda>(first_ip, last_ip).
     rbind (if jtruth name then Inr name else jget subnet ''subnet'') (\<lambda>location.
     case t of (defined, used, declined) \<Rightarrow>
       let c = kea_counters defined used declined in
       Inr \<lparr>pe_location = location, pe_first_ip = strip first_ip, pe_last_ip = strip last_ip,
         pe_range = strip first_ip @ '' - '' @ strip last_ip, pe_counters = c, pe_status = status_of lims c\<rparr>))"

text \<open>The pools of a subnet: its statistics are counted for the first pool only.\<close>

fun pool_loop :: "limits \<Rightarrow> json \<Rightarrow> json \<Rightarrow> totals \<Rightarrow> json list \<Rightarrow> pool_entry list res" where
  "pool_loop lims name subnet t [] = Inr []"
| "pool_loop lims name subnet t (pool # pools) =
     rbind (pool_entry_of lims name subnet t pool) (\<lambda>entry.
     rbind (pool_loop lims name subnet (0, 0, 0) pools) (\<lambda>entries. Inr (entry # entries)))"

definition subnet_totals :: "(json \<Rightarrow> string) \<Rightarrow> json \<Rightarrow> json \<Rightarrow> totals res" where
  "subnet_totals other stats subnet =
     rbind (jget subnet ''id'') (\<lambda>i.
     let pre = ''subnet['' @ jstr other i @ '']'' in
     rbind (kea_stat stats (pre @ ''.total-addresses'')) (\<lambda>defined.
     rbind (kea_stat stats (pre @ ''.declined-addresses'')) (\<lambda>declined.
     rbind (kea_stat stats (pre @ ''.assigned-addresses'')) (\<lambda>assigned.
     Inr (defined, max (assigned - declined) 0, declined)))))"

definition add_totals :: "totals \<Rightarrow> totals \<Rightarrow> totals" where
  "add_totals s t = (case s of (a, b, c) \<Rightarrow> case t of (x, y, z) \<Rightarrow> (a + x, b + y, c + z))"

fun subnet_loop ::
  "(json \<Rightarrow> string) \<Rightarrow> limits \<Rightarrow> json \<Rightarrow> json \<Rightarrow> json list \<Rightarrow> totals \<Rightarrow> (totals \<times> pool_entry list) res" where
  "subnet_loop other lims stats name [] net_totals = Inr (net_totals, [])"
| "subnet_loop other lims stats name (subnet # subnet_list) net_totals =
     rbind (subnet_totals other stats subnet) (\<lambda>t.
     rbind (rbind (jget_dflt subnet ''pools'' (JList [])) jiter) (\<lambda>pools.
     rbind (pool_loop lims name subnet t pools) (\<lambda>entries.
     rbind (subnet_loop other lims stats name subnet_list (add_totals net_totals t)) (\<lambda>(net_totals, more).
     Inr (net_totals, entries @ more)))))"

fun network_loop ::
  "(json \<Rightarrow> string) \<Rightarrow> limits \<Rightarrow> json \<Rightarrow> (json \<times> json) list \<Rightarrow> totals
     \<Rightarrow> (totals \<times> pool_entry list \<times> net_entry list) res" where
  "network_loop other lims stats [] totals = Inr (totals, [], [])"
| "network_loop other lims stats ((name, subnet_list) # networks) totals =
     rbind (jiter subnet_list) (\<lambda>xs.
     rbind (subnet_loop other lims stats name xs (0, 0, 0)) (\<lambda>(net_totals, entries).
     rbind (network_loop other lims stats networks (add_totals totals net_totals)) (\<lambda>(totals, subnets, nets).
     Inr (totals, entries @ subnets,
       (if jtruth name then [net_entry_of lims name net_totals] else []) @ nets))))"

definition kea_networks :: "json \<Rightarrow> (json \<times> json) list res" where
  "kea_networks dhcp4_config =
     rbind (rbind (jget_dflt dhcp4_config ''shared-networks'' (JList [])) jiter) (\<lambda>nets.
     rbind (rmap (\<lambda>network. rbind (jget_dflt network ''name'' (JStr [])) (\<lambda>n.
       rbind (jget_dflt network ''subnet4'' (JList [])) (\<lambda>s. Inr (n, s)))) nets) (\<lambda>networks.
     rbind (jget_dflt dhcp4_config ''subnet4'' JNull) (\<lambda>s4.
     Inr (networks @ (if jtruth s4 then [(JStr [], s4)] else [])))))"

definition build_report :: "(json \<Rightarrow> string) \<Rightarrow> json \<Rightarrow> json \<Rightarrow> rat option \<Rightarrow> rat option \<Rightarrow> report res" where
  "build_report other dhcp4_config stats warning critical =
     rbind (kea_networks dhcp4_config) (\<lambda>networks.
     rbind (network_loop other (warning, critical) stats networks (0, 0, 0)) (\<lambda>(totals, subnets, nets).
     Inr \<lparr>rp_subnets = subnets, rp_shared_networks = nets,
       rp_summary = net_entry_of (warning, critical) (JStr ''All networks'') totals\<rparr>))"

section \<open>The check\<close>

definition worse :: "status \<Rightarrow> status \<Rightarrow> status" where
  "worse s t = (if status_code t > status_code s then t else s)"

definition count_status :: "status \<Rightarrow> pool_entry list \<Rightarrow> nat" where
  "count_status s ranges = length (filter (\<lambda>e. pe_status e = s) ranges)"

definition nagios_result :: "(json \<Rightarrow> string) \<Rightarrow> report \<Rightarrow> status \<times> string" where
  "nagios_result other report =
     (let ranges = rp_subnets report;
          worst = foldl worse OK (map pe_status ranges);
          perfdata = join '' '' (map (\<lambda>e. [SQUOTE] @ jstr other (pe_location e) @ [SQUOTE] @ ''='' @
            show_int (c_used (pe_counters e)) @ '';;;0;'' @ show_int (c_defined (pe_counters e))) ranges);
          text = STATUS_TEXT worst @ '': Ranges - crit: '' @ show_nat (count_status CRITICAL ranges) @
            '' warn: '' @ show_nat (count_status WARNING ranges) @ '' ok: '' @ show_nat (count_status OK ranges)
      in (worst, if perfdata \<noteq> [] then text @ '' | '' @ perfdata else text))"

text \<open>The report as the dictionaries it is built of, in the order of their keys.\<close>

definition counter_items :: "counters \<Rightarrow> (string \<times> json) list" where
  "counter_items c = [(''defined'', JInt (c_defined c)), (''used'', JInt (c_used c)), (''touched'', JInt (c_touched c)),
     (''free'', JInt (c_free c)), (''percent'', JFloat (c_percent c)), (''touch_count'', JInt (c_touch_count c)),
     (''touch_percent'', JFloat (c_touch_percent c))]"

definition pool_json :: "pool_entry \<Rightarrow> json" where
  "pool_json e = jd ([(''location'', pe_location e), (''range'', JStr (pe_range e)), (''first_ip'', JStr (pe_first_ip e)),
     (''last_ip'', JStr (pe_last_ip e))] @ counter_items (pe_counters e) @ [(''status'', JInt (status_code (pe_status e)))])"

definition net_json :: "net_entry \<Rightarrow> json" where
  "net_json e = jd ([(''location'', ne_location e)] @ counter_items (ne_counters e) @
     [(''status'', JInt (status_code (ne_status e)))])"

definition report_json :: "report \<Rightarrow> json" where
  "report_json r = jd [(''subnets'', JList (map pool_json (rp_subnets r))),
     (''shared-networks'', JList (map net_json (rp_shared_networks r))), (''summary'', net_json (rp_summary r))]"

text \<open>What \<open>main\<close> prints, and where, with the exit code.\<close>

datatype kea_output = Stdout string | Stderr string

fun caught :: "py_exc \<Rightarrow> bool" where
  "caught (OSError s) = True"
| "caught (RuntimeError s) = True"
| "caught (ValueError s) = True"
| "caught e = False"

definition kea_queries ::
  "(string \<Rightarrow> string \<Rightarrow> ('w, unit) act) \<Rightarrow> ('w, string) act \<Rightarrow> (json \<Rightarrow> string) \<Rightarrow>
     string \<Rightarrow> 'w \<Rightarrow> ((json \<times> json) res \<times> 'w) option" where
  "kea_queries connect recv other socket w =
     (case kea_command connect recv other socket ''config-get'' w of
        None \<Rightarrow> None
      | Some (Inl e, w1) \<Rightarrow> Some (Inl e, w1)
      | Some (Inr args, w1) \<Rightarrow>
         (case jget_dflt args ''Dhcp4'' (JDict []) of
            Inl e \<Rightarrow> Some (Inl e, w1)
          | Inr dhcp4_config \<Rightarrow>
             (case kea_command connect recv other socket ''statistic-get-all'' w1 of
                None \<Rightarrow> None
              | Some (Inl e, w2) \<Rightarrow> Some (Inl e, w2)
              | Some (Inr stats, w2) \<Rightarrow> Some (Inr (dhcp4_config, stats), w2))))"

definition kea_main ::
  "(string \<Rightarrow> string \<Rightarrow> ('w, unit) act) \<Rightarrow> ('w, string) act \<Rightarrow> (json \<Rightarrow> string) \<Rightarrow>
     (rat \<Rightarrow> string) \<Rightarrow> string \<Rightarrow> rat option \<Rightarrow> rat option \<Rightarrow> 'w \<Rightarrow> ((int \<times> kea_output) res \<times> 'w) option" where
  "kea_main connect recv other repr socket warning critical w =
     (let nagios = (warning \<noteq> None \<or> critical \<noteq> None) in
      case kea_queries connect recv other socket w of
        None \<Rightarrow> None
      | Some (Inl e, w') \<Rightarrow>
          Some (if caught e then
              let msg = ''UNKNOWN: cannot query Kea: '' @ exc_str e in
              Inr (if nagios then (status_code UNKNOWN, Stdout msg) else (1, Stderr msg))
            else Inl e, w')
      | Some (Inr (dhcp4_config, stats), w') \<Rightarrow>
          Some (rbind (build_report other dhcp4_config stats warning critical) (\<lambda>report.
            if nagios then (case nagios_result other report of (code, line) \<Rightarrow> Inr (status_code code, Stdout line))
            else Inr (0, Stdout (json_dumps (indent_format 2) repr (report_json report)))), w'))"

definition DEFAULT_SOCKET :: string where
  "DEFAULT_SOCKET = ''/run/kea/kea4-ctrl-socket''"

definition kea_parser :: arg_parser where
  "kea_parser = argument_parser
     [opt_store ''--socket'' ''socket'' False (AText DEFAULT_SOCKET),
      opt_float ''--warning'' ''warning'',
      opt_float ''--critical'' ''critical''] None"

text \<open>\<open>main\<close> from its arguments on.\<close>

definition kea_run ::
  "(string \<Rightarrow> string \<Rightarrow> ('w, unit) act) \<Rightarrow> ('w, string) act \<Rightarrow> (json \<Rightarrow> string) \<Rightarrow>
     (rat \<Rightarrow> string) \<Rightarrow> string list \<Rightarrow> 'w \<Rightarrow> ((int \<times> kea_output) res \<times> 'w) option" where
  "kea_run connect recv other repr argv w =
     (case parse_args kea_parser argv of
        Inl e \<Rightarrow> Some (Inl e, w)
      | Inr ns \<Rightarrow> kea_main connect recv other repr (get_default (ns_text ns ''socket'') [])
          (ns_num ns ''warning'') (ns_num ns ''critical'') w)"

end
