(* ===== verification/Kea_Props.thy ===== *)
theory Kea_Props
  imports Kea_Stats PyJsonText_Props
begin

text \<open>Properties of the Kea statistics: the read loop, the sums of the report, percentages and the check.\<close>

section \<open>The read loop\<close>

text \<open>\<open>delivers recv w cs\<close>: the peer sends the chunks \<open>cs\<close>, none of them empty, and then closes.\<close>

fun delivers :: "('w, string) act \<Rightarrow> 'w \<Rightarrow> string list \<Rightarrow> bool" where
  "delivers recv w [] \<longleftrightarrow> (\<exists>w'. recv w = (Inr [], w'))"
| "delivers recv w (c # cs) \<longleftrightarrow> c \<noteq> [] \<and> (\<exists>w'. recv w = (Inr c, w') \<and> delivers recv w' cs)"

definition complete :: "(string \<Rightarrow> json option) \<Rightarrow> string \<Rightarrow> bool" where
  "complete loads s \<longleftrightarrow> loads s \<noteq> None \<and> loads s \<noteq> Some JNull"

text \<open>The value of the first concatenation of chunks that is complete.\<close>

fun first_complete :: "(string \<Rightarrow> json option) \<Rightarrow> string \<Rightarrow> string list \<Rightarrow> json" where
  "first_complete loads data [] = JNull"
| "first_complete loads data (c # cs) =
     (if complete loads (data @ c) then the (loads (data @ c)) else first_complete loads (data @ c) cs)"

lemma kea_loop_reads:
  assumes "delivers recv w cs"
  shows "\<exists>w'. kea_loop recv data w = Some (Inr (first_complete json_loads_bytes data cs), w')"
  using assms
proof (induction cs arbitrary: data w)
  case Nil
  then show ?case by (auto simp: kea_loop.simps)
next
  case (Cons c cs)
  then obtain w1 where w1: "c \<noteq> []" "recv w = (Inr c, w1)" "delivers recv w1 cs" by auto
  from Cons.IH [OF w1(3), of "data @ c"] w1(1,2) show ?case
    by (subst kea_loop.simps) (auto simp: complete_def split: option.splits)
qed

lemma first_complete_found:
  assumes "complete loads (data @ concat (take k cs))" and "0 < k" and "k \<le> length cs"
    and "\<And>j. 0 < j \<Longrightarrow> j < k \<Longrightarrow> \<not> complete loads (data @ concat (take j cs))"
  shows "first_complete loads data cs = the (loads (data @ concat (take k cs)))"
  using assms
proof (induction cs arbitrary: data k)
  case Nil
  then show ?case by simp
next
  case (Cons c cs)
  show ?case
  proof (cases "k = 1")
    case True
    with Cons.prems show ?thesis by simp
  next
    case False
    with Cons.prems(2) obtain m where m: "k = Suc m" "0 < m" by (cases k) auto
    have "\<not> complete loads (data @ c)" using Cons.prems(4) [of 1] False Cons.prems(2) by simp
    moreover have "first_complete loads (data @ c) cs = the (loads ((data @ c) @ concat (take m cs)))"
      using Cons.prems m Cons.prems(4) [of "Suc j" for j] by (intro Cons.IH) auto
    ultimately show ?thesis by (simp add: m)
  qed
qed

text \<open>The chunks \<open>cs\<close> arrive, and \<open>w'\<close> is the world after they were read.\<close>

fun receives :: "('w, string) act \<Rightarrow> 'w \<Rightarrow> string list \<Rightarrow> 'w \<Rightarrow> bool" where
  "receives recv w [] w' \<longleftrightarrow> w' = w"
| "receives recv w (c # cs) w' \<longleftrightarrow> c \<noteq> [] \<and>
     (case recv w of (Inr d, w1) \<Rightarrow> d = c \<and> receives recv w1 cs w' | (Inl e, w1) \<Rightarrow> False)"

lemma kea_loop_goes_on:
  assumes "receives recv w cs w'" and "\<And>k. k \<le> length cs \<Longrightarrow> \<not> complete json_loads_bytes (data @ concat (take k cs))"
  shows "kea_loop recv data w = kea_loop recv (data @ concat cs) w'"
  using assms
proof (induction cs arbitrary: data w)
  case Nil
  then show ?case by simp
next
  case (Cons c cs)
  then obtain w1 where w1: "c \<noteq> []" "recv w = (Inr c, w1)" "receives recv w1 cs w'"
    by (auto split: prod.splits sum.splits)
  have "\<not> complete json_loads_bytes (data @ c)" using Cons.prems(2) [of 1] by simp
  then have "kea_loop recv data w = kea_loop recv (data @ c) w1"
    using w1(1,2) by (subst kea_loop.simps) (auto simp: complete_def split: option.splits)
  also have "\<dots> = kea_loop recv ((data @ c) @ concat cs) w'"
    using Cons.prems(2) [of "Suc k" for k] by (intro Cons.IH [OF w1(3)]) simp
  finally show ?case by simp
qed

lemma kea_loop_returns:
  assumes "receives recv w cs w'" and "\<And>k. k < length cs \<Longrightarrow> \<not> complete json_loads_bytes (data @ concat (take k cs))"
    and "json_loads_bytes (data @ concat cs) = Some v" and "v \<noteq> JNull" and "cs \<noteq> []"
  shows "kea_loop recv data w = Some (Inr v, w')"
  using assms
proof (induction cs arbitrary: data w)
  case Nil
  then show ?case by simp
next
  case (Cons c cs)
  then obtain w1 where w1: "c \<noteq> []" "recv w = (Inr c, w1)" "receives recv w1 cs w'"
    by (auto split: prod.splits sum.splits)
  show ?case
  proof (cases "cs = []")
    case True
    then show ?thesis using w1 Cons.prems(3,4) by (subst kea_loop.simps) simp
  next
    case False
    then have "\<not> complete json_loads_bytes (data @ c)" using Cons.prems(2) [of 1] by simp
    then have "kea_loop recv data w = kea_loop recv (data @ c) w1"
      using w1(1,2) by (subst kea_loop.simps) (auto simp: complete_def split: option.splits)
    also have "\<dots> = Some (Inr v, w')"
      using Cons.prems(2) [of "Suc k" for k] Cons.prems(3,4) False by (intro Cons.IH [OF w1(3)]) simp_all
    finally show ?thesis .
  qed
qed

lemma json_loads_nothing: "json_loads_bytes [] = None"
  by code_simp

section \<open>Sums\<close>

definition totals_of :: "counters \<Rightarrow> totals" where
  "totals_of c = (c_defined c, c_used c, c_touched c)"

definition sum_totals :: "totals list \<Rightarrow> totals" where
  "sum_totals ts = foldr add_totals ts (0, 0, 0)"

lemma add_totals_laws:
  "add_totals (add_totals a b) c = add_totals a (add_totals b c)"
  "add_totals (0, 0, 0) a = a" "add_totals a (0, 0, 0) = a"
  by (auto simp: add_totals_def split: prod.splits)

lemma sum_totals_simps [simp]:
  "sum_totals [] = (0, 0, 0)" "sum_totals (t # ts) = add_totals t (sum_totals ts)"
  by (simp_all add: sum_totals_def)

lemma sum_totals_append: "sum_totals (ts @ us) = add_totals (sum_totals ts) (sum_totals us)"
  by (induction ts) (simp_all add: add_totals_laws)

lemma totals_of_counters [simp]: "totals_of (kea_counters d u t) = (d, u, t)"
  by (simp add: totals_of_def kea_counters_def Let_def)

definition pools_of :: "json \<Rightarrow> json list res" where
  "pools_of subnet = rbind (jget_dflt subnet ''pools'' (JList [])) jiter"

definition entry_totals :: "pool_entry list \<Rightarrow> totals" where
  "entry_totals es = sum_totals (map (\<lambda>e. totals_of (pe_counters e)) es)"

lemma entry_totals_simps [simp]:
  "entry_totals [] = (0, 0, 0)"
  "entry_totals (e # es) = add_totals (totals_of (pe_counters e)) (entry_totals es)"
  "entry_totals (es @ fs) = add_totals (entry_totals es) (entry_totals fs)"
  by (simp_all add: entry_totals_def sum_totals_append)

lemma pool_entry_totals:
  "pool_entry_of lims name subnet t pool = Inr e \<Longrightarrow>
     totals_of (pe_counters e) = t \<and> pe_status e = status_of lims (pe_counters e)"
  by (cases t) (auto simp: pool_entry_of_def rbind_eq_Inr Let_def)

lemma pool_loop_totals:
  "pool_loop lims name subnet t pools = Inr es \<Longrightarrow> entry_totals es = (if pools = [] then (0, 0, 0) else t)"
proof (induction pools arbitrary: t es)
  case (Cons pool pools)
  then show ?case
    by (fastforce simp: rbind_eq_Inr add_totals_laws dest!: pool_entry_totals)
qed simp

definition counted :: "json \<Rightarrow> bool" where
  "counted subnet \<longleftrightarrow> pools_of subnet \<noteq> Inr []"

text \<open>The totals of a list of subnets, and of those among them that have a pool.\<close>

lemma subnet_loop_totals:
  assumes "subnet_loop other lims stats name xs nt = Inr (nt', es)"
  shows "\<exists>ts. rmap (subnet_totals other stats) xs = Inr ts \<and> nt' = add_totals nt (sum_totals ts) \<and>
    entry_totals es = sum_totals (map snd (filter (\<lambda>(x, t). counted x) (zip xs ts)))"
  using assms
proof (induction xs arbitrary: nt es)
  case Nil
  then show ?case by (simp add: add_totals_laws)
next
  case (Cons x xs)
  then obtain t pools es1 more where t: "subnet_totals other stats x = Inr t" and pools: "pools_of x = Inr pools"
    and es1: "pool_loop lims name x t pools = Inr es1"
    and more: "subnet_loop other lims stats name xs (add_totals nt t) = Inr (nt', more)" and es: "es = es1 @ more"
    by (auto simp: rbind_eq_Inr pools_of_def)
  from Cons.IH [OF more] obtain ts where "rmap (subnet_totals other stats) xs = Inr ts"
    "nt' = add_totals (add_totals nt t) (sum_totals ts)"
    "entry_totals more = sum_totals (map snd (filter (\<lambda>(x, t). counted x) (zip xs ts)))" by blast
  then show ?case using t pools pool_loop_totals [OF es1]
    by (auto simp: es add_totals_laws counted_def)
qed

definition subnet_lists :: "(json \<times> json) list \<Rightarrow> json list list res" where
  "subnet_lists networks = rmap (\<lambda>(name, subnet_list). jiter subnet_list) networks"

lemma network_loop_totals:
  assumes "network_loop other lims stats ns tot = Inr (tot', subs, nets)"
  shows "\<exists>xss ts. subnet_lists ns = Inr xss \<and> rmap (subnet_totals other stats) (concat xss) = Inr ts \<and>
    tot' = add_totals tot (sum_totals ts) \<and>
    entry_totals subs = sum_totals (map snd (filter (\<lambda>(x, t). counted x) (zip (concat xss) ts)))"
  using assms
proof (induction ns arbitrary: tot subs nets)
  case Nil
  then show ?case by (simp add: subnet_lists_def add_totals_laws)
next
  case (Cons n ns)
  obtain name sl where n: "n = (name, sl)" by force
  with Cons.prems obtain xs nt es subs1 nets1 where xs: "jiter sl = Inr xs"
    and here: "subnet_loop other lims stats name xs (0, 0, 0) = Inr (nt, es)"
    and rest: "network_loop other lims stats ns (add_totals tot nt) = Inr (tot', subs1, nets1)"
    and subs: "subs = es @ subs1"
    by (auto simp: rbind_eq_Inr)
  from subnet_loop_totals [OF here] obtain ts where ts: "rmap (subnet_totals other stats) xs = Inr ts"
    "nt = sum_totals ts" "entry_totals es = sum_totals (map snd (filter (\<lambda>(x, t). counted x) (zip xs ts)))"
    by (auto simp: add_totals_laws)
  from Cons.IH [OF rest] obtain xss us where us: "subnet_lists ns = Inr xss"
    "rmap (subnet_totals other stats) (concat xss) = Inr us" "tot' = add_totals (add_totals tot nt) (sum_totals us)"
    "entry_totals subs1 = sum_totals (map snd (filter (\<lambda>(x, t). counted x) (zip (concat xss) us)))" by blast
  have "subnet_lists (n # ns) = Inr (xs # xss)" using us(1) xs by (simp add: subnet_lists_def n)
  moreover have "rmap (subnet_totals other stats) (concat (xs # xss)) = Inr (ts @ us)"
    using ts us by (simp add: rmap_append)
  moreover have "tot' = add_totals tot (sum_totals (ts @ us))"
    using ts us by (simp add: sum_totals_append add_totals_laws)
  moreover have "entry_totals subs = sum_totals (map snd (filter (\<lambda>(x, t). counted x) (zip (concat (xs # xss)) (ts @ us))))"
    using ts us rmap_length [OF ts(1)] by (simp add: subs sum_totals_append)
  ultimately show ?case by blast
qed

lemma pool_loop_status:
  "pool_loop lims name subnet t pools = Inr es \<Longrightarrow> e \<in> set es \<Longrightarrow> pe_status e = status_of lims (pe_counters e)"
  by (induction pools arbitrary: t es) (auto simp: rbind_eq_Inr dest: pool_entry_totals)

lemma subnet_loop_status:
  assumes "subnet_loop other lims stats name xs nt = Inr (nt', es)"
  shows "\<forall>e \<in> set es. pe_status e = status_of lims (pe_counters e)"
  using assms
proof (induction xs arbitrary: nt es)
  case (Cons x xs)
  then obtain t pools es1 more where here: "pool_loop lims name x t pools = Inr es1"
    and rest: "subnet_loop other lims stats name xs (add_totals nt t) = Inr (nt', more)" and es: "es = es1 @ more"
    by (auto simp: rbind_eq_Inr)
  from pool_loop_status [OF here] Cons.IH [OF rest] show ?case by (auto simp: es)
qed simp

lemma network_loop_status:
  assumes "network_loop other lims stats ns tot = Inr (tot', subs, nets)"
  shows "\<forall>e \<in> set subs. pe_status e = status_of lims (pe_counters e)"
  using assms
proof (induction ns arbitrary: tot subs nets)
  case (Cons n ns)
  obtain name sl where n: "n = (name, sl)" by force
  with Cons.prems obtain xs nt es subs1 nets1 where "jiter sl = Inr xs"
    and here: "subnet_loop other lims stats name xs (0, 0, 0) = Inr (nt, es)"
    and rest: "network_loop other lims stats ns (add_totals tot nt) = Inr (tot', subs1, nets1)"
    and subs: "subs = es @ subs1"
    by (auto simp: rbind_eq_Inr)
  from subnet_loop_status [OF here] Cons.IH [OF rest] show ?case by (simp add: subs ball_Un)
qed simp

section \<open>Percentages and status\<close>

lemma percent_of_mono:
  assumes "n \<le> m" and "0 < d"
  shows "percent_of n d \<le> percent_of m d"
proof -
  have "0 \<le> fl (of_int d)" using assms(2) by (intro fl_nonneg) simp
  then have "fl (100 * fl (of_int n)) / fl (of_int d) \<le> fl (100 * fl (of_int m)) / fl (of_int d)"
    using assms(1) by (intro divide_right_mono fl_mono mult_left_mono) (auto simp: of_int_le_iff)
  then show ?thesis using assms(2) by (auto simp: percent_of_def intro!: py_round_mono fl_mono)
qed

lemma percent_of_0: "percent_of 0 d = 0"
  using py_round_int [of 0 3] by (simp add: percent_of_def)

lemma percent_of_full:
  assumes "0 < d" and "d \<le> 2 ^ 46"
  shows "percent_of d d = 100"
proof -
  have d: "fl (of_int d) = of_int d" using assms by (intro fl_of_int) simp
  have "fl (100 * of_int d) = of_int (100 * d)"
    using fl_of_int [of "100 * d"] assms by simp
  then have "fl (fl (100 * fl (of_int d)) / fl (of_int d)) = of_int 100"
    using assms fl_of_int [of 100] by (simp add: d)
  then show ?thesis using assms py_round_int [of 100 3] by (simp add: percent_of_def)
qed

lemma kea_status_mono:
  "p \<le> q \<Longrightarrow> status_code (kea_status p w c) \<le> status_code (kea_status q w c)"
  by (auto simp: kea_status_def split: option.splits)

lemma build_report_runs:
  assumes "build_report other cfg stats wn cr = Inr r"
  obtains ns tot subs nets where "kea_networks cfg = Inr ns"
    and "network_loop other (wn, cr) stats ns (0, 0, 0) = Inr (tot, subs, nets)"
    and "rp_subnets r = subs" and "totals_of (ne_counters (rp_summary r)) = tot"
  using assms by (auto simp: build_report_def rbind_eq_Inr net_entry_of_def Let_def)

lemma report_status:
  "build_report other cfg stats wn cr = Inr r \<Longrightarrow> e \<in> set (rp_subnets r) \<Longrightarrow>
     pe_status e = kea_status (c_percent (pe_counters e)) wn cr"
  by (erule build_report_runs) (fastforce dest: network_loop_status simp: status_of_def)

lemma kea_status_not_UNKNOWN: "kea_status p w c \<noteq> UNKNOWN"
  by (auto simp: kea_status_def split: option.splits)

text \<open>The fold computes the worst status.\<close>

lemma status_code_worse: "status_code (worse s t) = max (status_code s) (status_code t)"
  by (simp add: worse_def max_def)

lemma worst_code: "status_code (foldl worse s ss) = Max (status_code ` insert s (set ss))"
proof (induction ss arbitrary: s)
  case (Cons t ss)
  have "foldl worse s (t # ss) = foldl worse (worse s t) ss" by simp
  also have "status_code (foldl worse (worse s t) ss) = Max (status_code ` insert (worse s t) (set ss))"
    by (rule Cons.IH)
  also have "\<dots> = Max (status_code ` insert s (set (t # ss)))"
    by (cases "ss = []") (simp_all add: status_code_worse max.assoc)
  finally show ?case .
qed simp

lemma worst_ge: "k \<le> status_code (foldl worse s ss) \<longleftrightarrow> k \<le> status_code s \<or> (\<exists>t \<in> set ss. k \<le> status_code t)"
  unfolding worst_code by (subst Max_ge_iff) auto

lemma first_complete_none:
  assumes "\<And>k. 0 < k \<Longrightarrow> k \<le> length cs \<Longrightarrow> \<not> complete loads (data @ concat (take k cs))"
  shows "first_complete loads data cs = JNull"
  using assms
proof (induction cs arbitrary: data)
  case (Cons c cs)
  have "\<not> complete loads (data @ c)" using Cons.prems [of 1] by simp
  moreover have "first_complete loads (data @ c) cs = JNull"
    using Cons.prems [of "Suc k" for k] by (intro Cons.IH) simp
  ultimately show ?case by simp
qed simp

lemma first_complete_find:
  "first_complete loads [] cs =
    (case find (\<lambda>k. complete loads (concat (take k cs))) [1..<Suc (length cs)] of
       None \<Rightarrow> JNull | Some k \<Rightarrow> the (loads (concat (take k cs))))"
proof (cases "find (\<lambda>k. complete loads (concat (take k cs))) [1..<Suc (length cs)]")
  case None
  then have "first_complete loads [] cs = JNull"
    by (intro first_complete_none) (auto simp: find_None_iff simp del: upt_Suc)
  with None show ?thesis by simp
next
  case (Some k)
  then obtain i where i: "i < length [1..<Suc (length cs)]" "complete loads (concat (take k cs))"
    "k = [1..<Suc (length cs)] ! i" "\<And>j. j < i \<Longrightarrow> \<not> complete loads (concat (take ([1..<Suc (length cs)] ! j) cs))"
    unfolding find_Some_iff by auto
  then have k: "k = Suc i" "k \<le> length cs" by (simp_all add: nth_upt del: upt_Suc)
  have "\<not> complete loads (concat (take j cs))" if "0 < j" "j < k" for j
    using i(4) [of "j - 1"] that k by (simp add: nth_upt del: upt_Suc)
  then have "first_complete loads [] cs = the (loads (concat (take k cs)))"
    using first_complete_found [of loads "[]" k cs] i(2) k by simp
  with Some show ?thesis by simp
qed

lemma kea_command_first:
  assumes "connect path (kea_request command) w = (Inr (), w1)" and "delivers recv w1 cs"
  shows "\<exists>w'. kea_command connect recv other path command w =
      Some (kea_result other command (first_complete json_loads_bytes [] cs), w')"
  using kea_loop_reads [OF assms(2), of "[]"] by (auto simp: kea_command_def assms(1))

text \<open>An object or a list is found complete only when its value is there, so it is read in whatever pieces it comes.\<close>

lemma first_complete_container:
  assumes "json_loads_bytes (concat cs) = Some v" and "is_container v"
  shows "first_complete json_loads_bytes [] cs = v"
proof -
  have all: "complete json_loads_bytes (concat (take (length cs) cs))"
    using assms by (auto simp: complete_def is_container_def)
  have "cs \<noteq> []" using assms(1) by (auto simp: json_loads_bytes_def json_loads_def skip_ws_def scan_fuel_def numeral_2_eq_2)
  then have "find (\<lambda>k. complete json_loads_bytes (concat (take k cs))) [1..<Suc (length cs)] \<noteq> None"
    using all by (auto simp: find_None_iff Suc_le_eq simp del: upt_Suc)
  then obtain k where k: "find (\<lambda>k. complete json_loads_bytes (concat (take k cs))) [1..<Suc (length cs)] = Some k"
    by blast
  then have "complete json_loads_bytes (concat (take k cs))" by (auto simp: find_Some_iff simp del: upt_Suc)
  then obtain u where u: "json_loads_bytes (concat (take k cs)) = Some u" by (auto simp: complete_def)
  have "json_loads_bytes (concat (take k cs) @ concat (drop k cs)) = Some v"
    using assms(1) by (simp add: concat_append [symmetric] del: concat_append)
  from json_bytes_prefix [OF this assms(2) u] show ?thesis unfolding first_complete_find k option.case u by simp
qed

section \<open>Properties\<close>

text \<open>
  C22. The exchange reads as much as it needs. The request is the JSON object with the command. When the
  peer has sent the chunks \<open>cs\<close>, none of them empty, and no fewer of these chunks together decode to a
  value other than null: if all of them do, \<open>kea_command\<close> returns after exactly these reads, whether or
  not the peer closes the connection, and its result is made of that value; should what was read go
  on as the text of an object or list, it is that object or list. If they do not, it raises
  \<open>RuntimeError\<close> when the peer closes the connection, and passes an error of the socket on.
\<close>

theorem kea_command_reads:
  assumes "connect path (kea_request command) w = (Inr (), w1)" and "receives recv w1 cs w2"
    and "\<And>k. k < length cs \<Longrightarrow> \<not> complete json_loads_bytes (concat (take k cs))"
  shows "json_loads (kea_request command) = Some (jd [(''command'', JStr command)]) \<and>
    (\<forall>v. json_loads_bytes (concat cs) = Some v \<and> v \<noteq> JNull \<longrightarrow>
      kea_command connect recv other path command w = Some (kea_result other command v, w2) \<and>
      (\<forall>rest u. json_loads_bytes (concat cs @ rest) = Some u \<and> is_container u \<longrightarrow> v = u)) \<and>
    (\<forall>r w3. \<not> complete json_loads_bytes (concat cs) \<and> recv w2 = (r, w3) \<longrightarrow>
      (r = Inr [] \<longrightarrow> kea_command connect recv other path command w =
        Some (Inl (RuntimeError (''no complete response from Kea for '' @ [SQUOTE] @ command @ [SQUOTE])), w3)) \<and>
      (\<forall>e. r = Inl e \<longrightarrow> kea_command connect recv other path command w = Some (Inl e, w3)))"
proof (intro conjI)
  show "json_loads (kea_request command) = Some (jd [(''command'', JStr command)])"
    unfolding kea_request_def
    by (rule json_loads_dumps_id) (simp_all add: jd_def wf_dict_def dict_keys_def)
  show "\<forall>v. json_loads_bytes (concat cs) = Some v \<and> v \<noteq> JNull \<longrightarrow>
      kea_command connect recv other path command w = Some (kea_result other command v, w2) \<and>
      (\<forall>rest u. json_loads_bytes (concat cs @ rest) = Some u \<and> is_container u \<longrightarrow> v = u)"
  proof (intro allI impI conjI, elim conjE)
    fix v
    assume v: "json_loads_bytes (concat cs) = Some v" "v \<noteq> JNull"
    then have "cs \<noteq> []" using json_loads_nothing by auto
    with kea_loop_returns [OF assms(2), of "[]" v] assms(3) v
    have "kea_loop recv [] w1 = Some (Inr v, w2)" by simp
    then show "kea_command connect recv other path command w = Some (kea_result other command v, w2)"
      by (simp add: kea_command_def assms(1))
  qed (use json_bytes_prefix [of "concat cs"] in blast)
  show "\<forall>r w3. \<not> complete json_loads_bytes (concat cs) \<and> recv w2 = (r, w3) \<longrightarrow>
      (r = Inr [] \<longrightarrow> kea_command connect recv other path command w =
        Some (Inl (RuntimeError (''no complete response from Kea for '' @ [SQUOTE] @ command @ [SQUOTE])), w3)) \<and>
      (\<forall>e. r = Inl e \<longrightarrow> kea_command connect recv other path command w = Some (Inl e, w3))"
  proof (intro allI impI, elim conjE)
    fix r w3
    assume open': "\<not> complete json_loads_bytes (concat cs)" and last: "recv w2 = (r, w3)"
    have "\<not> complete json_loads_bytes ([] @ concat (take k cs))" if "k \<le> length cs" for k
      using assms(3) [of k] open' that by (cases "k = length cs") simp_all
    from kea_loop_goes_on [OF assms(2), of "[]", OF this]
    have loop: "kea_loop recv [] w1 = kea_loop recv (concat cs) w2" by simp
    show "(r = Inr [] \<longrightarrow> kea_command connect recv other path command w =
        Some (Inl (RuntimeError (''no complete response from Kea for '' @ [SQUOTE] @ command @ [SQUOTE])), w3)) \<and>
      (\<forall>e. r = Inl e \<longrightarrow> kea_command connect recv other path command w = Some (Inl e, w3))"
      by (simp add: kea_command_def assms(1) loop kea_loop.simps [of recv "concat cs"] last kea_result_def)
  qed
qed

definition ex_recv :: "string list \<Rightarrow> string res \<times> string list" where
  "ex_recv w = (case w of [] \<Rightarrow> (Inr [], []) | c # cs \<Rightarrow> (Inr c, cs))"

text \<open>A response that comes in three pieces, one of which ends inside a number.\<close>

definition ex_chunks :: "string list" where
  "ex_chunks = [CHR ''{'' # enc_string ''result'' @ '': 0, '', enc_string ''arguments'' @ '': [1'', ''2]} '']"

text \<open>The peer has more to say and does not close the connection: what comes after the response is not read.\<close>

theorem kea_command_reads_witness:
  "kea_command (\<lambda>p c w. (Inr (), ex_chunks @ [''more''])) ex_recv (\<lambda>_. []) DEFAULT_SOCKET ''config-get'' [] =
     Some (Inr (JList [JInt 12]), [''more''])"
proof -
  have r: "receives ex_recv (ex_chunks @ [''more'']) ex_chunks [''more'']" by code_simp
  have v: "json_loads_bytes (concat ex_chunks) = Some (jd [(''result'', JInt 0), (''arguments'', JList [JInt 12])])"
    by code_simp
  have "list_all (\<lambda>k. \<not> complete json_loads_bytes (concat (take k ex_chunks))) [0, 1, 2]" by code_simp
  then have part: "\<not> complete json_loads_bytes (concat (take k ex_chunks))" if "k < length ex_chunks" for k
    using that by (auto simp: ex_chunks_def less_Suc_eq numeral_2_eq_2)
  have "kea_result (\<lambda>_. []) ''config-get'' (jd [(''result'', JInt 0), (''arguments'', JList [JInt 12])]) = Inr (JList [JInt 12])"
    by code_simp
  moreover have "jd [(''result'', JInt 0), (''arguments'', JList [JInt 12])] \<noteq> JNull" by (simp add: jd_def)
  ultimately show ?thesis
    using kea_command_reads [of "\<lambda>p c w. (Inr (), ex_chunks @ [''more''])" DEFAULT_SOCKET "''config-get''" "[]"
        "ex_chunks @ [''more'']" ex_recv ex_chunks "[''more'']" "\<lambda>_. []", OF refl r part] v by fastforce
qed

text \<open>
  C23. Every subnet is counted once: the summary of a report is the sum of the statistics of all
  configured subnets, and the entries of the pools sum up to the statistics of the subnets that have
  a pool, whatever number of pools they have.
\<close>

theorem report_counts_once:
  assumes "build_report other cfg stats wn cr = Inr r"
  shows "\<exists>ns xss ts. kea_networks cfg = Inr ns \<and> subnet_lists ns = Inr xss \<and>
    rmap (subnet_totals other stats) (concat xss) = Inr ts \<and>
    totals_of (ne_counters (rp_summary r)) = sum_totals ts \<and>
    sum_totals (map (\<lambda>e. totals_of (pe_counters e)) (rp_subnets r)) =
      sum_totals (map snd (filter (\<lambda>(x, t). counted x) (zip (concat xss) ts)))"
  using assms
proof (rule build_report_runs)
  fix ns tot subs nets
  assume ns: "kea_networks cfg = Inr ns" and loop: "network_loop other (wn, cr) stats ns (0, 0, 0) = Inr (tot, subs, nets)"
    and r: "rp_subnets r = subs" "totals_of (ne_counters (rp_summary r)) = tot"
  from network_loop_totals [OF loop] ns r show ?thesis
    unfolding entry_totals_def add_totals_laws by blast
qed

definition ex_config :: json where
  "ex_config = JDict [(JStr ''shared-networks'', JList [JDict [(JStr ''name'', JStr ''muc''), (JStr ''subnet4'', JList
     [JDict [(JStr ''id'', JInt 1), (JStr ''subnet'', JStr ''10.80.0.0/24''),
       (JStr ''pools'', JList [JDict [(JStr ''pool'', JStr ''10.80.0.10 - 10.80.0.254'')]])]])]])]"

definition ex_stats :: json where
  "ex_stats = JDict [(JStr ''subnet[1].total-addresses'', JList [JList [JInt 245]]),
     (JStr ''subnet[1].assigned-addresses'', JList [JList [JInt 49]])]"

lemma ex_totals: "subnet_totals (\<lambda>_. []) ex_stats (JDict [(JStr ''id'', JInt 1), (JStr ''subnet'', JStr ''10.80.0.0/24''),
     (JStr ''pools'', JList [JDict [(JStr ''pool'', JStr ''10.80.0.10 - 10.80.0.254'')]])]) = Inr (245, 49, 0)"
  by code_simp

lemma ex_networks: "kea_networks ex_config = Inr [(JStr ''muc'', JList
     [JDict [(JStr ''id'', JInt 1), (JStr ''subnet'', JStr ''10.80.0.0/24''),
       (JStr ''pools'', JList [JDict [(JStr ''pool'', JStr ''10.80.0.10 - 10.80.0.254'')]])]])]"
  by code_simp

lemma ex_percent: "percent_of 49 245 = 20"
  by code_simp

lemma ex_report:
  "\<exists>r. build_report (\<lambda>_. []) ex_config ex_stats (Some 10) (Some 80) = Inr r \<and>
     map (\<lambda>e. c_percent (pe_counters e)) (rp_subnets r) = [20]"
  by (simp add: build_report_def ex_networks ex_totals jget_dflt_def dict_get_def pool_entry_of_def
      kea_counters_def ex_percent Let_def partition_on_def)

theorem report_counts_once_witness:
  "\<exists>r ts. build_report (\<lambda>_. []) ex_config ex_stats (Some 10) (Some 80) = Inr r \<and>
     totals_of (ne_counters (rp_summary r)) = sum_totals ts \<and> sum_totals ts = (245, 49, 0)"
proof -
  obtain r where r: "build_report (\<lambda>_. []) ex_config ex_stats (Some 10) (Some 80) = Inr r"
    using ex_report by (elim exE conjE)
  from report_counts_once [OF r] obtain ns xss ts where "kea_networks ex_config = Inr ns" "subnet_lists ns = Inr xss"
    "rmap (subnet_totals (\<lambda>_. []) ex_stats) (concat xss) = Inr ts"
    "totals_of (ne_counters (rp_summary r)) = sum_totals ts" by blast
  then have "sum_totals ts = (245, 49, 0)"
    by (auto simp: ex_networks subnet_lists_def ex_totals add_totals_laws)
  with r show ?thesis using \<open>totals_of (ne_counters (rp_summary r)) = sum_totals ts\<close> by blast
qed

text \<open>
  C24. Percentages are sound: with \<open>0 \<le> used \<le> used' \<le> defined\<close> and a pool of at most \<open>2 ^ 46\<close> addresses (an IPv4
  pool has at most \<open>2 ^ 32\<close>), the rounded float percentages satisfy
  \<open>0 \<le> percent(used) \<le> percent(used') \<le> 100\<close>, the counters of free and used addresses add up to the pool,
  and a fuller pool never has a better status.
\<close>

theorem percent_sound:
  assumes "0 \<le> used" and "used \<le> used'" and "used' \<le> defined" and "defined \<le> 2 ^ 46"
  shows "0 \<le> c_percent (kea_counters defined used t)
    \<and> c_percent (kea_counters defined used t) \<le> c_percent (kea_counters defined used' t')
    \<and> c_percent (kea_counters defined used' t') \<le> 100
    \<and> c_free (kea_counters defined used t) + c_used (kea_counters defined used t) = defined
    \<and> status_code (kea_status (c_percent (kea_counters defined used t)) wn cr)
        \<le> status_code (kea_status (c_percent (kea_counters defined used' t')) wn cr)"
proof -
  have p: "c_percent (kea_counters defined u v) = percent_of u defined" for u v
    by (simp add: kea_counters_def Let_def)
  have 1: "0 \<le> percent_of used defined" and 2: "percent_of used defined \<le> percent_of used' defined"
    and 3: "percent_of used' defined \<le> 100"
  proof -
    show "percent_of used defined \<le> percent_of used' defined"
      using percent_of_mono [of used used' defined] assms by (cases "defined = 0") (auto simp: percent_of_def)
    show "0 \<le> percent_of used defined"
      using percent_of_mono [of 0 used defined] assms percent_of_0
      by (cases "defined = 0") (simp_all add: percent_of_def [of _ 0])
    show "percent_of used' defined \<le> 100"
      using percent_of_mono [of used' defined defined] percent_of_full [of defined] assms
      by (cases "defined = 0") (auto simp: percent_of_def)
  qed
  have "c_free (kea_counters defined used t) + c_used (kea_counters defined used t) = defined"
    using assms by (simp add: kea_counters_def Let_def)
  with 1 2 3 kea_status_mono [OF 2] show ?thesis unfolding p by blast
qed

theorem percent_sound_witness:
  "c_percent (kea_counters 245 49 0) \<le> c_percent (kea_counters 245 205 5) \<and> c_percent (kea_counters 245 49 0) = 20"
proof -
  have "c_percent (kea_counters 245 49 0) = 20" by code_simp
  with percent_sound [where used = 49 and used' = 205 and defined = 245 and t = 0 and t' = 5] show ?thesis by simp
qed

text \<open>The arguments of the check, as \<open>icinga2/commands.d/dhcp-server.conf\<close> gives them, and none, as telegraf.\<close>

lemma kea_no_arguments:
  "kea_run connect recv other repr [] w = kea_main connect recv other repr DEFAULT_SOCKET None None w"
proof -
  have "parse_args kea_parser [] =
      Inr [(''socket'', AText DEFAULT_SOCKET), (''warning'', ANone), (''critical'', ANone)]" by code_simp
  then show ?thesis by (simp add: kea_run_def ns_text_def ns_num_def dict_get_def)
qed

lemma kea_check_arguments:
  assumes "py_float ct = Inr cr" and "py_float wt = Inr wn"
  shows "kea_run connect recv other repr [''--critical='' @ ct, ''--warning='' @ wt] w =
    kea_main connect recv other repr DEFAULT_SOCKET (Some wn) (Some cr) w"
proof -
  note defs = kea_parser_def argument_parser_def flag_table_def opt_store_def opt_float_def opt_show_def
  have opts: "parse_optional kea_parser (''--critical'' @ CHR ''='' # ct) =
      Inr (Some (Some (opt_float ''--critical'' ''critical''), ''--critical'', True, Some ct))"
    "parse_optional kea_parser (''--warning'' @ CHR ''='' # wt) =
      Inr (Some (Some (opt_float ''--warning'' ''warning''), ''--warning'', True, Some wt))"
    by (rule parse_optional_equals; simp add: defs)+
  have "\<exists>ns. parse_args kea_parser [''--critical'' @ CHR ''='' # ct, ''--warning'' @ CHR ''='' # wt] = Inr ns \<and>
      ns_text ns ''socket'' = Some DEFAULT_SOCKET \<and> ns_num ns ''warning'' = Some wn \<and> ns_num ns ''critical'' = Some cr"
    using opts assms
    by (simp add: parse_args_def opt_float_def takes_value_def take_actions_def take_action_def)
      (simp add: defs defaults_def ns_text_def ns_num_def dict_get_def dict_set_def)
  then show ?thesis by (auto simp: kea_run_def)
qed

text \<open>
  C25. The exit code of the check, run with the thresholds in its arguments: when Kea answers and the report can be built, the check exits with
  2 exactly when some range has reached the critical threshold, and with 0 exactly when no range has
  reached a threshold that is set.
\<close>

theorem check_exit_code:
  assumes "py_float ct = Inr cr" and "py_float wt = Inr wn"
    and "kea_queries connect recv other DEFAULT_SOCKET w = Some (Inr (cfg, stats), w')"
    and "build_report other cfg stats (Some wn) (Some cr) = Inr r"
  shows "\<exists>code line.
    kea_run connect recv other repr [''--critical='' @ ct, ''--warning='' @ wt] w = Some (Inr (code, Stdout line), w') \<and>
    (code = 2 \<longleftrightarrow> (\<exists>e \<in> set (rp_subnets r). c_percent (pe_counters e) \<ge> cr)) \<and>
    (code = 0 \<longleftrightarrow> (\<forall>e \<in> set (rp_subnets r). c_percent (pe_counters e) < cr \<and> c_percent (pe_counters e) < wn))"
proof -
  let ?ss = "map pe_status (rp_subnets r)"
  let ?code = "status_code (foldl worse OK ?ss)"
  have st: "pe_status e = kea_status (c_percent (pe_counters e)) (Some wn) (Some cr)" if "e \<in> set (rp_subnets r)" for e
    using report_status [OF assms(4) that] .
  have ge: "k \<le> ?code \<longleftrightarrow> k \<le> 0 \<or> (\<exists>e \<in> set (rp_subnets r).
      k \<le> status_code (kea_status (c_percent (pe_counters e)) (Some wn) (Some cr)))" for k
    unfolding worst_ge set_map bex_simps status_code.simps using st by (intro disj_cong bex_cong) simp_all
  have le2: "\<not> 3 \<le> ?code" unfolding ge by (simp add: kea_status_def)
  have crit: "2 \<le> ?code \<longleftrightarrow> (\<exists>e \<in> set (rp_subnets r). c_percent (pe_counters e) \<ge> cr)"
    unfolding ge by (simp add: kea_status_def)
  have warn: "1 \<le> ?code \<longleftrightarrow> \<not> (\<forall>e \<in> set (rp_subnets r). c_percent (pe_counters e) < cr \<and> c_percent (pe_counters e) < wn)"
    unfolding ge by (auto simp: kea_status_def not_less)
  have "kea_run connect recv other repr [''--critical='' @ ct, ''--warning='' @ wt] w =
      Some (Inr (?code, Stdout (snd (nagios_result other r))), w')"
    using assms unfolding kea_check_arguments [OF assms(1,2)] by (simp add: kea_main_def nagios_result_def Let_def)
  moreover have "0 \<le> ?code" by (cases "foldl worse OK ?ss") auto
  moreover have "?code = 2 \<longleftrightarrow> 2 \<le> ?code" and "?code = 0 \<longleftrightarrow> \<not> 1 \<le> ?code" using le2 calculation(2) by linarith+
  ultimately show ?thesis using crit warn by blast
qed


definition ex_text :: "json \<Rightarrow> string" where
  "ex_text args = json_dumps default_format (\<lambda>_. []) (jd [(''result'', JInt 0), (''arguments'', args)])"

definition ex_connect :: "string \<Rightarrow> string \<Rightarrow> string list \<Rightarrow> unit res \<times> string list" where
  "ex_connect p t w = (Inr (), [ex_text (if t = kea_request ''config-get'' then jd [(''Dhcp4'', ex_config)] else ex_stats)])"

lemma ex_texts:
  "json_loads_bytes (ex_text (jd [(''Dhcp4'', ex_config)])) =
    Some (jd [(''result'', JInt 0), (''arguments'', jd [(''Dhcp4'', ex_config)])])"
  "json_loads_bytes (ex_text ex_stats) = Some (jd [(''result'', JInt 0), (''arguments'', ex_stats)])"
  by code_simp+

lemma ex_queries: "\<exists>w'. kea_queries ex_connect ex_recv (\<lambda>_. []) DEFAULT_SOCKET [] = Some (Inr (ex_config, ex_stats), w')"
proof -
  have ask: "\<exists>w'. kea_command ex_connect ex_recv (\<lambda>_. []) DEFAULT_SOCKET cmd w = Some (Inr args, w')"
    if args: "args = (if kea_request cmd = kea_request ''config-get'' then jd [(''Dhcp4'', ex_config)] else ex_stats)"
    and parses: "json_loads_bytes (ex_text args) = Some (jd [(''result'', JInt 0), (''arguments'', args)])" for cmd args w
  proof -
    let ?v = "jd [(''result'', JInt 0), (''arguments'', args)]"
    have ne: "ex_text args \<noteq> []" by (simp add: ex_text_def json_dumps_def enclose_def jd_def)
    have "first_complete json_loads_bytes [] [ex_text args] = ?v"
      using parses by (intro first_complete_container) (simp_all add: is_container_def jd_def)
    moreover have "kea_result (\<lambda>_. []) cmd ?v = Inr args" by (simp add: kea_result_def jd_def jget_dflt_def dict_get_def)
    ultimately show ?thesis
      using kea_command_first [of ex_connect DEFAULT_SOCKET cmd w "[ex_text args]" ex_recv "[ex_text args]" "\<lambda>_. []"] ne
      by (simp add: ex_connect_def args ex_recv_def del: first_complete.simps)
  qed
  have ne: "kea_request ''statistic-get-all'' \<noteq> kea_request ''config-get''" by code_simp
  obtain w1 where "kea_command ex_connect ex_recv (\<lambda>_. []) DEFAULT_SOCKET ''config-get'' [] =
      Some (Inr (jd [(''Dhcp4'', ex_config)]), w1)"
    using ask [of "jd [(''Dhcp4'', ex_config)]" "''config-get''" "[]"] ex_texts(1) by auto
  moreover obtain w2 where "kea_command ex_connect ex_recv (\<lambda>_. []) DEFAULT_SOCKET ''statistic-get-all'' w1 =
      Some (Inr ex_stats, w2)"
    using ask [of ex_stats "''statistic-get-all''" w1] ex_texts(2) ne by auto
  ultimately show ?thesis by (simp add: kea_queries_def jget_dflt_def jd_def dict_get_def)
qed

lemma ex_thresholds: "py_float ''80'' = Inr 80" "py_float ''10'' = Inr 10"
  by code_simp+

theorem check_exit_code_witness:
  "\<exists>line w'. kea_run ex_connect ex_recv (\<lambda>_. []) (\<lambda>_. []) [''--critical=80'', ''--warning=10''] [] =
     Some (Inr (1, Stdout line), w')"
proof -
  obtain w' where q: "kea_queries ex_connect ex_recv (\<lambda>_. []) DEFAULT_SOCKET [] = Some (Inr (ex_config, ex_stats), w')"
    using ex_queries by blast
  obtain r where r: "build_report (\<lambda>_. []) ex_config ex_stats (Some 10) (Some 80) = Inr r"
    and p: "map (\<lambda>e. c_percent (pe_counters e)) (rp_subnets r) = [20]"
    using ex_report by (elim exE conjE)
  obtain e where e: "rp_subnets r = [e]" "c_percent (pe_counters e) = 20" using p by auto
  from check_exit_code [OF ex_thresholds q r, of "\<lambda>_. []"] obtain code line where
    main: "kea_run ex_connect ex_recv (\<lambda>_. []) (\<lambda>_. []) [''--critical=80'', ''--warning=10''] [] =
      Some (Inr (code, Stdout line), w')"
    and "code = 2 \<longleftrightarrow> (\<exists>e \<in> set (rp_subnets r). c_percent (pe_counters e) \<ge> 80)"
    and "code = 0 \<longleftrightarrow> (\<forall>e \<in> set (rp_subnets r). c_percent (pe_counters e) < 80 \<and> c_percent (pe_counters e) < 10)"
    by auto
  then have "code \<noteq> 2" and "code \<noteq> 0" by (simp_all add: e)
  moreover have "code \<in> {0, 1, 2}"
    using main q r report_status [OF r, of e] e(1) kea_check_arguments [OF ex_thresholds, of ex_connect ex_recv "\<lambda>_. []" "\<lambda>_. []"]
    by (simp add: kea_main_def nagios_result_def Let_def e worse_def kea_status_def split: if_splits)
  ultimately have "code = 1" by auto
  with main show ?thesis by blast
qed

section \<open>The printed report\<close>

text \<open>What Kea answered has strings as keys, and so has everything that is taken from it into the report.\<close>

lemma kea_loop_keyed:
  assumes "kea_loop recv data w = Some rw"
  shows "\<forall>v. fst rw = Inr v \<longrightarrow> string_keyed v"
proof (rule kea_loop.raw_induct [where P = "\<lambda>recv data w rw. \<forall>v. fst rw = Inr v \<longrightarrow> string_keyed v", OF _ assms])
  fix loop and recv :: "('a, string) act" and data w rw
  assume IH: "\<And>recv data w rw. loop recv data w = Some rw \<Longrightarrow> \<forall>v. fst rw = Inr v \<longrightarrow> string_keyed v"
    and step: "(case recv w of (Inl e, w') \<Rightarrow> Some (Inl e, w')
      | (Inr chunk, w') \<Rightarrow>
          if chunk = [] then Some (Inr JNull, w')
          else (case json_loads_bytes (data @ chunk) of
              None \<Rightarrow> loop recv (data @ chunk) w'
            | Some response \<Rightarrow>
                if response = JNull then loop recv (data @ chunk) w'
                else Some (Inr response, w'))) = Some rw"
  obtain r w1 where r: "recv w = (r, w1)" by force
  show "\<forall>v. fst rw = Inr v \<longrightarrow> string_keyed v"
  proof (cases r)
    case (Inl e)
    with step r show ?thesis by auto
  next
    case (Inr chunk)
    with step r IH [of recv "data @ chunk" w1 rw] json_loads_bytes_keyed [of "data @ chunk"] show ?thesis
      by (cases "chunk = []"; cases "json_loads_bytes (data @ chunk)") (auto split: if_splits)
  qed
qed

lemma kea_result_keyed:
  assumes "kea_result other command v = Inr x" and "string_keyed v"
  shows "string_keyed x"
proof -
  obtain u where "(case v of JList xs \<Rightarrow> jhead v | _ \<Rightarrow> Inr v) = Inr u" and x: "jget_dflt u ''arguments'' (JDict []) = Inr x"
    using assms(1) by (auto simp: kea_result_def rbind_eq_Inr split: if_splits)
  then have "string_keyed u" using keyed_jhead [OF assms(2)] assms(2) by (cases v) (simp_all del: string_keyed.simps jhead.simps)
  from keyed_jget_dflt [OF this x] show ?thesis by simp
qed

lemma kea_command_keyed:
  "kea_command connect recv other path command w = Some (Inr x, w') \<Longrightarrow> string_keyed x"
  using kea_loop_keyed [of recv "[]"]
  by (fastforce simp: kea_command_def split: prod.splits sum.splits option.splits dest: kea_result_keyed)

lemma kea_queries_keyed:
  "kea_queries connect recv other path w = Some (Inr (cfg, stats), w') \<Longrightarrow> string_keyed cfg \<and> string_keyed stats"
  by (auto simp: kea_queries_def split: option.splits prod.splits sum.splits
      dest!: kea_command_keyed intro: keyed_jget_dflt)

lemma kea_networks_keyed:
  assumes "kea_networks cfg = Inr ns" and "string_keyed cfg"
  shows "\<forall>(name, subnets) \<in> set ns. string_keyed name \<and> string_keyed subnets"
proof -
  obtain l nets nets' s4 where l: "jget_dflt cfg ''shared-networks'' (JList []) = Inr l" "jiter l = Inr nets"
    and nets': "rmap (\<lambda>network. rbind (jget_dflt network ''name'' (JStr [])) (\<lambda>n.
       rbind (jget_dflt network ''subnet4'' (JList [])) (\<lambda>s. Inr (n, s)))) nets = Inr nets'"
    and s4: "jget_dflt cfg ''subnet4'' JNull = Inr s4" and ns: "ns = nets' @ (if jtruth s4 then [(JStr [], s4)] else [])"
    using assms(1) by (auto simp: kea_networks_def rbind_eq_Inr)
  have "string_keyed l" using keyed_jget_dflt [OF assms(2) l(1)] by simp
  then have "\<forall>x \<in> set nets. string_keyed x" using keyed_jiter [OF _ l(2)] by blast
  then have "\<forall>(name, subnets) \<in> set nets'. string_keyed name \<and> string_keyed subnets"
    using nets'
  proof (induction nets arbitrary: nets')
    case (Cons x nets)
    then obtain n sl more where "jget_dflt x ''name'' (JStr []) = Inr n" "jget_dflt x ''subnet4'' (JList []) = Inr sl"
      "nets' = (n, sl) # more" and more: "rmap (\<lambda>network. rbind (jget_dflt network ''name'' (JStr [])) (\<lambda>n.
         rbind (jget_dflt network ''subnet4'' (JList [])) (\<lambda>s. Inr (n, s)))) nets = Inr more"
      by (auto simp: rbind_eq_Inr)
    then show ?case using Cons.IH [OF _ more] Cons.prems(1) keyed_jget_dflt [of x] by auto
  qed simp
  then show ?thesis using keyed_jget_dflt [OF assms(2) s4] by (auto simp: ns)
qed

lemma pool_loop_keyed:
  "pool_loop lims name subnet t pools = Inr es \<Longrightarrow> string_keyed name \<Longrightarrow> string_keyed subnet \<Longrightarrow>
     e \<in> set es \<Longrightarrow> string_keyed (pe_location e)"
proof (induction pools arbitrary: t es)
  case (Cons p ps)
  then obtain x xs where x: "pool_entry_of lims name subnet t p = Inr x" "pool_loop lims name subnet (0, 0, 0) ps = Inr xs"
    and es: "es = x # xs" by (auto simp: rbind_eq_Inr)
  have "string_keyed (pe_location x)"
    using x(1) Cons.prems(2,3) keyed_jget [of subnet]
    by (cases t) (auto simp: pool_entry_of_def rbind_eq_Inr Let_def split: if_splits)
  with Cons.IH [OF x(2) Cons.prems(2,3)] Cons.prems(4) show ?case by (auto simp: es)
qed simp

lemma subnet_loop_keyed:
  "subnet_loop other lims stats name xs nt = Inr (nt', es) \<Longrightarrow> string_keyed name \<Longrightarrow> \<forall>x \<in> set xs. string_keyed x \<Longrightarrow>
     e \<in> set es \<Longrightarrow> string_keyed (pe_location e)"
proof (induction xs arbitrary: nt es)
  case (Cons x xs)
  then obtain t pools es1 more where here: "pool_loop lims name x t pools = Inr es1"
    and rest: "subnet_loop other lims stats name xs (add_totals nt t) = Inr (nt', more)" and es: "es = es1 @ more"
    by (auto simp: rbind_eq_Inr)
  from pool_loop_keyed [OF here] Cons.IH [OF rest] Cons.prems(2-) show ?case by (auto simp: es)
qed simp

lemma network_loop_keyed:
  assumes "network_loop other lims stats ns tot = Inr (tot', subs, nets)"
    and "\<forall>(name, subnets) \<in> set ns. string_keyed name \<and> string_keyed subnets"
  shows "(\<forall>e \<in> set subs. string_keyed (pe_location e)) \<and> (\<forall>e \<in> set nets. string_keyed (ne_location e))"
  using assms
proof (induction ns arbitrary: tot subs nets)
  case (Cons n ns)
  obtain name sl where n: "n = (name, sl)" by force
  with Cons.prems(1) obtain xs nt es subs1 nets1 where xs: "jiter sl = Inr xs"
    and here: "subnet_loop other lims stats name xs (0, 0, 0) = Inr (nt, es)"
    and rest: "network_loop other lims stats ns (add_totals tot nt) = Inr (tot', subs1, nets1)"
    and subs: "subs = es @ subs1" "nets = (if jtruth name then [net_entry_of lims name nt] else []) @ nets1"
    by (auto simp: rbind_eq_Inr)
  have k: "string_keyed name" "\<forall>x \<in> set xs. string_keyed x" using Cons.prems(2) n keyed_jiter [OF _ xs] by auto
  have "ne_location (net_entry_of lims name nt) = name"
    by (simp add: net_entry_of_def Let_def split: prod.split)
  with subnet_loop_keyed [OF here k] Cons.IH [OF rest] Cons.prems(2) k show ?case by (auto simp: subs)
qed simp

lemma report_keyed:
  assumes "\<forall>e \<in> set (rp_subnets r). string_keyed (pe_location e)"
    and "\<forall>e \<in> set (rp_shared_networks r). string_keyed (ne_location e)" and "string_keyed (ne_location (rp_summary r))"
  shows "string_keyed (report_json r)"
proof -
  have "string_keyed (pool_json e)" if "string_keyed (pe_location e)" for e
    using that by (simp add: pool_json_def counter_items_def string_keyed_jd)
  moreover have "string_keyed (net_json e)" if "string_keyed (ne_location e)" for e
    using that by (simp add: net_json_def counter_items_def string_keyed_jd)
  ultimately show ?thesis
    using assms unfolding report_json_def string_keyed_jd by (simp add: list_all_iff del: string_keyed.simps(2))
qed

text \<open>What the entry of a pool, of a network and of the summary says of it, key by key.\<close>

definition counters_shown :: "json \<Rightarrow> counters \<Rightarrow> bool" where
  "counters_shown v c \<longleftrightarrow> jget v ''defined'' = Inr (JInt (c_defined c)) \<and> jget v ''used'' = Inr (JInt (c_used c)) \<and>
     jget v ''touched'' = Inr (JInt (c_touched c)) \<and> jget v ''free'' = Inr (JInt (max (c_defined c - c_used c) 0)) \<and>
     jget v ''percent'' = Inr (JFloat (c_percent c)) \<and>
     jget v ''touch_count'' = Inr (JInt (c_used c + c_touched c)) \<and>
     jget v ''touch_percent'' = Inr (JFloat (c_touch_percent c))"

definition pool_shown :: "json \<Rightarrow> pool_entry \<Rightarrow> bool" where
  "pool_shown v e \<longleftrightarrow> jget v ''location'' = Inr (pe_location e) \<and>
     jget v ''range'' = Inr (JStr (pe_first_ip e @ '' - '' @ pe_last_ip e)) \<and>
     jget v ''first_ip'' = Inr (JStr (pe_first_ip e)) \<and> jget v ''last_ip'' = Inr (JStr (pe_last_ip e)) \<and>
     counters_shown v (pe_counters e) \<and> jget v ''status'' = Inr (JInt 0)"

definition net_shown :: "json \<Rightarrow> net_entry \<Rightarrow> bool" where
  "net_shown v e \<longleftrightarrow> jget v ''location'' = Inr (ne_location e) \<and> counters_shown v (ne_counters e) \<and>
     jget v ''status'' = Inr (JInt 0)"

text \<open>The entries of a report hold derived counters, and without thresholds the status is OK.\<close>

definition derived :: "counters \<Rightarrow> bool" where
  "derived c \<longleftrightarrow> c_free c = max (c_defined c - c_used c) 0 \<and> c_touch_count c = c_used c + c_touched c"

lemma derived_counters [simp]: "derived (kea_counters d u t)"
  by (simp add: derived_def kea_counters_def Let_def)

lemma derived_shown:
  assumes "derived c" and "\<And>k. k \<in> fst ` set (counter_items c) \<Longrightarrow> jget v k = Inr (the (map_of (counter_items c) k))"
  shows "counters_shown v c"
  using assms(1) assms(2) [of "''defined''"] assms(2) [of "''used''"] assms(2) [of "''touched''"] assms(2) [of "''free''"]
    assms(2) [of "''percent''"] assms(2) [of "''touch_count''"] assms(2) [of "''touch_percent''"]
  by (simp add: counters_shown_def counter_items_def derived_def)

definition plain_pool :: "pool_entry \<Rightarrow> bool" where
  "plain_pool e \<longleftrightarrow> derived (pe_counters e) \<and> pe_range e = pe_first_ip e @ '' - '' @ pe_last_ip e \<and> pe_status e = OK"

definition plain_net :: "net_entry \<Rightarrow> bool" where
  "plain_net e \<longleftrightarrow> derived (ne_counters e) \<and> ne_status e = OK"

lemma plain_pool_shown: "plain_pool e \<Longrightarrow> pool_shown (pool_json e) e"
  unfolding pool_shown_def plain_pool_def
  by (intro conjI derived_shown) (auto simp: pool_json_def counter_items_def jd_def dict_get_def)

lemma plain_net_shown: "plain_net e \<Longrightarrow> net_shown (net_json e) e"
  unfolding net_shown_def plain_net_def
  by (intro conjI derived_shown) (auto simp: net_json_def counter_items_def jd_def dict_get_def)

lemma status_of_none: "status_of (None, None) c = OK"
  by (simp add: status_of_def kea_status_def)

lemma net_entry_plain: "plain_net (net_entry_of (None, None) l t)"
  by (cases t) (simp add: plain_net_def net_entry_of_def Let_def status_of_none)

lemma pool_loop_plain:
  "pool_loop (None, None) name subnet t pools = Inr es \<Longrightarrow> e \<in> set es \<Longrightarrow> plain_pool e"
proof (induction pools arbitrary: t es)
  case (Cons p ps)
  then obtain x xs where x: "pool_entry_of (None, None) name subnet t p = Inr x"
    and xs: "pool_loop (None, None) name subnet (0, 0, 0) ps = Inr xs" and es: "es = x # xs" by (auto simp: rbind_eq_Inr)
  have "plain_pool x" using x by (cases t) (auto simp: pool_entry_of_def rbind_eq_Inr Let_def plain_pool_def status_of_none)
  with Cons.IH [OF xs] Cons.prems(2) show ?case by (auto simp: es)
qed simp

lemma subnet_loop_plain:
  "subnet_loop other (None, None) stats name xs nt = Inr (nt', es) \<Longrightarrow> e \<in> set es \<Longrightarrow> plain_pool e"
proof (induction xs arbitrary: nt es)
  case (Cons x xs)
  then obtain t pools es1 more where here: "pool_loop (None, None) name x t pools = Inr es1"
    and rest: "subnet_loop other (None, None) stats name xs (add_totals nt t) = Inr (nt', more)" and es: "es = es1 @ more"
    by (auto simp: rbind_eq_Inr)
  from pool_loop_plain [OF here] Cons.IH [OF rest] Cons.prems(2) show ?case by (auto simp: es)
qed simp

lemma network_loop_plain:
  "network_loop other (None, None) stats ns tot = Inr (tot', subs, nets) \<Longrightarrow>
    (\<forall>e \<in> set subs. plain_pool e) \<and> (\<forall>e \<in> set nets. plain_net e)"
proof (induction ns arbitrary: tot subs nets)
  case (Cons n ns)
  obtain name sl where n: "n = (name, sl)" by force
  with Cons.prems obtain xs nt es subs1 nets1 where
    here: "subnet_loop other (None, None) stats name xs (0, 0, 0) = Inr (nt, es)"
    and rest: "network_loop other (None, None) stats ns (add_totals tot nt) = Inr (tot', subs1, nets1)"
    and subs: "subs = es @ subs1" "nets = (if jtruth name then [net_entry_of (None, None) name nt] else []) @ nets1"
    by (auto simp: rbind_eq_Inr)
  from subnet_loop_plain [OF here] Cons.IH [OF rest] net_entry_plain [of name nt] show ?case by (auto simp: subs)
qed simp

text \<open>
  C14. The printed report is read back: without arguments, when Kea answers and the report can be
  built, the program prints one JSON text and exits with 0. Decoding the text gives under \<open>subnets\<close> and
  \<open>shared-networks\<close> one object per pool and per network of the report, in order, and one under \<open>summary\<close>;
  each gives under its keys the location, the counters with the free and the touched count, both
  percentages and the status, which is 0 without thresholds, and that of a pool its first and last
  address and the range. (The text of a float must read back as that float, as \<open>repr\<close> guarantees.)
\<close>

theorem report_printed:
  assumes "kea_queries connect recv other DEFAULT_SOCKET w = Some (Inr (cfg, stats), w')"
    and "build_report other cfg stats None None = Inr r" and "floats_read repr (report_json r)"
  shows "\<exists>t v pools nets summary.
    kea_run connect recv other repr [] w = Some (Inr (0, Stdout t), w') \<and> json_loads t = Some v \<and>
    jget v ''subnets'' = Inr (JList pools) \<and> list_all2 pool_shown pools (rp_subnets r) \<and>
    jget v ''shared-networks'' = Inr (JList nets) \<and> list_all2 net_shown nets (rp_shared_networks r) \<and>
    jget v ''summary'' = Inr summary \<and> net_shown summary (rp_summary r)"
proof -
  obtain ns tot subs nets where ns: "kea_networks cfg = Inr ns"
    and loop: "network_loop other (None, None) stats ns (0, 0, 0) = Inr (tot, subs, nets)"
    and r: "r = \<lparr>rp_subnets = subs, rp_shared_networks = nets,
       rp_summary = net_entry_of (None, None) (JStr ''All networks'') tot\<rparr>"
    using assms(2) by (auto simp: build_report_def rbind_eq_Inr)
  have "string_keyed cfg" using kea_queries_keyed [OF assms(1)] by blast
  from network_loop_keyed [OF loop kea_networks_keyed [OF ns this]] have "string_keyed (report_json r)"
    by (intro report_keyed) (simp_all add: r net_entry_of_def Let_def split: prod.split)
  then have read: "json_loads (json_dumps (indent_format 2) repr (report_json r)) = Some (report_json r)"
    using assms(3) by (intro json_loads_dumps_id) simp_all
  have "list_all2 pool_shown (map pool_json (rp_subnets r)) (rp_subnets r)"
    "list_all2 net_shown (map net_json (rp_shared_networks r)) (rp_shared_networks r)"
    using network_loop_plain [OF loop] plain_pool_shown plain_net_shown
    by (auto simp: r list_all2_map1 intro!: list.rel_refl_strong)
  moreover have "net_shown (net_json (rp_summary r)) (rp_summary r)"
    unfolding r by (simp add: plain_net_shown net_entry_plain)
  moreover have "jget (report_json r) ''subnets'' = Inr (JList (map pool_json (rp_subnets r)))"
    "jget (report_json r) ''shared-networks'' = Inr (JList (map net_json (rp_shared_networks r)))"
    "jget (report_json r) ''summary'' = Inr (net_json (rp_summary r))"
    by (simp_all add: report_json_def jd_def dict_get_def)
  moreover have "kea_run connect recv other repr [] w =
      Some (Inr (0, Stdout (json_dumps (indent_format 2) repr (report_json r))), w')"
    using assms(1,2) by (simp add: kea_no_arguments kea_main_def)
  ultimately show ?thesis using read by blast
qed

definition ex_repr :: "rat \<Rightarrow> string" where
  "ex_repr q = show_int \<lfloor>q\<rfloor> @ ''.0''"

lemma ex_strip: "strip ''10.80.0.10 '' = ''10.80.0.10''"
  by code_simp

lemma ex_plain:
  "\<exists>r e. build_report (\<lambda>_. []) ex_config ex_stats None None = Inr r \<and> rp_subnets r = [e] \<and>
     pe_location e = JStr ''muc'' \<and> pe_first_ip e = ''10.80.0.10'' \<and>
     c_percent (pe_counters e) = 20 \<and> c_touch_percent (pe_counters e) = 20 \<and>
     rp_shared_networks r = [net_entry_of (None, None) (JStr ''muc'') (245, 49, 0)] \<and>
     rp_summary r = net_entry_of (None, None) (JStr ''All networks'') (245, 49, 0)"
  by (simp add: build_report_def ex_networks ex_totals jget_dflt_def dict_get_def pool_entry_of_def
      kea_counters_def ex_percent Let_def partition_on_def add_totals_def ex_strip)

lemma ex_net: "net_json (net_entry_of (None, None) l (245, 49, 0)) =
    jd [(''location'', l), (''defined'', JInt 245), (''used'', JInt 49), (''touched'', JInt 0),
         (''free'', JInt 196), (''percent'', JFloat 20), (''touch_count'', JInt 49), (''touch_percent'', JFloat 20),
         (''status'', JInt 0)]"
  by (simp add: net_json_def net_entry_of_def kea_counters_def Let_def ex_percent counter_items_def status_of_def kea_status_def)

lemma ex_repr_20: "scan_number (ex_repr 20) = Some (JFloat 20, [])"
  by code_simp

theorem report_printed_witness:
  "\<exists>t w' v pool. kea_run ex_connect ex_recv (\<lambda>_. []) ex_repr [] [] = Some (Inr (0, Stdout t), w') \<and>
     json_loads t = Some v \<and> jget v ''subnets'' = Inr (JList [pool]) \<and>
     jget pool ''location'' = Inr (JStr ''muc'') \<and> jget pool ''first_ip'' = Inr (JStr ''10.80.0.10'') \<and>
     jget pool ''percent'' = Inr (JFloat 20) \<and> jget pool ''status'' = Inr (JInt 0)"
proof -
  obtain w' where q: "kea_queries ex_connect ex_recv (\<lambda>_. []) DEFAULT_SOCKET [] = Some (Inr (ex_config, ex_stats), w')"
    using ex_queries by blast
  obtain r e where r: "build_report (\<lambda>_. []) ex_config ex_stats None None = Inr r" and e: "rp_subnets r = [e]"
    and loc: "pe_location e = JStr ''muc''" "pe_first_ip e = ''10.80.0.10''"
    and per: "c_percent (pe_counters e) = 20" "c_touch_percent (pe_counters e) = 20"
    and nets: "rp_shared_networks r = [net_entry_of (None, None) (JStr ''muc'') (245, 49, 0)]"
    and sum: "rp_summary r = net_entry_of (None, None) (JStr ''All networks'') (245, 49, 0)"
    using ex_plain by (elim exE conjE)
  have "floats_read ex_repr (report_json r)"
    using loc per ex_repr_20 unfolding report_json_def nets sum e
    by (auto simp: ex_net jd_def pool_json_def counter_items_def)
  from report_printed [OF q r this] obtain t v pools where
    "kea_run ex_connect ex_recv (\<lambda>_. []) ex_repr [] [] = Some (Inr (0, Stdout t), w')" "json_loads t = Some v"
    "jget v ''subnets'' = Inr (JList pools)" "list_all2 pool_shown pools [e]" unfolding e by blast
  then show ?thesis using loc per by (auto simp: list_all2_Cons2 pool_shown_def counters_shown_def)
qed

end
