(* ===== verification/Respondd_Base.thy ===== *)
theory Respondd_Base
  imports PyJsonText PyRegex
begin

text \<open>
  The shared parts of the responder under \<open>respondd/respondd-tmpl/lib\<close>: \<open>helper.py\<close>, the rate limiter
  \<open>ratelimit.py\<close> and the base class \<open>respondd.py\<close> with its cache. What the responder reads of the host
  is the parameter \<open>host\<close>: programs it runs, files, interfaces, the clock. An object with mutable
  attributes is a component of the world, so that its changes survive an exception.
\<close>

section \<open>The host\<close>

text \<open>
  \<open>check_output\<close> gives the decoded output of a program or raises, also for arguments that are not
  strings; \<open>fastd_connect\<close> connects to a socket and
  \<open>fastd_recv\<close> gives what successive calls of \<open>recv\<close> return on it; \<open>ifaddresses\<close> is that of the package
  netifaces, a dictionary from address families to lists of dictionaries.
\<close>

datatype af = AF_LINK | AF_INET | AF_INET6

record 'w host =
  check_output :: "json list \<Rightarrow> ('w, string) act"
  ifaddresses :: "json \<Rightarrow> ('w, (af, (string, string) dict list) dict) act"
  read_file :: "string \<Rightarrow> ('w, string) act"
  now :: "('w, rat) act"
  gethostname :: "('w, string) act"
  statvfs :: "('w, int \<times> int) act"
  fastd_connect :: "json \<Rightarrow> ('w, unit) act"
  fastd_recv :: "('w, string list) act"

text \<open>\<open>json.load\<close> of an open file.\<close>

definition load_json :: "'w host \<Rightarrow> string \<Rightarrow> ('w, json) act" where
  "load_json H path = abind (read_file H path) (\<lambda>s. alift (decoded (json_loads s)))"

section \<open>helper.py\<close>

text \<open>\<open>splitlines\<close> of bytes breaks at line feed and carriage return only.\<close>

fun bytes_lines :: "string \<Rightarrow> string \<Rightarrow> string list" where
  "bytes_lines acc [] = (if acc = [] then [] else [rev acc])"
| "bytes_lines acc (c # cs) =
     (if c = CR \<and> cs \<noteq> [] \<and> hd cs = NL then rev acc # bytes_lines [] (tl cs)
      else if c = NL \<or> c = CR then rev acc # bytes_lines [] cs
      else bytes_lines (c # acc) cs)"

definition call :: "'w host \<Rightarrow> json list \<Rightarrow> ('w, string list) act" where
  "call H cmdnargs = atry (abind (check_output H cmdnargs) (\<lambda>output. areturn (bytes_lines [] output))) []"

text \<open>
  \<open>merge\<close>: the module does not import \<open>itertools\<close>, so two lists raise a \<open>NameError\<close>. The dictionary
  comprehension is evaluated before the update.
\<close>

function merge :: "json \<Rightarrow> json \<Rightarrow> json res" where
  "merge a b =
     (case b of
        JDict e \<Rightarrow>
          (case a of
             JDict d \<Rightarrow>
               rbind (rmap (\<lambda>(k, v). rbind (merge (get_default (dict_get d k) JNull) v) (\<lambda>m. Inr (k, m))) e)
                 (\<lambda>kvs. Inr (JDict (fold (\<lambda>(k, v) d. dict_set k v d) kvs d)))
           | _ \<Rightarrow> Inr b)
      | JList ys \<Rightarrow> (case a of JList xs \<Rightarrow> Inl (NameError ''itertools'') | _ \<Rightarrow> Inr b)
      | JNull \<Rightarrow> Inr a
      | _ \<Rightarrow> Inr b)"
  by pat_completeness auto
termination
  by (relation "measure (\<lambda>(a, b). size b)") (auto dest: dict_value_size)

declare merge.simps [simp del]

definition getInterfaceMAC :: "'w host \<Rightarrow> json \<Rightarrow> ('w, string option) act" where
  "getInterfaceMAC H ifname =
     atry (abind (ifaddresses H ifname) (\<lambda>addrs.
       alift (case dict_get addrs AF_LINK of
         None \<Rightarrow> Inl (KeyError ''AF_LINK'')
       | Some [] \<Rightarrow> Inl IndexError
       | Some (mac # _) \<Rightarrow> rbind (dict_index mac ''addr'') (\<lambda>a. Inr (Some a))))) None"

definition jmac :: "string option \<Rightarrow> json" where
  "jmac m = (case m of None \<Rightarrow> JNull | Some s \<Rightarrow> JStr s)"

section \<open>ratelimit.py\<close>

record rate_limiter =
  rate_limit :: rat
  rate_burst :: rat
  bucket :: rat
  tLast :: "rat option"

definition rate_init :: "rat \<Rightarrow> rat \<Rightarrow> rate_limiter" where
  "rate_init limit burst = \<lparr>rate_limit = limit, rate_burst = burst, bucket = burst, tLast = None\<rparr>"

text \<open>
  \<open>limit\<close> at the clock value \<open>tNow\<close>. The time of the last call is stored before the division, which
  raises when the limit is zero.
\<close>

definition limit :: "rat \<Rightarrow> rate_limiter \<Rightarrow> bool res \<times> rate_limiter" where
  "limit tNow s =
     (case tLast s of
        None \<Rightarrow> (Inr True, s\<lparr>tLast := Some tNow\<rparr>)
      | Some t \<Rightarrow>
          let tDiff = fl (tNow - t); s = s\<lparr>tLast := Some tNow\<rparr> in
          if rate_limit s = 0 then (Inl ZeroDivisionError, s)
          else
            let b = fl (fl (bucket s) + fl (tDiff / fl (60 / rate_limit s)));
                b = (if b > rate_burst s then rate_burst s else b)
            in if b \<ge> 1 then (Inr True, s\<lparr>bucket := fl (b - 1)\<rparr>) else (Inr False, s\<lparr>bucket := b\<rparr>))"

section \<open>respondd.py\<close>

text \<open>The cache of an object, and what it was made with.\<close>

record rd_cache =
  rd_value :: json
  rd_time :: rat

definition rd_init :: rd_cache where
  "rd_init = \<lparr>rd_value = JDict [], rd_time = 0\<rparr>"

text \<open>\<open>alias.json\<close>: only a failure to read it is caught.\<close>

definition load_alias :: "'w host \<Rightarrow> ('w, json) act" where
  "load_alias H w =
     (case load_json H ''alias.json'' w of
        (Inl (OSError s), w') \<Rightarrow> (Inr (JDict []), w')
      | (Inl e, w') \<Rightarrow> (Inl e, w')
      | (Inr j, w') \<Rightarrow> (Inr j, w'))"

definition getNodeID :: "'w host \<Rightarrow> json \<Rightarrow> json \<Rightarrow> ('w, json) act" where
  "getNodeID H config aliases =
     abind (alift (rbind (jin ''nodeinfo'' aliases) (\<lambda>n.
       if n then rbind (jget aliases ''nodeinfo'') (jin ''node_id'') else Inr False))) (\<lambda>has.
     if has then alift (rbind (jget aliases ''nodeinfo'') (\<lambda>n. jget n ''node_id''))
     else
       abind (alift (jget config ''batman'')) (\<lambda>batman.
       abind (getInterfaceMAC H batman) (\<lambda>mac.
       case mac of
         None \<Rightarrow> araise (AttributeError ''replace'')
       | Some m \<Rightarrow> areturn (JStr (filter (\<lambda>c. c \<noteq> CHR '':'') m)))))"

fun jnum :: "json \<Rightarrow> rat res" where
  "jnum (JInt i) = Inr (of_int i)"
| "jnum (JFloat q) = Inr q"
| "jnum (JBool b) = Inr (if b then 1 else 0)"
| "jnum v = type_error ''not a number'' v"

text \<open>\<open>"caching" in config and time.time() - cacheTime <= config["caching"]\<close>\<close>

definition cache_valid :: "'w host \<Rightarrow> json \<Rightarrow> ('w \<times> rd_cache, bool) act" where
  "cache_valid H config =
     abind (alift (jin ''caching'' config)) (\<lambda>c.
     if \<not> c then areturn False
     else
       abind (outer (now H)) (\<lambda>t.
       abind get_obj (\<lambda>s.
       abind (alift (rbind (jget config ''caching'') jnum)) (\<lambda>caching.
       areturn (fl (t - rd_time s) \<le> caching)))))"

text \<open>
  \<open>getStruct\<close> for the \<open>_get\<close> of a subclass. The cache holds the object that \<open>node_id\<close> is stored into
  afterwards; when \<open>getNodeID\<close> or the store raises, the cache keeps the value without it.
\<close>

definition fresh_struct :: "'w host \<Rightarrow> json \<Rightarrow> json \<Rightarrow> ('w, json) act \<Rightarrow> ('w \<times> rd_cache, json) act" where
  "fresh_struct H config aliases get =
     abind (outer get) (\<lambda>ret.
     abind get_obj (\<lambda>s. abind (put_obj (s\<lparr>rd_value := ret\<rparr>)) (\<lambda>_.
     abind (outer (now H)) (\<lambda>t.
     abind get_obj (\<lambda>s. abind (put_obj (s\<lparr>rd_time := t\<rparr>)) (\<lambda>_.
     abind (outer (getNodeID H config aliases)) (\<lambda>nid.
     abind (alift (jset ''node_id'' nid ret)) (\<lambda>ret.
     abind get_obj (\<lambda>s. abind (put_obj (s\<lparr>rd_value := ret\<rparr>)) (\<lambda>_.
     areturn ret))))))))))"

definition getStruct ::
  "'w host \<Rightarrow> json \<Rightarrow> json \<Rightarrow> ('w, json) act \<Rightarrow> string option \<Rightarrow> ('w \<times> rd_cache, json) act" where
  "getStruct H config aliases get rootName =
     abind (cache_valid H config) (\<lambda>valid.
     abind (if valid then abind get_obj (\<lambda>s. areturn (rd_value s))
            else fresh_struct H config aliases get) (\<lambda>ret.
     areturn (case rootName of None \<Rightarrow> ret | Some r \<Rightarrow> JDict [(JStr r, ret)])))"

end
