(* ===== verification/Respondd_Limits.thy ===== *)
theory Respondd_Limits
  imports Respondd_Base
begin

text \<open>
  The rate limiter as a state machine: its reachable states, for any clock and for a clock that does
  not go back; the bounds of the bucket, that waiting helps while the clock does not go back, and what a burst gets.
\<close>

section \<open>Reachable states\<close>

text \<open>
  Calls of \<open>limit\<close> at any clock values, and calls at clock values that do not go back. \<open>time.time()\<close> may
  go back, when the system clock is set.
\<close>

inductive rl_calls :: "rat \<Rightarrow> rat \<Rightarrow> rate_limiter \<Rightarrow> bool" for l b where
  start: "rl_calls l b (rate_init l b)"
| call: "rl_calls l b s \<Longrightarrow> limit t s = (r, s') \<Longrightarrow> rl_calls l b s'"

inductive rl_reach :: "rat \<Rightarrow> rat \<Rightarrow> rate_limiter \<Rightarrow> bool" for l b where
  init: "rl_reach l b (rate_init l b)"
| step: "rl_reach l b s \<Longrightarrow> (\<And>t0. tLast s = Some t0 \<Longrightarrow> t0 \<le> t) \<Longrightarrow> limit t s = (r, s') \<Longrightarrow> rl_reach l b s'"

definition rl_inv :: "rat \<Rightarrow> rat \<Rightarrow> rate_limiter \<Rightarrow> bool" where
  "rl_inv l b s \<longleftrightarrow> rate_limit s = l \<and> rate_burst s = b \<and> 0 \<le> bucket s \<and> bucket s \<le> b"

text \<open>The bucket after the refill of a call \<open>d\<close> seconds after the last one.\<close>

definition refill :: "rate_limiter \<Rightarrow> rat \<Rightarrow> rat" where
  "refill s d = min (rate_burst s) (fl (fl (bucket s) + fl (fl d / fl (60 / rate_limit s))))"

lemma limit_later:
  assumes "tLast s = Some t0" and "rate_limit s \<noteq> 0"
  shows "limit t s = (if refill s (t - t0) \<ge> 1
    then (Inr True, s\<lparr>tLast := Some t, bucket := fl (refill s (t - t0) - 1)\<rparr>)
    else (Inr False, s\<lparr>tLast := Some t, bucket := refill s (t - t0)\<rparr>))"
  using assms by (auto simp: limit_def Let_def refill_def min_def)

lemma refill_bounds:
  assumes "rl_inv l b s" and "0 < l" and "0 \<le> d"
  shows "0 \<le> refill s d" and "refill s d \<le> b"
proof -
  have "0 \<le> fl (fl (bucket s) + fl (fl d / fl (60 / rate_limit s)))"
    using assms by (intro fl_nonneg add_nonneg_nonneg divide_nonneg_nonneg) (auto simp: rl_inv_def)
  with assms show "0 \<le> refill s d" by (auto simp: refill_def rl_inv_def)
  show "refill s d \<le> b" using assms by (simp add: refill_def rl_inv_def)
qed

lemma limit_inv:
  assumes inv: "rl_inv l b s" and l: "0 < l" and b: "fl b = b" and t: "\<And>t0. tLast s = Some t0 \<Longrightarrow> t0 \<le> t"
    and run: "limit t s = (r, s')"
  shows "rl_inv l b s' \<and> tLast s' = Some t \<and> (\<exists>g. r = Inr g)"
proof (cases "tLast s")
  case None
  then show ?thesis using inv run by (auto simp: limit_def rl_inv_def)
next
  case (Some t0)
  let ?b = "refill s (t - t0)"
  have bounds: "0 \<le> ?b" "?b \<le> b" using refill_bounds [OF inv l] t [OF Some] by auto
  have "fl (?b - 1) \<le> fl b" using bounds by (intro fl_mono) simp
  then have less: "fl (?b - 1) \<le> b" by (simp add: b)
  have nz: "rate_limit s \<noteq> 0" using inv l by (simp add: rl_inv_def)
  show ?thesis
  proof (cases "?b \<ge> 1")
    case True
    then have "0 \<le> fl (?b - 1)" by (intro fl_nonneg) simp
    with True run inv less show ?thesis unfolding limit_later [OF Some nz] by (auto simp: rl_inv_def)
  next
    case False
    with run inv bounds show ?thesis unfolding limit_later [OF Some nz] by (auto simp: rl_inv_def)
  qed
qed

lemma rl_reach_inv:
  assumes "rl_reach l b s" and "0 < l" and "fl b = b" and "0 \<le> b"
  shows "rl_inv l b s"
  using assms(1)
proof induction
  case init
  then show ?case using assms by (simp add: rl_inv_def rate_init_def)
next
  case (step s t r s')
  then show ?case using limit_inv [OF step.IH assms(2,3) step.hyps(2) step.hyps(3)] by blast
qed

text \<open>Whatever the clock shows, the bucket is never above the burst, and a call gives an answer.\<close>

lemma limit_capped:
  assumes "rate_limit s = l" and "rate_burst s = b" and "bucket s \<le> b" and "l \<noteq> 0" and b: "fl b = b"
    and run: "limit t s = (r, s')"
  shows "rate_limit s' = l \<and> rate_burst s' = b \<and> bucket s' \<le> b \<and> (\<exists>g. r = Inr g)"
proof (cases "tLast s")
  case None
  then show ?thesis using assms by (auto simp: limit_def)
next
  case (Some t0)
  have nz: "rate_limit s \<noteq> 0" using assms by simp
  have cap: "refill s (t - t0) \<le> b" using assms by (simp add: refill_def)
  then have "fl (refill s (t - t0) - 1) \<le> fl b" by (intro fl_mono) simp
  then show ?thesis using run cap b assms(1-3) unfolding limit_later [OF Some nz] by (auto split: if_splits)
qed

lemma rl_calls_capped:
  assumes "rl_calls l b s" and "l \<noteq> 0" and "fl b = b"
  shows "rate_limit s = l \<and> rate_burst s = b \<and> bucket s \<le> b"
  using assms(1)
proof induction
  case start
  then show ?case by (simp add: rate_init_def)
next
  case (call s t r s')
  then show ?case using limit_capped [OF _ _ _ assms(2,3) call.hyps(2)] by blast
qed

section \<open>Bursts\<close>

text \<open>\<open>n\<close> calls at the same clock value.\<close>

fun limit_burst :: "nat \<Rightarrow> rat \<Rightarrow> rate_limiter \<Rightarrow> bool res list" where
  "limit_burst 0 t s = []"
| "limit_burst (Suc n) t s = (case limit t s of (r, s') \<Rightarrow> r # limit_burst n t s')"

lemma burst_step:
  assumes "tLast s = Some t" and "rate_limit s \<noteq> 0" and "bucket s = of_int b" and "0 \<le> b"
    and "of_int b \<le> rate_burst s" and "b \<le> 2 ^ 53"
  shows "limit t s = (if b \<ge> 1 then (Inr True, s\<lparr>bucket := of_int (b - 1)\<rparr>) else (Inr False, s))"
proof -
  have "fl (of_int b) = of_int b" using assms by (intro fl_of_int) simp
  then have "refill s (t - t) = of_int b" using assms by (simp add: refill_def)
  moreover have "fl (of_int b - 1) = of_int (b - 1)" using fl_of_int [of "b - 1"] assms by simp
  moreover have "(1 :: rat) \<le> of_int b \<longleftrightarrow> 1 \<le> b" by (metis of_int_1 of_int_le_iff)
  ultimately show ?thesis
    unfolding limit_later [OF assms(1,2)] using assms(1,3) by auto
qed

lemma burst_run:
  assumes "tLast s = Some t" and "rate_limit s \<noteq> 0" and "bucket s = of_int (int b)"
    and "of_int (int b) \<le> rate_burst s" and "int b \<le> 2 ^ 53"
  shows "limit_burst n t s = map Inr (replicate (min n b) True @ replicate (n - b) False)"
  using assms
proof (induction n arbitrary: s b)
  case 0
  then show ?case by simp
next
  case (Suc n)
  show ?case
  proof (cases b)
    case 0
    then have "limit t s = (Inr False, s)" using burst_step [OF Suc.prems(1,2,3)] Suc.prems by simp
    with Suc.IH [OF Suc.prems] 0 show ?thesis by simp
  next
    case (Suc c)
    then have "limit t s = (Inr True, s\<lparr>bucket := of_int (int c)\<rparr>)"
      using burst_step [OF Suc.prems(1,2,3)] Suc.prems by simp
    moreover have "limit_burst n t (s\<lparr>bucket := of_int (int c)\<rparr>) =
        map Inr (replicate (min n c) True @ replicate (n - c) False)"
      using Suc.prems Suc by (intro Suc.IH) auto
    ultimately show ?thesis using Suc by simp
  qed
qed

section \<open>Properties\<close>

text \<open>
  C26. The bucket stays within its bounds. For calls at any clock values, with a positive limit and a
  whole burst of at most \<open>2 ^ 53\<close>: in every reachable state the bucket, in float arithmetic, is at most
  the burst, and the next call gives an answer, it does not raise. While the clock does not go back
  the bucket is also at least zero.
\<close>

theorem rate_limiter_bounds:
  assumes "rl_calls l (of_int B) s" and "0 < l" and "0 \<le> B" and "B \<le> 2 ^ 53"
  shows "bucket s \<le> of_int B \<and> (rl_reach l (of_int B) s \<longrightarrow> 0 \<le> bucket s) \<and>
    (\<exists>g s'. limit t s = (Inr g, s') \<and> rl_calls l (of_int B) s' \<and>
      (rl_reach l (of_int B) s \<and> (\<forall>t0. tLast s = Some t0 \<longrightarrow> t0 \<le> t) \<longrightarrow> rl_reach l (of_int B) s'))"
proof -
  have B: "fl (of_int B) = of_int B" using assms by (intro fl_of_int) simp
  have l: "l \<noteq> 0" using assms(2) by simp
  note cap = rl_calls_capped [OF assms(1) l B]
  have low: "rl_reach l (of_int B) s \<Longrightarrow> 0 \<le> bucket s"
    using rl_reach_inv [OF _ assms(2) B] assms(3) by (simp add: rl_inv_def)
  obtain r s' where run: "limit t s = (r, s')" by force
  moreover have "\<exists>g. r = Inr g" using limit_capped [OF _ _ _ l B run] cap by blast
  moreover have "rl_calls l (of_int B) s'" by (rule rl_calls.call [OF assms(1) run])
  moreover have "rl_reach l (of_int B) s'"
    if "rl_reach l (of_int B) s" "\<forall>t0. tLast s = Some t0 \<longrightarrow> t0 \<le> t"
    using rl_reach.step [OF that(1) _ run] that(2) by blast
  ultimately show ?thesis using cap low by blast
qed

theorem rate_limiter_bounds_witness:
  "\<exists>g s'. limit 5 (snd (limit 3 (rate_init 30 (of_int 10)))) = (Inr g, s') \<and> rl_reach 30 (of_int 10) s' \<and>
    bucket (snd (limit 3 (rate_init 30 (of_int 10)))) \<le> 10"
proof -
  have s: "rl_calls 30 (of_int 10) (snd (limit 3 (rate_init 30 (of_int 10))))"
    by (rule rl_calls.call [OF rl_calls.start, where t = 3 and r = "Inr True"]) (simp add: limit_def rate_init_def)
  have "rl_reach 30 (of_int 10) (snd (limit 3 (rate_init 30 (of_int 10))))"
    by (rule rl_reach.step [OF rl_reach.init, of _ _ 3 "Inr True"]) (simp_all add: limit_def rate_init_def)
  moreover have "tLast (snd (limit 3 (rate_init 30 (of_int 10)))) = Some 3" by (simp add: limit_def rate_init_def)
  ultimately show ?thesis using rate_limiter_bounds [OF s, of 5] by auto
qed

text \<open>
  When the clock is set back the bucket becomes negative, and calls are refused for as long as it
  takes to fill it: with 30 requests per minute and a burst of 10, an hour back costs 1800 requests,
  and a call a minute later is refused.
\<close>

lemma clock_back_refuses:
  "let s = snd (limit 0 (snd (limit 3600 (rate_init 30 10)))) in bucket s = -1790 \<and> fst (limit 60 s) = Inr False"
  by code_simp

text \<open>
  C27. Waiting helps: with a limit of at least one request per minute and a whole burst of at least one
  and at most \<open>2 ^ 53\<close>, and a clock that has not gone back so far, a call that comes sixty seconds or
  more after the previous one is always admitted.
\<close>

theorem waiting_is_enough:
  assumes "rl_reach l (of_int B) s" and "1 \<le> l" and "1 \<le> B" and "B \<le> 2 ^ 53"
    and "tLast s = Some t0" and "t0 + 60 \<le> t"
  shows "fst (limit t s) = Inr True"
proof -
  have B: "fl (of_int B) = of_int B" using assms by (intro fl_of_int) simp
  have inv: "rl_inv l (of_int B) s" using rl_reach_inv [OF assms(1) _ B] assms(2,3) by simp
  have l: "rate_limit s = l" using inv by (simp add: rl_inv_def)
  have d: "60 \<le> fl (t - t0)" using fl_mono [of 60 "t - t0"] fl_of_numeral assms(6) by simp
  have q: "0 < fl (60 / l)" "fl (60 / l) \<le> 60"
  proof -
    show "0 < fl (60 / l)" using fl_pos_gt_0 [of "60 / l"] assms(2) by (simp add: fl_def)
    have "60 / l \<le> 60" using assms(2) by (simp add: divide_le_eq)
    then show "fl (60 / l) \<le> 60" using fl_mono [of "60 / l" 60] fl_of_numeral by simp
  qed
  have "1 \<le> fl (t - t0) / fl (60 / l)" using d q by (simp add: le_divide_eq)
  then have "1 \<le> fl (fl (t - t0) / fl (60 / l))" using fl_mono [of 1] by simp
  moreover have "0 \<le> fl (bucket s)" using inv by (intro fl_nonneg) (simp add: rl_inv_def)
  ultimately have "1 \<le> fl (fl (bucket s) + fl (fl (t - t0) / fl (60 / l)))"
    using fl_mono [of 1 "fl (bucket s) + fl (fl (t - t0) / fl (60 / l))"] by simp
  moreover have "(1 :: rat) \<le> of_int B" using assms(3) by simp
  ultimately have "1 \<le> refill s (t - t0)" using inv by (simp add: refill_def rl_inv_def l)
  then show ?thesis using assms(2,5) l by (simp add: limit_later)
qed

theorem waiting_is_enough_witness:
  "fst (limit 63 (snd (limit 3 (rate_init 30 (of_int 10))))) = Inr True"
proof (rule waiting_is_enough)
  show "rl_reach 30 (of_int 10) (snd (limit 3 (rate_init 30 (of_int 10))))"
    by (rule rl_reach.step [OF rl_reach.init, of _ _ 3 "Inr True"]) (simp_all add: limit_def rate_init_def)
  show "tLast (snd (limit 3 (rate_init 30 (of_int 10)))) = Some 3" by (simp add: limit_def rate_init_def)
qed simp_all

text \<open>
  C28. A burst gets one request more than the burst size: of \<open>n\<close> calls at one moment to a new
  limiter exactly the first \<open>B + 1\<close> are admitted, because the first call does not take from the
  bucket.
\<close>

theorem burst_admits:
  assumes "l \<noteq> 0" and "int B \<le> 2 ^ 53"
  shows "limit_burst n t (rate_init l (of_int (int B))) =
    map Inr (replicate (min n (B + 1)) True @ replicate (n - (B + 1)) False)"
proof (cases n)
  case (Suc m)
  let ?s = "(rate_init l (of_int (int B)))\<lparr>tLast := Some t\<rparr>"
  have "limit_burst m t ?s = map Inr (replicate (min m B) True @ replicate (m - B) False)"
    using assms by (intro burst_run) (simp_all add: rate_init_def)
  then show ?thesis using Suc by (simp add: limit_def rate_init_def)
qed simp

theorem burst_admits_witness:
  "limit_burst 4 100 (rate_init 30 (of_int (int 2))) = [Inr True, Inr True, Inr True, Inr False]"
  using burst_admits [of 30 2 4 100] by (simp add: eval_nat_numeral)

end
