(* ===== verification/Respondd_Classes.thy ===== *)
theory Respondd_Classes
  imports Respondd_Base
begin

text \<open>
  The three subclasses of the responder: \<open>nodeinfo.py\<close>, \<open>statistics.py\<close> and \<open>neighbours.py\<close>. A Python
  structure is a JSON value; regular expressions are patterns of \<open>PyRegex\<close>, with the letters of both
  cases written out where the source asks for \<open>re.I\<close>.
\<close>

section \<open>Patterns\<close>

abbreviation rx_hexcolon :: rx where
  "rx_hexcolon \<equiv> RCls (\<lambda>c. is_hexdigit c \<or> c = CHR '':'')"

abbreviation rx_lowhexcolon :: rx where
  "rx_lowhexcolon \<equiv> RCls (\<lambda>c. is_digit c \<or> c \<in> set ''abcdef:'')"

definition is_word :: "char \<Rightarrow> bool" where
  "is_word c \<longleftrightarrow> is_digit c \<or> to_lower c \<in> set ''abcdefghijklmnopqrstuvwxyz'' \<or> c = CHR ''_''"

definition rx_lit_ci :: "string \<Rightarrow> rx" where
  "rx_lit_ci s = rx_cat (map (\<lambda>x. RCls (\<lambda>c. to_lower c = to_lower x)) s)"

text \<open>\<open>^([^:]*)\<close>\<close>

definition rx_ifname :: rx where
  "rx_ifname = RGrp 1 (rx_star (rx_not '':''))"

definition ifname_of :: "string \<Rightarrow> string" where
  "ifname_of line = (case rx_match rx_ifname line of None \<Rightarrow> [] | Some (_, m) \<Rightarrow> rx_group m 1)"

definition meshif :: "'w host \<Rightarrow> json \<Rightarrow> string list \<Rightarrow> ('w, string list) act" where
  "meshif H batman args = call H ([JStr ''batctl'', JStr ''meshif'', batman] @ map JStr args)"

text \<open>\<open>xs[i]\<close> of a list.\<close>

definition nth_res :: "'a list \<Rightarrow> nat \<Rightarrow> 'a res" where
  "nth_res xs i = (if i < length xs then Inr (xs ! i) else Inl IndexError)"

text \<open>The lines of a text file with their line feeds.\<close>

fun file_lines :: "string \<Rightarrow> string \<Rightarrow> string list" where
  "file_lines acc [] = (if acc = [] then [] else [rev acc])"
| "file_lines acc (c # cs) = (if c = NL then rev (c # acc) # file_lines [] cs else file_lines (c # acc) cs)"

section \<open>nodeinfo.py\<close>

text \<open>The loop over the addresses of one family, up to an entry without the key \<open>addr\<close>.\<close>

fun addr_loop :: "(string, string) dict list \<Rightarrow> string list \<times> bool" where
  "addr_loop [] = ([], True)"
| "addr_loop (ip # ips) = (case dict_get ip ''addr'' of
     None \<Rightarrow> ([], False)
   | Some a \<Rightarrow> (case addr_loop ips of (l, ok) \<Rightarrow> (hd (split_on CHR ''%'' a) # l, ok)))"

definition getInterfaceAddresses :: "'w host \<Rightarrow> json \<Rightarrow> ('w, string list) act" where
  "getInterfaceAddresses H ifname w =
     (case ifaddresses H ifname w of
        (Inl e, w1) \<Rightarrow> (Inr [], w1)
      | (Inr d6, w1) \<Rightarrow>
         (case dict_get d6 AF_INET6 of
            None \<Rightarrow> (Inr [], w1)
          | Some ip6 \<Rightarrow>
             (case addr_loop ip6 of (a6, ok) \<Rightarrow>
                if \<not> ok then (Inr a6, w1)
                else (case ifaddresses H ifname w1 of
                    (Inl e, w2) \<Rightarrow> (Inr a6, w2)
                  | (Inr d4, w2) \<Rightarrow>
                     (case dict_get d4 AF_INET of
                        None \<Rightarrow> (Inr a6, w2)
                      | Some ip \<Rightarrow> (Inr (a6 @ fst (addr_loop ip)), w2))))))"

definition interface_type :: "json \<Rightarrow> string \<Rightarrow> string res" where
  "interface_type config ifname =
     rbind (jin ''fastd'' config) (\<lambda>f.
     rbind (if f then rbind (jget config ''fastd'') (\<lambda>v. Inr (v = JStr ifname)) else Inr False) (\<lambda>fastd.
     if fastd then Inr ''tunnel''
     else if str_contains ''l2tp'' ifname then Inr ''l2tp''
     else
       rbind (jin ''mesh-vpn'' config) (\<lambda>v.
       rbind (if v then rbind (jget config ''mesh-vpn'') (jhas (JStr ifname)) else Inr False) (\<lambda>vpn.
       if vpn then Inr ''tunnel''
       else
         rbind (jin ''mesh-wlan'' config) (\<lambda>l.
         rbind (if l then rbind (jget config ''mesh-wlan'') (jhas (JStr ifname)) else Inr False) (\<lambda>wlan.
         Inr (if wlan then ''wireless'' else ''other'')))))))"

definition add_mesh_interface ::
  "'w host \<Rightarrow> json \<Rightarrow> string \<Rightarrow> (string, json list) dict \<Rightarrow> ('w, (string, json list) dict) act" where
  "add_mesh_interface H config line ret =
     abind (alift (interface_type config (ifname_of line))) (\<lambda>ty.
     abind (getInterfaceMAC H (JStr (ifname_of line))) (\<lambda>mac.
     areturn (dict_append ty (jmac mac) ret)))"

definition getBatmanInterfaces :: "'w host \<Rightarrow> json \<Rightarrow> json \<Rightarrow> ('w, (string, json list) dict) act" where
  "getBatmanInterfaces H config batman =
     abind (meshif H batman [''if'']) (\<lambda>lines.
     abind (afold (add_mesh_interface H config) lines []) (\<lambda>ret.
     areturn (case dict_get ret ''l2tp'' of
       None \<Rightarrow> ret
     | Some l \<Rightarrow> dict_set ''tunnel'' (get_default (dict_get ret ''tunnel'') [] @ l) ret)))"

text \<open>\<open>^(.+?)[\t ]+:[\t ]+(.*)$\<close>\<close>

definition rx_cpuinfo :: rx where
  "rx_cpuinfo = rx_cat [RGrp 1 (rx_plus_lazy rx_dot), rx_plus (rx_set [TAB, CHR '' '']), rx_chr CHR '':'',
     rx_plus (rx_set [TAB, CHR '' '']), RGrp 2 (rx_star rx_dot), REol]"

definition cpuinfo_line :: "string \<Rightarrow> (string, string) dict \<Rightarrow> (string, string) dict" where
  "cpuinfo_line line ret = (case rx_match rx_cpuinfo line of
     None \<Rightarrow> ret | Some (_, m) \<Rightarrow> dict_set (rx_group m 1) (rx_group m 2) ret)"

definition getCPUInfo :: "'w host \<Rightarrow> ('w, (string, string) dict) act" where
  "getCPUInfo H =
     abind (read_file H ''/proc/cpuinfo'') (\<lambda>text.
     let ret = fold cpuinfo_line (file_lines [] text) [] in
     alift (if dict_has ret ''model name'' then Inr ret
            else rbind (dict_index ret ''Processor'') (\<lambda>p. Inr (dict_set ''model name'' p ret))))"

definition getVPNFlag :: "'w host \<Rightarrow> json \<Rightarrow> ('w, bool) act" where
  "getVPNFlag H batman =
     abind (meshif H batman [''gw_mode'']) (\<lambda>lines.
     alift (rbind (nth_res lines 0) (\<lambda>l. Inr (rx_match (rx_lit ''server'') l \<noteq> None))))"

definition first_line :: "'w host \<Rightarrow> string list \<Rightarrow> ('w, string) act" where
  "first_line H cmd = abind (call H (map JStr cmd)) (\<lambda>lines. alift (nth_res lines 0))"

definition nodeinfo_get :: "'w host \<Rightarrow> json \<Rightarrow> json \<Rightarrow> ('w, json) act" where
  "nodeinfo_get H config aliases =
     abind (gethostname H) (\<lambda>hostname.
     abind (alift (jget config ''bridge'')) (\<lambda>bridge.
     abind (getInterfaceAddresses H bridge) (\<lambda>addresses.
     abind (alift (jget config ''batman'')) (\<lambda>batman.
     abind (getBatmanInterfaces H config batman) (\<lambda>interfaces.
     abind (getInterfaceMAC H batman) (\<lambda>mac.
     abind (first_line H [''lsb_release'', ''-is'']) (\<lambda>base.
     abind (first_line H [''lsb_release'', ''-ds'']) (\<lambda>release.
     abind (read_file H ''/sys/module/batman_adv/version'') (\<lambda>version.
     abind (getCPUInfo H) (\<lambda>cpu.
     abind (alift (dict_index cpu ''model name'')) (\<lambda>model.
     abind (abind (first_line H [''nproc'']) (\<lambda>n. alift (py_int n))) (\<lambda>nproc.
     abind (getVPNFlag H batman) (\<lambda>vpn.
     let ret = jd
       [(''hostname'', JStr hostname),
        (''network'', jd
          [(''addresses'', JList (map JStr addresses)),
           (''mesh'', jd [(''bat0'', jd [(''interfaces'', jd (map (\<lambda>(k, l). (k, JList l)) interfaces))])]),
           (''mac'', jmac mac)]),
        (''software'', jd
          [(''firmware'', jd [(''base'', JStr base), (''release'', JStr release)]),
           (''batman-adv'', jd [(''version'', JStr (strip version))]),
           (''status-page'', jd [(''api'', JInt 0)]),
           (''autoupdater'', jd [(''enabled'', JBool False)])]),
        (''hardware'', jd [(''model'', JStr model), (''nproc'', JInt nproc)]),
        (''owner'', JDict []), (''system'', JDict []), (''location'', JDict []),
        (''vpn'', JBool vpn)]
     in alift (rbind (jin ''nodeinfo'' aliases) (\<lambda>a.
       if a then rbind (jget aliases ''nodeinfo'') (merge ret) else Inr ret)))))))))))))))"

section \<open>statistics.py\<close>

text \<open>\<open>^[\s*]*([0-9a-f:]+)\s+-\d\s\[([RPNXWI\.]+)\]\<close> with \<open>re.I\<close>\<close>

definition rx_client :: rx where
  "rx_client = rx_cat [rx_star (RCls (\<lambda>c. is_space c \<or> c = CHR ''*'')), RGrp 1 (rx_plus rx_hexcolon),
     rx_plus rx_s, rx_chr CHR ''-'', rx_d, rx_s, rx_chr CHR ''['',
     RGrp 2 (rx_plus (rx_set ''RPNXWIrpnxwi.'')), rx_chr CHR '']'']"

text \<open>The counters \<open>total\<close> and \<open>wifi\<close> after one line of the local translation table.\<close>

definition count_client :: "string option \<Rightarrow> string \<Rightarrow> int \<times> int \<Rightarrow> (int \<times> int) res" where
  "count_client macBridge line counts =
     (case rx_match rx_client line of
        None \<Rightarrow> Inr counts
      | Some (_, m) \<Rightarrow>
          let mac = rx_group m 1; flags = rx_group m 2 in
          rbind (if macBridge \<noteq> Some mac then rbind (nth_res flags 0) (\<lambda>f. Inr (f \<noteq> CHR ''R'')) else Inr False) (\<lambda>own.
          if own \<and> \<not> startswith mac ''33:33:'' \<and> \<not> startswith mac ''01:00:5e:'' then
            rbind (nth_res flags 4) (\<lambda>f.
            Inr (fst counts + 1, if f = CHR ''W'' then snd counts + 1 else snd counts))
          else Inr counts))"

definition getClients :: "'w host \<Rightarrow> json \<Rightarrow> ('w, json) act" where
  "getClients H config =
     abind (alift (jget config ''bridge'')) (\<lambda>bridge.
     abind (getInterfaceMAC H bridge) (\<lambda>macBridge.
     abind (alift (jget config ''batman'')) (\<lambda>batman.
     abind (meshif H batman [''tl'', ''-n'']) (\<lambda>lines.
     abind (alift (rfold (count_client macBridge) lines (0, 0))) (\<lambda>(total, wifi).
     areturn (jd [(''total'', JInt total), (''wifi'', JInt wifi)]))))))"

definition traffic_line :: "string \<Rightarrow> (string, int) dict \<Rightarrow> (string, int) dict res" where
  "traffic_line line traffic =
     (let lineSplit = split_max CHR '':'' 1 (strip line) in
      rbind (nth_res lineSplit 0) (\<lambda>name.
      rbind (nth_res lineSplit 1) (\<lambda>value.
      rbind (py_int (strip value)) (\<lambda>n. Inr (dict_set name n traffic)))))"

text \<open>A part of the result: its keys and the counters they are read from.\<close>

definition traffic_part :: "(string, int) dict \<Rightarrow> (string \<times> string) list \<Rightarrow> json res" where
  "traffic_part traffic keys =
     rbind (rmap (\<lambda>(k, name). rbind (dict_index traffic name) (\<lambda>n. Inr (k, JInt n))) keys) (\<lambda>kvs. Inr (jd kvs))"

definition getTraffic :: "'w host \<Rightarrow> json \<Rightarrow> ('w, json) act" where
  "getTraffic H config =
     abind (alift (jget config ''batman'')) (\<lambda>batman.
     abind (call H [JStr ''ethtool'', JStr ''-S'', batman]) (\<lambda>lines.
     alift (if length lines = 0 then Inr (JDict []) else
       rbind (rfold traffic_line (drop 1 lines) []) (\<lambda>traffic.
       rbind (traffic_part traffic [(''packets'', ''tx''), (''bytes'', ''tx_bytes''), (''dropped'', ''tx_dropped'')]) (\<lambda>tx.
       rbind (traffic_part traffic [(''packets'', ''rx''), (''bytes'', ''rx_bytes'')]) (\<lambda>rx.
       rbind (traffic_part traffic [(''packets'', ''forward''), (''bytes'', ''forward_bytes'')]) (\<lambda>forward.
       rbind (traffic_part traffic [(''packets'', ''mgmt_rx''), (''bytes'', ''mgmt_rx_bytes'')]) (\<lambda>mgmt_rx.
       rbind (traffic_part traffic [(''packets'', ''mgmt_tx''), (''bytes'', ''mgmt_tx_bytes'')]) (\<lambda>mgmt_tx.
       Inr (jd [(''tx'', tx), (''rx'', rx), (''forward'', forward), (''mgmt_rx'', mgmt_rx), (''mgmt_tx'', mgmt_tx)])))))))))) "

fun memory_key :: "string \<Rightarrow> string option" where
  "memory_key name = (if name = ''MemTotal'' then Some ''total'' else if name = ''MemFree'' then Some ''free''
     else if name = ''Buffers'' then Some ''buffers'' else if name = ''Cached'' then Some ''cached'' else None)"

definition memory_line :: "string \<Rightarrow> (string, int) dict \<Rightarrow> (string, int) dict res" where
  "memory_line line ret =
     (let lineSplit = split_max CHR '' '' 1 line; name = butlast (hd lineSplit) in
      rbind (nth_res lineSplit 1) (\<lambda>rest.
      rbind (py_int (hd (split_max CHR '' '' 1 (strip rest)))) (\<lambda>value.
      Inr (case memory_key name of None \<Rightarrow> ret | Some k \<Rightarrow> dict_set k value ret))))"

definition getMemory :: "'w host \<Rightarrow> ('w, json) act" where
  "getMemory H =
     abind (read_file H ''/proc/meminfo'') (\<lambda>text.
     alift (rbind (rfold memory_line (file_lines [] text) []) (\<lambda>ret.
       Inr (jd (map (\<lambda>(k, n). (k, JInt n)) ret)))))"

text \<open>The loop over \<open>recv\<close> is \<open>recv_all\<close>. Only an error of the connection gives \<open>None\<close>.\<close>

definition getFastd :: "'w host \<Rightarrow> json \<Rightarrow> ('w, json) act" where
  "getFastd H config =
     abind (alift (jget config ''fastd_socket'')) (\<lambda>path w.
     case fastd_connect H path w of
       (Inl (OSError s), w') \<Rightarrow> (Inr JNull, w')
     | (Inl e, w') \<Rightarrow> (Inl e, w')
     | (Inr _, w') \<Rightarrow> abind (fastd_recv H) (\<lambda>chunks. alift (decoded (json_loads_bytes (recv_all [] chunks)))) w')"

fun jvalues :: "json \<Rightarrow> json list res" where
  "jvalues (JDict d) = Inr (dict_values d)"
| "jvalues v = Inl (AttributeError ''values'')"

definition add_peer :: "json \<Rightarrow> json \<Rightarrow> json res" where
  "add_peer peer ret =
     rbind (jget peer ''connection'') (\<lambda>c.
     if jtruth c then
       rbind (rbind (jget peer ''connection'') (\<lambda>c. jget c ''established'')) (\<lambda>e.
       rbind (jget peer ''name'') (\<lambda>n. jput n (jd [(''established'', e)]) ret))
     else rbind (jget peer ''name'') (\<lambda>n. jput n JNull ret))"

definition getMeshVPNPeers :: "'w host \<Rightarrow> json \<Rightarrow> ('w, json) act" where
  "getMeshVPNPeers H config =
     abind (alift (jin ''fastd_socket'' config)) (\<lambda>has.
     if \<not> has then areturn JNull
     else
       abind (getFastd H config) (\<lambda>fastd.
       alift (rbind (rbind (jget fastd ''peers'') jvalues) (\<lambda>peers. rfold add_peer peers (JDict [])))))"

text \<open>\<open>(\*|=>)\s+([0-9a-f:]+)\s\([\d \.]+\)\s+([0-9a-f:]+)\<close>\<close>

definition rx_gateway :: rx where
  "rx_gateway = rx_cat [RGrp 1 (RAlt (rx_chr CHR ''*'') (rx_lit ''=>'')), rx_plus rx_s,
     RGrp 2 (rx_plus rx_lowhexcolon), rx_s, rx_chr CHR ''('',
     rx_plus (RCls (\<lambda>c. is_digit c \<or> c = CHR '' '' \<or> c = CHR ''.'')), rx_chr CHR '')'', rx_plus rx_s,
     RGrp 3 (rx_plus rx_lowhexcolon)]"

definition gateway_line :: "string \<Rightarrow> json option \<Rightarrow> json option" where
  "gateway_line line ret = (case rx_match rx_gateway line of
     None \<Rightarrow> ret
   | Some (_, m) \<Rightarrow> Some (jd [(''gateway'', JStr (rx_group m 2)), (''gateway_nexthop'', JStr (rx_group m 3))]))"

definition getGateway :: "'w host \<Rightarrow> json \<Rightarrow> ('w, json option) act" where
  "getGateway H config =
     abind (alift (jget config ''batman'')) (\<lambda>batman.
     abind (meshif H batman [''gwl'', ''-n'']) (\<lambda>lines. areturn (fold gateway_line lines None)))"

definition getRootFS :: "'w host \<Rightarrow> ('w, rat) act" where
  "getRootFS H =
     abind (statvfs H) (\<lambda>(f_bfree, f_blocks).
     alift (if f_blocks = 0 then Inl ZeroDivisionError
            else Inr (fl (1 - fl (of_int f_bfree / of_int f_blocks)))))"

definition field_of :: "'w host \<Rightarrow> string \<Rightarrow> nat \<Rightarrow> ('w, string) act" where
  "field_of H path i = abind (read_file H path) (\<lambda>text. alift (nth_res (split_on CHR '' '' text) i))"

definition float_field :: "'w host \<Rightarrow> string \<Rightarrow> nat \<Rightarrow> ('w, json) act" where
  "float_field H path i = abind (field_of H path i) (\<lambda>s. alift (rbind (py_float s) (\<lambda>q. Inr (JFloat q))))"

text \<open>\<open>dict(zip(("running", "total"), map(int, parts)))\<close>: at most two parts are converted.\<close>

definition processes_of :: "string \<Rightarrow> json res" where
  "processes_of s =
     rbind (rmap (\<lambda>(k, p). rbind (py_int p) (\<lambda>n. Inr (k, JInt n)))
       (zip [''running'', ''total''] (split_on CHR ''/'' s))) (\<lambda>kvs. Inr (jd kvs))"

definition statistics_get :: "'w host \<Rightarrow> json \<Rightarrow> ('w, json) act" where
  "statistics_get H config =
     abind (getClients H config) (\<lambda>clients.
     abind (getTraffic H config) (\<lambda>traffic.
     abind (getMemory H) (\<lambda>memory.
     abind (getRootFS H) (\<lambda>rootfs.
     abind (float_field H ''/proc/uptime'' 1) (\<lambda>idletime.
     abind (float_field H ''/proc/uptime'' 0) (\<lambda>uptime.
     abind (float_field H ''/proc/loadavg'' 0) (\<lambda>loadavg.
     abind (abind (field_of H ''/proc/loadavg'' 3) (\<lambda>s. alift (processes_of s))) (\<lambda>processes.
     abind (getMeshVPNPeers H config) (\<lambda>peers.
     abind (getGateway H config) (\<lambda>gateway.
     let ret = jd
       [(''clients'', clients), (''traffic'', traffic), (''memory'', memory),
        (''rootfs_usage'', JFloat (py_round 4 rootfs)), (''idletime'', idletime), (''uptime'', uptime),
        (''loadavg'', loadavg), (''processes'', processes),
        (''mesh_vpn'', jd [(''groups'', jd [(''backbone'', jd [(''peers'', peers)])])])]
     in alift (case gateway of None \<Rightarrow> Inr ret | Some g \<Rightarrow> merge ret g)))))))))))"

section \<open>neighbours.py\<close>

text \<open>\<open>^Station ([0-9a-f:]+) \(on ([\w\d]+)\)\<close> and \<open>^[\t ]+([^:]+):[\t ]+([^ ]+)\<close>\<close>

definition rx_station :: rx where
  "rx_station = rx_cat [rx_lit_ci ''Station '', RGrp 1 (rx_plus rx_hexcolon), rx_chr CHR '' '', rx_chr CHR ''('',
     rx_lit_ci ''on '', RGrp 2 (rx_plus (RCls is_word)), rx_chr CHR '')'']"

definition rx_station_field :: rx where
  "rx_station_field = rx_cat [rx_plus (rx_set [TAB, CHR '' '']), RGrp 1 (rx_plus (rx_not '':'')), rx_chr CHR '':'',
     rx_plus (rx_set [TAB, CHR '' '']), RGrp 2 (rx_plus (rx_not '' ''))]"

type_synonym station_dump = "(string, (string, string) dict) dict"

definition station_line :: "string \<Rightarrow> string \<times> station_dump \<Rightarrow> (string \<times> station_dump) res" where
  "station_line line st = (case st of (mac, ret) \<Rightarrow>
     (case rx_match rx_station line of
        Some (_, m) \<Rightarrow> Inr (rx_group m 1, dict_set (rx_group m 1) [] ret)
      | None \<Rightarrow>
         (case rx_match rx_station_field line of
            None \<Rightarrow> Inr (mac, ret)
          | Some (_, m) \<Rightarrow> rbind (dict_index ret mac) (\<lambda>e.
              Inr (mac, dict_set mac (dict_set (rx_group m 1) (rx_group m 2) e) ret)))))"

definition station_interface :: "'w host \<Rightarrow> json \<Rightarrow> station_dump \<Rightarrow> ('w, station_dump) act" where
  "station_interface H ifname ret =
     abind (call H [JStr ''iw'', JStr ''dev'', ifname, JStr ''station'', JStr ''dump'']) (\<lambda>lines.
     alift (rbind (rfold station_line lines ([], ret)) (\<lambda>(mac, ret). Inr ret)))"

definition getStationDump :: "'w host \<Rightarrow> json \<Rightarrow> ('w, station_dump) act" where
  "getStationDump H interfaceList =
     abind (alift (jiter interfaceList)) (\<lambda>xs. afold (station_interface H) xs [])"

definition mesh_interface :: "'w host \<Rightarrow> string \<Rightarrow> (string, json) dict \<Rightarrow> ('w, (string, json) dict) act" where
  "mesh_interface H line ret =
     abind (getInterfaceMAC H (JStr (ifname_of line))) (\<lambda>mac. areturn (dict_set (ifname_of line) (jmac mac) ret))"

definition getMeshInterfaces :: "'w host \<Rightarrow> json \<Rightarrow> ('w, (string, json) dict) act" where
  "getMeshInterfaces H batman = abind (meshif H batman [''if'']) (\<lambda>lines. afold (mesh_interface H) lines [])"

text \<open>\<open>^[ \*\t]*([0-9a-f:]+)[ ]*([\d\.]*)s[ ]*\(([ ]*\d*)\)[ ]*([0-9a-f:]+)[ ]*\[[ ]*(.*)\]\<close> with \<open>re.I\<close>\<close>

definition rx_originator :: rx where
  "rx_originator = rx_cat [rx_star (rx_set [CHR '' '', CHR ''*'', TAB]), RGrp 1 (rx_plus rx_hexcolon),
     rx_star (rx_chr CHR '' ''), RGrp 2 (rx_star (RCls (\<lambda>c. is_digit c \<or> c = CHR ''.''))), rx_set ''sS'',
     rx_star (rx_chr CHR '' ''), rx_chr CHR ''('', RGrp 3 (RSeq (rx_star (rx_chr CHR '' '')) (rx_star rx_d)),
     rx_chr CHR '')'', rx_star (rx_chr CHR '' ''), RGrp 4 (rx_plus rx_hexcolon), rx_star (rx_chr CHR '' ''),
     rx_chr CHR ''['', rx_star (rx_chr CHR '' ''), RGrp 5 (rx_star rx_dot), rx_chr CHR '']'']"

text \<open>\<open>if mac not in ret[section]: ret[section][mac] = {}; ret[section][mac]["neighbours"] = {}\<close>\<close>

definition ensure_mac :: "string \<Rightarrow> json \<Rightarrow> json \<Rightarrow> json res" where
  "ensure_mac sec mac =
     jchange (JStr sec) (\<lambda>s. rbind (jhas mac s) (\<lambda>h.
       if h then Inr s else jput mac (jd [(''neighbours'', JDict [])]) s))"

definition put_neighbour :: "string \<Rightarrow> json \<Rightarrow> string \<Rightarrow> json \<Rightarrow> json \<Rightarrow> json res" where
  "put_neighbour sec mac origin v =
     jchange (JStr sec) (jchange mac (jchange (JStr ''neighbours'') (jput (JStr origin) v)))"

definition wifi_neighbour ::
  "(string, json) dict \<Rightarrow> station_dump \<Rightarrow> string \<Rightarrow> string \<Rightarrow> json \<Rightarrow> json res" where
  "wifi_neighbour mesh dump ifname origin ret =
     rbind (dict_index mesh ifname) (\<lambda>mac.
     rbind (ensure_mac ''wifi'' mac ret) (\<lambda>ret.
     case dict_get dump origin of
       None \<Rightarrow> Inr ret
     | Some e \<Rightarrow>
         rbind (dict_index e ''signal'') (\<lambda>signal.
         rbind (dict_index e ''inactive time'') (\<lambda>inactive.
         put_neighbour ''wifi'' mac origin
           (jd [(''signal'', JStr signal), (''noise'', JInt 0), (''inactive'', JStr inactive)]) ret))))"

definition batadv_neighbour ::
  "(string, json) dict \<Rightarrow> string \<Rightarrow> string \<Rightarrow> string \<Rightarrow> string \<Rightarrow> json \<Rightarrow> json res" where
  "batadv_neighbour mesh ifname origin tq lastseen ret =
     (case dict_get mesh ifname of
        None \<Rightarrow> Inr ret
      | Some mac \<Rightarrow>
          rbind (ensure_mac ''batadv'' mac ret) (\<lambda>ret.
          rbind (py_int tq) (\<lambda>q.
          rbind (py_float lastseen) (\<lambda>l.
          put_neighbour ''batadv'' mac origin (jd [(''tq'', JInt q), (''lastseen'', JFloat l)]) ret))))"

definition originator_line ::
  "json \<Rightarrow> station_dump option \<Rightarrow> (string, json) dict \<Rightarrow> string \<Rightarrow> json \<Rightarrow> json res" where
  "originator_line config dump mesh line ret =
     (case rx_match rx_originator line of
        None \<Rightarrow> Inr ret
      | Some (_, m) \<Rightarrow>
          if rx_group m 1 \<noteq> rx_group m 4 then Inr ret
          else
            rbind (case dump of
                None \<Rightarrow> Inr ret
              | Some d \<Rightarrow> rbind (rbind (jget config ''mesh-wlan'') (jhas (JStr (rx_group m 5)))) (\<lambda>w.
                  if w then wifi_neighbour mesh d (rx_group m 5) (rx_group m 1) ret else Inr ret))
              (batadv_neighbour mesh (rx_group m 5) (rx_group m 1) (rx_group m 3) (rx_group m 2)))"

definition neighbours_get :: "'w host \<Rightarrow> json \<Rightarrow> ('w, json) act" where
  "neighbours_get H config =
     abind (alift (jin ''mesh-wlan'' config)) (\<lambda>wlan.
     abind (if wlan then abind (alift (jget config ''mesh-wlan'')) (\<lambda>l.
              abind (getStationDump H l) (\<lambda>d. areturn (Some d))) else areturn None) (\<lambda>dump.
     abind (alift (jget config ''batman'')) (\<lambda>batman.
     abind (getMeshInterfaces H batman) (\<lambda>mesh.
     abind (meshif H batman [''o'', ''-n'']) (\<lambda>lines.
     alift (rfold (originator_line config dump mesh) lines
       (jd ([(''batadv'', JDict [])] @ (if wlan then [(''wifi'', JDict [])] else []))))))))) "

end
