(* ===== verification/Respondd_Client.thy ===== *)
theory Respondd_Client
  imports Respondd_Classes PyArgparse
begin

text \<open>
  The server of the responder, \<open>respondd_client.py\<close>, and the start of the program, \<open>ext-respondd.py\<close>. The
  socket, the functions of the operating system on addresses and interfaces, UTF-8 decoding, the text of
  floats and raw deflate compression are parameters; the endless loop of \<open>start\<close> is the handling of any
  finite sequence of datagrams. What is printed is left out, but the printing can raise.
\<close>

section \<open>Objects\<close>

record client =
  cl_config :: json
  cl_limit :: "rate_limiter option"
  cl_aliases :: "json \<times> json \<times> json"
  cl_nodeinfo :: rd_cache
  cl_neighbours :: rd_cache
  cl_statistics :: rd_cache

text \<open>An action on one attribute of the client.\<close>

definition on_field :: "('c \<Rightarrow> 's) \<Rightarrow> ('s \<Rightarrow> 'c \<Rightarrow> 'c) \<Rightarrow> ('w \<times> 's, 'a) act \<Rightarrow> ('w \<times> 'c, 'a) act" where
  "on_field get put m wc =
     (case m (fst wc, get (snd wc)) of (r, (w', s')) \<Rightarrow> (r, (w', put s' (snd wc))))"

definition client_init :: "'w host \<Rightarrow> json \<Rightarrow> ('w, client) act" where
  "client_init H config =
     abind (alift (rbind (jin ''rate_limit'' config) (\<lambda>has.
       if \<not> has then Inr (config, None)
       else
         rbind (rbind (jin ''rate_limit_burst'' config) (\<lambda>b.
           if b then Inr config else jset ''rate_limit_burst'' (JInt 10) config)) (\<lambda>config.
         rbind (rbind (jget config ''rate_limit'') jnum) (\<lambda>l.
         rbind (rbind (jget config ''rate_limit_burst'') jnum) (\<lambda>b.
         Inr (config, Some (rate_init l b)))))))) (\<lambda>(config, rl).
     abind (load_alias H) (\<lambda>a1. abind (load_alias H) (\<lambda>a2. abind (load_alias H) (\<lambda>a3.
     areturn \<lparr>cl_config = config, cl_limit = rl, cl_aliases = (a1, a2, a3),
       cl_nodeinfo = rd_init, cl_neighbours = rd_init, cl_statistics = rd_init\<rparr>))))"

section \<open>Requests\<close>

text \<open>\<open>self.__RateLimit is not None and not self.__RateLimit.limit()\<close>, negated.\<close>

definition admitted :: "'w host \<Rightarrow> ('w \<times> client, bool) act" where
  "admitted H =
     abind get_obj (\<lambda>c.
     case cl_limit c of
       None \<Rightarrow> areturn True
     | Some rl \<Rightarrow>
         abind (outer (now H)) (\<lambda>t.
         case limit t rl of (r, rl') \<Rightarrow>
           abind (put_obj (c\<lparr>cl_limit := Some rl'\<rparr>)) (\<lambda>_. alift r)))"

definition struct_of :: "'w host \<Rightarrow> string \<Rightarrow> client \<Rightarrow> ('w \<times> client, json) act" where
  "struct_of H responseType c =
     (let config = cl_config c in
      case cl_aliases c of (a1, a2, a3) \<Rightarrow>
      if responseType = ''statistics'' then
        on_field cl_statistics (\<lambda>s. cl_statistics_update (\<lambda>_. s)) (getStruct H config a3 (statistics_get H config) None)
      else if responseType = ''nodeinfo'' then
        on_field cl_nodeinfo (\<lambda>s. cl_nodeinfo_update (\<lambda>_. s)) (getStruct H config a1 (nodeinfo_get H config a1) None)
      else if responseType = ''neighbours'' then
        on_field cl_neighbours (\<lambda>s. cl_neighbours_update (\<lambda>_. s)) (getStruct H config a2 (neighbours_get H config) None)
      else areturn JNull)"

definition buildStruct :: "'w host \<Rightarrow> string \<Rightarrow> ('w \<times> client, json) act" where
  "buildStruct H responseType =
     abind (admitted H) (\<lambda>ok.
     if \<not> ok then areturn JNull else abind get_obj (struct_of H responseType))"

section \<open>Datagrams\<close>

text \<open>The address and the port of a peer.\<close>

type_synonym address = "string \<times> int"

record ('w) wire =
  bind_socket :: "string \<Rightarrow> json \<Rightarrow> ('w, unit) act"
  inet_pton :: "json \<Rightarrow> ('w, string) act"
  if_nametoindex :: "json \<Rightarrow> ('w, nat) act"
  join_group :: "string \<Rightarrow> ('w, unit) act"
  decode :: "string \<Rightarrow> string res"
  sendto :: "address \<Rightarrow> string \<Rightarrow> ('w, unit) act"
  float_repr :: "rat \<Rightarrow> string"
  deflate :: "string \<Rightarrow> string"
  site_name :: string

text \<open>\<open>joinMCAST\<close>: the group is followed by the index as four bytes, \<open>struct.pack("I", if_idx)\<close>, on a little-endian machine.\<close>

definition pack_I :: "nat \<Rightarrow> string" where
  "pack_I n = map (\<lambda>i. char_of (n div 256 ^ i)) [0..<4]"

definition joinMCAST :: "'w wire \<Rightarrow> json \<Rightarrow> json \<Rightarrow> ('w, unit) act" where
  "joinMCAST W addr ifname =
     abind (inet_pton W addr) (\<lambda>group.
     abind (if_nametoindex W ifname) (\<lambda>if_idx.
     join_group W (group @ pack_I if_idx)))"

text \<open>
  In verbose mode and in a dry run the answer is printed with its keys sorted, which raises when the
  keys of a dictionary cannot be compared.
\<close>

definition reply_text :: "'w wire \<Rightarrow> json \<Rightarrow> string" where
  "reply_text W v = json_dumps compact_format (float_repr W) v"

definition sendStruct :: "'w wire \<Rightarrow> address \<Rightarrow> json \<Rightarrow> bool \<Rightarrow> ('w \<times> client, unit) act" where
  "sendStruct W dest responseStruct withCompression =
     abind get_obj (\<lambda>c.
     abind (alift (rbind (jget (cl_config c) ''verbose'') (\<lambda>v.
       rbind (if jtruth v then Inr True else rbind (jget (cl_config c) ''dry_run'') (\<lambda>d. Inr (jtruth d))) (\<lambda>printed.
       if printed then rbind (sort_json responseStruct) (\<lambda>_. Inr ()) else Inr ())))) (\<lambda>_.
     let text = reply_text W responseStruct;
         responseData = (if withCompression then deflate W text else text) in
     abind (alift (jget (cl_config c) ''dry_run'')) (\<lambda>dry.
     if jtruth dry then areturn ()
     else outer (sendto W (str_replace ''vrf_external'' (''br-'' @ site_name W) (fst dest), 45124) responseData))))"

definition multi_step :: "'w host \<Rightarrow> string \<Rightarrow> (string, json) dict \<Rightarrow> ('w \<times> client, (string, json) dict) act" where
  "multi_step H request responses = abind (buildStruct H request) (\<lambda>v. areturn (dict_set request v responses))"

text \<open>One round of the loop: a datagram and the address it came from.\<close>

definition handle :: "'w host \<Rightarrow> 'w wire \<Rightarrow> string \<times> address \<Rightarrow> ('w \<times> client, unit) act" where
  "handle H W dgram = (case dgram of (msg, source) \<Rightarrow>
     abind (alift (decode W msg)) (\<lambda>text.
     let msgSplit = split_on CHR '' '' text in
     if hd msgSplit = ''GET'' then
       abind (afold (multi_step H) (tl msgSplit) []) (\<lambda>responses. sendStruct W source (jd responses) True)
     else abind (buildStruct H (hd msgSplit)) (\<lambda>v. sendStruct W source v False)))"

fun serve :: "'w host \<Rightarrow> 'w wire \<Rightarrow> (string \<times> address) list \<Rightarrow> ('w \<times> client, unit) act" where
  "serve H W [] = areturn ()"
| "serve H W (d # ds) = abind (handle H W d) (\<lambda>_. serve H W ds)"

text \<open>
  \<open>start\<close>: the socket is bound to the bridge, joins the multicast group on every interface of the mesh
  and on the bridge, and serves.
\<close>

definition start :: "'w host \<Rightarrow> 'w wire \<Rightarrow> (string \<times> address) list \<Rightarrow> ('w \<times> client, unit) act" where
  "start H W ds =
     abind get_obj (\<lambda>c.
     let config = cl_config c in
     abind (alift (jget config ''bridge'')) (\<lambda>bridge.
     abind (alift (case bridge of JStr s \<Rightarrow> Inr s | _ \<Rightarrow> Inl (AttributeError ''encode''))) (\<lambda>device.
     abind (alift (jget config ''port'')) (\<lambda>port.
     abind (outer (bind_socket W device port)) (\<lambda>_.
     abind (alift (jget config ''batman'')) (\<lambda>batman.
     abind (outer (meshif H batman [''if''])) (\<lambda>lines.
     abind (amap (\<lambda>line. abind (alift (jget config ''addr'')) (\<lambda>addr.
       outer (joinMCAST W addr (JStr (ifname_of line))))) lines) (\<lambda>_.
     abind (alift (jget config ''addr'')) (\<lambda>addr.
     abind (outer (joinMCAST W addr bridge)) (\<lambda>_.
     serve H W ds))))))))))"

section \<open>Start of the program\<close>

definition default_config :: json where
  "default_config = jd [(''bridge'', JStr ''br-client''), (''batman'', JStr ''bat0''), (''port'', JInt 1001),
     (''addr'', JStr ''ff05::2:1001''), (''caching'', JInt 5), (''rate_limit'', JInt 30),
     (''rate_limit_burst'', JInt 10)]"

definition read_config :: "'w host \<Rightarrow> ('w, json) act" where
  "read_config H w =
     (case load_json H ''config.json'' w of
        (Inl (OSError s), w') \<Rightarrow> (Inr default_config, w')
      | (Inl e, w') \<Rightarrow> (Inl e, w')
      | (Inr j, w') \<Rightarrow> (merge default_config j, w'))"

definition main_client :: "'w host \<Rightarrow> bool \<Rightarrow> bool \<Rightarrow> ('w, client) act" where
  "main_client H verbose dry_run =
     abind (read_config H) (\<lambda>config.
     abind (alift (rbind (jset ''verbose'' (JBool verbose) config) (jset ''dry_run'' (JBool dry_run)))) (\<lambda>config.
     client_init H config))"

text \<open>With \<open>--test\<close> the program prints the three structures and exits.\<close>

definition test_structs :: "'w host \<Rightarrow> (rat \<Rightarrow> string) \<Rightarrow> ('w, string list) act" where
  "test_structs H repr =
     abind (read_config H) (\<lambda>config.
     let struct = (\<lambda>collect. abind (load_alias H) (\<lambda>a w.
       case getStruct H config a (collect a) None (w, rd_init) of
         (r, (w', s)) \<Rightarrow> (rbind r (\<lambda>v. rbind (sort_json v) (\<lambda>v. Inr (json_dumps (indent_format 4) repr v))), w')))
     in abind (struct (nodeinfo_get H config)) (\<lambda>n.
        abind (struct (\<lambda>_. statistics_get H config)) (\<lambda>s.
        abind (struct (\<lambda>_. neighbours_get H config)) (\<lambda>b.
        areturn [n, s, b]))))"

definition respondd_parser :: arg_parser where
  "respondd_parser = argument_parser
     [opt_true [''-d'', ''--test''] ''test'', opt_true [''-v'', ''--verbose''] ''verbose'',
      opt_true [''-t'', ''--dry-run''] ''dry_run''] None"

text \<open>The program with its arguments, for the datagrams it gets to see; the result is what \<open>--test\<close> prints before it exits.\<close>

definition respondd_main :: "'w host \<Rightarrow> 'w wire \<Rightarrow> string list \<Rightarrow> (string \<times> address) list \<Rightarrow> ('w, string list option) act" where
  "respondd_main H W argv ds =
     abind (alift (parse_args respondd_parser argv)) (\<lambda>options.
     if ns_flag options ''test'' then abind (test_structs H (float_repr W)) (\<lambda>texts. areturn (Some texts))
     else
       abind (main_client H (ns_flag options ''verbose'') (ns_flag options ''dry_run'')) (\<lambda>c w.
       case start H W ds (w, c) of (r, (w', _)) \<Rightarrow> (rbind r (\<lambda>_. Inr None), w')))"

end

