(* ===== verification/Respondd_Merge.thy ===== *)
theory Respondd_Merge
  imports Respondd_Base
begin

text \<open>What \<open>helper.merge\<close> computes on nested dictionaries.\<close>

section \<open>Paths\<close>

fun jpath :: "json \<Rightarrow> json list \<Rightarrow> json option" where
  "jpath v [] = Some v"
| "jpath (JDict d) (k # ks) = (case dict_get d k of None \<Rightarrow> None | Some x \<Rightarrow> jpath x ks)"
| "jpath v (k # ks) = None"

text \<open>\<open>silent b p\<close>: the overlay \<open>b\<close> says nothing at \<open>p\<close>; it ends before, or has \<open>null\<close> on the way.\<close>

fun silent :: "json \<Rightarrow> json list \<Rightarrow> bool" where
  "silent JNull p \<longleftrightarrow> True"
| "silent (JDict e) (k # ks) \<longleftrightarrow> (case dict_get e k of None \<Rightarrow> True | Some x \<Rightarrow> silent x ks)"
| "silent v p \<longleftrightarrow> False"

text \<open>Decoded JSON has distinct keys at every level; \<open>no_lists\<close> holds of overlays without lists.\<close>

fun jwf :: "json \<Rightarrow> bool" where
  "jwf (JDict d) \<longleftrightarrow> distinct (map fst d) \<and> (\<forall>(k, v) \<in> set d. jwf v)"
| "jwf (JList xs) \<longleftrightarrow> (\<forall>x \<in> set xs. jwf x)"
| "jwf v \<longleftrightarrow> True"

fun no_lists :: "json \<Rightarrow> bool" where
  "no_lists (JDict d) \<longleftrightarrow> (\<forall>(k, v) \<in> set d. no_lists v)"
| "no_lists (JList xs) \<longleftrightarrow> False"
| "no_lists v \<longleftrightarrow> True"

fun is_scalar :: "json \<Rightarrow> bool" where
  "is_scalar JNull \<longleftrightarrow> False"
| "is_scalar (JList xs) \<longleftrightarrow> False"
| "is_scalar (JDict d) \<longleftrightarrow> False"
| "is_scalar v \<longleftrightarrow> True"

section \<open>One level\<close>

lemma merge_simps:
  "merge a JNull = Inr a"
  "is_scalar b \<Longrightarrow> merge a b = Inr b"
  "merge (JList xs) (JList ys) = Inl (NameError ''itertools'')"
  "(\<And>d. a \<noteq> JDict d) \<Longrightarrow> merge a (JDict e) = Inr (JDict e)"
proof -
  show "is_scalar b \<Longrightarrow> merge a b = Inr b" by (cases b) (auto simp: merge.simps)
  show "(\<And>d. a \<noteq> JDict d) \<Longrightarrow> merge a (JDict e) = Inr (JDict e)" by (cases a) (auto simp: merge.simps)
qed (simp_all add: merge.simps)

definition below :: "(json \<times> json) list \<Rightarrow> json \<Rightarrow> json" where
  "below d k = get_default (dict_get d k) JNull"

lemma merge_dicts:
  assumes "merge (JDict d) (JDict e) = Inr m" and "distinct (map fst e)"
  obtains f where "m = JDict f"
    and "\<And>k. dict_get e k = None \<Longrightarrow> dict_get f k = dict_get d k"
    and "\<And>k v. dict_get e k = Some v \<Longrightarrow> \<exists>x. merge (below d k) v = Inr x \<and> dict_get f k = Some x"
proof -
  obtain kvs where kvs: "rmap (\<lambda>(k, v). rbind (merge (below d k) v) (\<lambda>m. Inr (k, m))) e = Inr kvs"
    and m: "m = JDict (fold (\<lambda>(k, v) d. dict_set k v d) kvs d)"
    using assms(1) by (subst (asm) merge.simps) (auto simp: rbind_eq_Inr below_def)
  have all: "list_all2 (\<lambda>(k, v) (k', x). k' = k \<and> merge (below d k) v = Inr x) e kvs"
    using kvs unfolding rmap_Inr_iff by (rule list_all2_mono) (auto simp: rbind_eq_Inr split: prod.splits)
  then have fst: "map fst kvs = map fst e" by (induction rule: list_all2_induct) auto
  then have rev: "map_of (rev kvs) k = map_of kvs k" for k
    using assms(2) map_of_inject_set [of "rev kvs" kvs] by (simp add: rev_map [symmetric])
  from all have lookup: "(case map_of e k of None \<Rightarrow> map_of kvs k = None
      | Some v \<Rightarrow> \<exists>x. merge (below d k) v = Inr x \<and> map_of kvs k = Some x)" for k
    by (induction rule: list_all2_induct) (auto split: option.splits)
  show thesis
  proof (rule that [OF m])
    show "dict_get (fold (\<lambda>(k, v) d. dict_set k v d) kvs d) k = dict_get d k" if "dict_get e k = None" for k
      using lookup [of k] that by (simp add: pyd.get_fold rev) (simp add: dict_get_def)
    show "\<exists>x. merge (below d k) v = Inr x \<and> dict_get (fold (\<lambda>(k, v) d. dict_set k v d) kvs d) k = Some x"
      if "dict_get e k = Some v" for k v
      using lookup [of k] that by (simp add: pyd.get_fold rev) (auto simp: dict_get_def)
  qed
qed

section \<open>All levels\<close>

lemma dict_get_mem: "dict_get d k = Some v \<Longrightarrow> (k, v) \<in> set d"
  by (auto simp: dict_get_def dest: map_of_SomeD)

lemma merge_total: "no_lists b \<Longrightarrow> \<exists>m. merge a b = Inr m"
proof (induction a b rule: merge.induct)
  case (1 a b)
  show ?case
  proof (cases b)
    case (JDict e)
    show ?thesis
    proof (cases "\<exists>d. a = JDict d")
      case True
      then obtain d where a: "a = JDict d" by blast
      have "\<exists>y. (\<lambda>(k, v). rbind (merge (get_default (dict_get d k) JNull) v) (\<lambda>m. Inr (k, m))) kv = Inr y" if "kv \<in> set e" for kv
      proof -
        obtain k v where kv: "kv = (k, v)" by force
        have "no_lists v" using "1.prems" that JDict kv by auto
        from "1.IH" [OF JDict a that kv [symmetric] this] obtain m where
          "merge (get_default (dict_get d k) JNull) v = Inr m" ..
        then show ?thesis by (simp add: kv)
      qed
      then have "\<exists>kvs. rmap (\<lambda>(k, v). rbind (merge (get_default (dict_get d k) JNull) v) (\<lambda>m. Inr (k, m))) e = Inr kvs"
        by (rule rmap_Inr_ex)
      then obtain kvs where
        "rmap (\<lambda>(k, v). rbind (merge (get_default (dict_get d k) JNull) v) (\<lambda>m. Inr (k, m))) e = Inr kvs" ..
      then show ?thesis by (subst merge.simps) (simp add: JDict a)
    next
      case False
      with merge_simps(4) [of a e] JDict show ?thesis by auto
    qed
  qed (use "1.prems" in \<open>auto simp: merge.simps\<close>)
qed

lemma merge_override:
  "merge a b = Inr m \<Longrightarrow> jwf b \<Longrightarrow> jpath b p = Some x \<Longrightarrow> is_scalar x \<Longrightarrow> jpath m p = Some x"
proof (induction p arbitrary: a b m)
  case Nil
  then show ?case by (auto simp: merge_simps)
next
  case (Cons k ks)
  then obtain e v where b: "b = JDict e" and v: "dict_get e k = Some v" "jpath v ks = Some x"
    by (cases b) (auto split: option.splits)
  show ?case
  proof (cases "\<exists>d. a = JDict d")
    case True
    then obtain d where a: "a = JDict d" by blast
    have "distinct (map fst e)" using Cons.prems(2) b by simp
    with Cons.prems(1) a b obtain f where m: "m = JDict f"
      and some: "\<And>k v. dict_get e k = Some v \<Longrightarrow> \<exists>x. merge (below d k) v = Inr x \<and> dict_get f k = Some x"
      by (auto elim!: merge_dicts)
    from some [OF v(1)] obtain y where "merge (below d k) v = Inr y" "dict_get f k = Some y" by blast
    moreover have "jwf v" using Cons.prems(2) b dict_get_mem [OF v(1)] by auto
    ultimately show ?thesis using Cons.IH [of "below d k" v y] v(2) Cons.prems(4) m by simp
  next
    case False
    then show ?thesis using Cons.prems merge_simps(4) [of a e] b by auto
  qed
qed

lemma merge_keeps:
  "merge a b = Inr m \<Longrightarrow> jwf b \<Longrightarrow> silent b p \<Longrightarrow> jpath a p = Some x \<Longrightarrow> jpath m p = Some x"
proof (induction p arbitrary: a b m)
  case Nil
  then show ?case by (cases b) (auto simp: merge_simps)
next
  case (Cons k ks)
  from Cons.prems(4) obtain d u where a: "a = JDict d" and u: "dict_get d k = Some u" "jpath u ks = Some x"
    by (cases a) (auto split: option.splits)
  show ?case
  proof (cases b)
    case (JDict e)
    then have e: "distinct (map fst e)" using Cons.prems(2) by simp
    from Cons.prems(1) a JDict e obtain f where m: "m = JDict f"
      and none: "\<And>k. dict_get e k = None \<Longrightarrow> dict_get f k = dict_get d k"
      and some: "\<And>k v. dict_get e k = Some v \<Longrightarrow> \<exists>x. merge (below d k) v = Inr x \<and> dict_get f k = Some x"
      by (auto elim!: merge_dicts)
    show ?thesis
    proof (cases "dict_get e k")
      case None
      then show ?thesis using none u m by simp
    next
      case (Some v)
      from some [OF this] obtain y where y: "merge u v = Inr y" "dict_get f k = Some y"
        using u(1) by (auto simp: below_def)
      moreover have "jwf v" using Cons.prems(2) JDict dict_get_mem [OF Some] by auto
      moreover have "silent v ks" using Cons.prems(3) JDict Some by simp
      ultimately show ?thesis using Cons.IH [of u v y] u m by simp
    qed
  next
    case JNull
    then show ?thesis using Cons.prems by (simp add: merge_simps)
  qed (use Cons.prems(3) in auto)
qed

section \<open>Properties\<close>

text \<open>
  C29. Merging an overlay without lists always succeeds, at every depth: a scalar of the overlay
  replaces what was there, and whatever the overlay is silent about stays as it was.
\<close>

theorem merge_spec:
  assumes "jwf b" and "no_lists b"
  shows "\<exists>m. merge a b = Inr m \<and>
    (\<forall>p x. jpath b p = Some x \<and> is_scalar x \<longrightarrow> jpath m p = Some x) \<and>
    (\<forall>p x. silent b p \<and> jpath a p = Some x \<longrightarrow> jpath m p = Some x)"
  using merge_total [OF assms(2), of a] merge_override [OF _ assms(1)] merge_keeps [OF _ assms(1)] by blast

theorem merge_spec_witness:
  "\<exists>m. merge (jd [(''port'', JInt 1001), (''caching'', JInt 5)]) (jd [(''caching'', JInt 7)]) = Inr m \<and>
     jpath m [JStr ''caching''] = Some (JInt 7) \<and> jpath m [JStr ''port''] = Some (JInt 1001)"
proof -
  let ?a = "jd [(''port'', JInt 1001), (''caching'', JInt 5)]" and ?b = "jd [(''caching'', JInt 7)]"
  have "jwf ?b" "no_lists ?b" by (simp_all add: jd_def)
  from merge_spec [OF this, of ?a] obtain m where m: "merge ?a ?b = Inr m"
    and over: "\<forall>p x. jpath ?b p = Some x \<and> is_scalar x \<longrightarrow> jpath m p = Some x"
    and keep: "\<forall>p x. silent ?b p \<and> jpath ?a p = Some x \<longrightarrow> jpath m p = Some x" by (elim exE conjE)
  have "jpath m [JStr ''caching''] = Some (JInt 7)"
    by (rule over [rule_format]) (simp add: jd_def dict_get_def)
  moreover have "jpath m [JStr ''port''] = Some (JInt 1001)"
    by (rule keep [rule_format]) (simp add: jd_def dict_get_def)
  ultimately show ?thesis using m by blast
qed

text \<open>Two lists cannot be merged: the function uses a module that is not imported.\<close>

lemma merge_lists_raises:
  "merge (jd [(k, JList xs)]) (jd [(k, JList ys)]) = Inl (NameError ''itertools'')"
  by (subst merge.simps) (simp add: jd_def dict_get_def merge_simps(3))

end
