(* ===== verification/Respondd_Props.thy ===== *)
theory Respondd_Props
  imports Respondd_Client Respondd_Merge
begin

text \<open>
  The contract of the subclasses of the responder, the cache they inherit, and the replies of the
  server.
\<close>

section \<open>The contract of a subclass\<close>

text \<open>An alias file whose \<open>nodeinfo\<close> is missing, \<open>null\<close> or a dictionary.\<close>

definition alias_ok :: "json \<Rightarrow> bool" where
  "alias_ok aliases \<longleftrightarrow> (case jget aliases ''nodeinfo'' of Inr n \<Rightarrow> n = JNull \<or> is_dict n | Inl e \<Rightarrow> True)"

definition rooted :: "string option \<Rightarrow> json \<Rightarrow> json" where
  "rooted r v = (case r of None \<Rightarrow> v | Some n \<Rightarrow> JDict [(JStr n, v)])"

lemma cache_valid_at:
  assumes "now H w = (Inr t, w')" and "jget config ''caching'' = Inr (JInt c)"
  shows "cache_valid H config (w, s) = (Inr (fl (t - rd_time s) \<le> of_int c), (w', s))"
proof -
  obtain d where "config = JDict d" "dict_get d (JStr ''caching'') = Some (JInt c)"
    using assms(2) by (auto simp: jget_Inr)
  then show ?thesis
    by (simp add: cache_valid_def jin_Inr dict_has_def abind_def outer_eq assms(1) get_obj_def alift_def)
qed

locale respondd_class =
  fixes get :: "'w host \<Rightarrow> json \<Rightarrow> json \<Rightarrow> ('w, json) act"
  assumes dict_result: "alias_ok aliases \<Longrightarrow> yields is_dict (get H config aliases)"
begin

lemma fresh:
  assumes "alias_ok aliases" and "get H config aliases w = (Inr v, w1)" and "now H w1 = (Inr t, w2)"
    and "getNodeID H config aliases w2 = (Inr nid, w3)"
  shows "\<exists>v'. jset ''node_id'' nid v = Inr v' \<and>
    fresh_struct H config aliases (get H config aliases) (w, s) = (Inr v', (w3, \<lparr>rd_value = v', rd_time = t\<rparr>))"
proof -
  from yieldsD [OF dict_result [OF assms(1)] assms(2)] obtain d where "v = JDict d" by (auto simp: is_dict_def)
  then show ?thesis
    by (simp add: fresh_struct_def jset_Inr abind_def outer_eq assms(2-4) get_obj_def put_obj_def alift_def areturn_def jset_def)
qed

lemma answer_then_cached:
  assumes "alias_ok aliases" and "cache_valid H config (w0, s) = (Inr False, (w, s))"
    and "get H config aliases w = (Inr v, w1)" and "now H w1 = (Inr t, w2)"
    and "getNodeID H config aliases w2 = (Inr nid, w3)"
    and "now H w3 = (Inr t', w4)" and "jget config ''caching'' = Inr (JInt c)" and "fl (t' - t) \<le> of_int c"
  shows "\<exists>v' s'. jset ''node_id'' nid v = Inr v' \<and>
    getStruct H config aliases (get H config aliases) rn (w0, s) = (Inr (rooted rn v'), (w3, s')) \<and>
    getStruct H config aliases get' rn2 (w3, s') = (Inr (rooted rn2 v'), (w4, s'))"
proof -
  from fresh [OF assms(1,3-5), of s] obtain v' where v': "jset ''node_id'' nid v = Inr v'"
    and f: "fresh_struct H config aliases (get H config aliases) (w, s) = (Inr v', (w3, \<lparr>rd_value = v', rd_time = t\<rparr>))"
    by blast
  have "getStruct H config aliases (get H config aliases) rn (w0, s) = (Inr (rooted rn v'), (w3, \<lparr>rd_value = v', rd_time = t\<rparr>))"
    by (simp add: getStruct_def abind_def [where m = "cache_valid H config"] assms(2) abind_def f areturn_def rooted_def)
  moreover have "getStruct H config aliases get' rn2 (w3, \<lparr>rd_value = v', rd_time = t\<rparr>) =
      (Inr (rooted rn2 v'), (w4, \<lparr>rd_value = v', rd_time = t\<rparr>))"
    using cache_valid_at [OF assms(6,7)] assms(8)
    by (simp add: getStruct_def abind_def get_obj_def areturn_def rooted_def split: option.split)
  ultimately show ?thesis using v' by blast
qed

end

section \<open>The subclasses keep it\<close>

lemma is_dict_simps [simp]: "is_dict (JDict d)" "is_dict (jd kvs)" "\<not> is_dict JNull"
  by (simp_all add: is_dict_def jd_def)

lemma merge_is_dict:
  assumes "merge a b = Inr v" and "is_dict a" and "b = JNull \<or> is_dict b"
  shows "is_dict v"
proof -
  obtain d where "a = JDict d" using assms(2) by (auto simp: is_dict_def)
  with assms show ?thesis
    by (subst (asm) merge.simps) (auto simp: is_dict_def rbind_eq_Inr)
qed

lemma nodeinfo_dict: "alias_ok aliases \<Longrightarrow> yields is_dict (nodeinfo_get H config aliases)"
  unfolding nodeinfo_get_def Let_def
  by (intro yields_abind yields_alift)
    (auto simp: rbind_eq_Inr alias_ok_def split: if_splits dest: merge_is_dict)

lemma getGateway_dict: "yields (\<lambda>g. g = None \<or> (\<exists>j. g = Some j \<and> is_dict j)) (getGateway H config)"
proof -
  have "fold gateway_line lines g = None \<or> (\<exists>j. fold gateway_line lines g = Some j \<and> is_dict j)"
    if "g = None \<or> (\<exists>j. g = Some j \<and> is_dict j)" for lines g
    using that by (induction lines arbitrary: g) (auto simp: gateway_line_def split: option.splits)
  then show ?thesis unfolding getGateway_def by (intro yields_abind yields_areturn) simp
qed

lemma statistics_dict: "yields is_dict (statistics_get H config)"
  unfolding statistics_get_def Let_def
  by (rule yields_abind_with [OF getGateway_dict] | rule yields_abind | rule yields_alift)+
    (auto elim!: merge_is_dict)

lemma originator_dict:
  "originator_line config dump mesh line ret = Inr ret' \<Longrightarrow> is_dict ret \<Longrightarrow> is_dict ret'"
  by (auto simp: originator_line_def wifi_neighbour_def batadv_neighbour_def ensure_mac_def put_neighbour_def
      rbind_eq_Inr jchange_Inr is_dict_def split: option.splits if_splits prod.splits)

lemma neighbours_dict: "yields is_dict (neighbours_get H config)"
  unfolding neighbours_get_def
  by (intro yields_abind yields_alift) (auto elim!: rfold_invariant dest: originator_dict)

interpretation nodeinfo: respondd_class nodeinfo_get
  by unfold_locales (rule nodeinfo_dict)

interpretation statistics: respondd_class "\<lambda>H config aliases. statistics_get H config"
  by unfold_locales (rule statistics_dict)

interpretation neighbours: respondd_class "\<lambda>H config aliases. neighbours_get H config"
  by unfold_locales (rule neighbours_dict)

section \<open>The answers\<close>

text \<open>
  C30. An answer identifies the node and is then served from the cache: for each of the three classes,
  when the cache is not valid and the reads of the host succeed, the answer is the dictionary of the
  class with \<open>node_id\<close> stored in it, under the requested root name; and a request within the caching
  time after it gets the same answer without collecting anything, from whatever the class would then
  have collected.
\<close>

theorem answer_cached:
  assumes "collect = nodeinfo_get H config aliases \<or> collect = statistics_get H config \<or>
      collect = neighbours_get H config"
    and "alias_ok aliases" and "cache_valid H config (w0, s) = (Inr False, (w, s))"
    and "collect w = (Inr v, w1)" and "now H w1 = (Inr t, w2)"
    and "getNodeID H config aliases w2 = (Inr nid, w3)"
    and "now H w3 = (Inr t', w4)" and "jget config ''caching'' = Inr (JInt c)" and "fl (t' - t) \<le> of_int c"
  shows "\<exists>v' s'. jset ''node_id'' nid v = Inr v' \<and> jget v' ''node_id'' = Inr nid \<and>
    getStruct H config aliases collect rn (w0, s) = (Inr (rooted rn v'), (w3, s')) \<and>
    getStruct H config aliases later rn2 (w3, s') = (Inr (rooted rn2 v'), (w4, s'))"
proof -
  have "\<exists>v' s'. jset ''node_id'' nid v = Inr v' \<and>
    getStruct H config aliases collect rn (w0, s) = (Inr (rooted rn v'), (w3, s')) \<and>
    getStruct H config aliases later rn2 (w3, s') = (Inr (rooted rn2 v'), (w4, s'))"
    using assms(1)
  proof (elim disjE)
    assume "collect = nodeinfo_get H config aliases"
    with assms(2-) show ?thesis using nodeinfo.answer_then_cached [of aliases H config w0 s w v] by simp
  next
    assume "collect = statistics_get H config"
    with assms(2-) show ?thesis using statistics.answer_then_cached [of aliases H config w0 s w v] by simp
  next
    assume "collect = neighbours_get H config"
    with assms(2-) show ?thesis using neighbours.answer_then_cached [of aliases H config w0 s w v] by simp
  qed
  moreover have "jget v' ''node_id'' = Inr nid" if "jset ''node_id'' nid v = Inr v'" for v'
    using jget_jset [OF that, of "''node_id''"] by simp
  ultimately show ?thesis by blast
qed

definition still_host :: "rat host" where
  "still_host = \<lparr>check_output = \<lambda>_. areturn [], ifaddresses = \<lambda>_. areturn [], read_file = \<lambda>_. areturn [],
     now = \<lambda>t. (Inr t, t + 1), gethostname = areturn [],
     statvfs = areturn (1, 2), fastd_connect = \<lambda>_. areturn (), fastd_recv = areturn []\<rparr>"

theorem answer_cached_witness:
  "\<exists>v' s'. jset ''node_id'' (JStr ''ab'') (jd [(''batadv'', JDict [])]) = Inr v' \<and>
    getStruct still_host (jd [(''batman'', JStr ''bat0''), (''caching'', JInt 5)])
      (jd [(''nodeinfo'', jd [(''node_id'', JStr ''ab'')])])
      (neighbours_get still_host (jd [(''batman'', JStr ''bat0''), (''caching'', JInt 5)])) None (100, rd_init) =
      (Inr v', (102, s')) \<and>
    getStruct still_host (jd [(''batman'', JStr ''bat0''), (''caching'', JInt 5)])
      (jd [(''nodeinfo'', jd [(''node_id'', JStr ''ab'')])]) (araise IndexError) None (102, s') = (Inr v', (103, s'))"
proof -
  let ?c = "jd [(''batman'', JStr ''bat0''), (''caching'', JInt 5)]"
  let ?a = "jd [(''nodeinfo'', jd [(''node_id'', JStr ''ab'')])]"
  have fl: "fl 1 = 1" "fl 100 = 100" using fl_of_int [of 100] by simp_all
  have n: "neighbours_get still_host ?c 101 = (Inr (jd [(''batadv'', JDict [])]), 101)" by code_simp
  have "\<exists>v' s'. jset ''node_id'' (JStr ''ab'') (jd [(''batadv'', JDict [])]) = Inr v' \<and>
      jget v' ''node_id'' = Inr (JStr ''ab'') \<and>
      getStruct still_host ?c ?a (neighbours_get still_host ?c) None (100, rd_init) = (Inr (rooted None v'), (102, s')) \<and>
      getStruct still_host ?c ?a (araise IndexError) None (102, s') = (Inr (rooted None v'), (103, s'))"
  proof (rule answer_cached)
    show "alias_ok ?a" by (simp add: alias_ok_def jd_def dict_get_def)
    show "cache_valid still_host ?c (100, rd_init) = (Inr False, (101, rd_init))"
      using cache_valid_at [of still_host 100 100 101 ?c 5 rd_init] fl
      by (simp add: still_host_def rd_init_def jd_def dict_get_def)
    show "now still_host 101 = (Inr 101, 102)" by (simp add: still_host_def)
    show "getNodeID still_host ?c ?a 102 = (Inr (JStr ''ab''), 102)" by code_simp
    show "now still_host 102 = (Inr 102, 103)" by (simp add: still_host_def)
    show "jget ?c ''caching'' = Inr (JInt 5)" by code_simp
  qed (use n fl in simp_all)
  then show ?thesis unfolding rooted_def option.case by blast
qed

end
