(* ===== verification/Respondd_Server.thy ===== *)
theory Respondd_Server
  imports Respondd_Props PyJsonText_Props
begin

text \<open>
  What the server sends. The collection of an answer only reads: it keeps every part of the world that
  the reads of the host keep, such as the log of what was sent. On top of it, every handled datagram
  gets exactly one reply, to port 45124 of its sender, with the answer of the state that the datagrams
  before it left.
\<close>

section \<open>Collecting an answer only reads\<close>

definition quiet :: "('w \<Rightarrow> 'v) \<Rightarrow> 'w host \<Rightarrow> bool" where
  "quiet I H \<longleftrightarrow> (\<forall>a. keeps I (check_output H a)) \<and> (\<forall>j. keeps I (ifaddresses H j)) \<and>
     (\<forall>p. keeps I (read_file H p)) \<and> keeps I (now H) \<and>
     keeps I (gethostname H) \<and> keeps I (statvfs H) \<and> (\<forall>j. keeps I (fastd_connect H j)) \<and> keeps I (fastd_recv H)"

lemma quiet_host [keeps_rules]:
  assumes "quiet I H"
  shows "keeps I (check_output H a)" "keeps I (ifaddresses H j)" "keeps I (read_file H p)"
    "keeps I (now H)" "keeps I (gethostname H)" "keeps I (statvfs H)"
    "keeps I (fastd_connect H j)" "keeps I (fastd_recv H)"
  using assms by (simp_all add: quiet_def)

lemma keepsD: "keeps I m \<Longrightarrow> m w = (r, w') \<Longrightarrow> I w' = I w"
  by (metis keeps_def snd_conv)

lemma quiet_helpers [keeps_rules]:
  assumes "quiet I H"
  shows "keeps I (call H cmd)" "keeps I (getInterfaceMAC H j)" "keeps I (meshif H batman args)"
    "keeps I (getNodeID H config aliases)"
  unfolding call_def getInterfaceMAC_def meshif_def getNodeID_def by (intro keeps_rules assms; fail)+

lemma quiet_addresses [keeps_rules]:
  assumes "quiet I H" shows "keeps I (getInterfaceAddresses H ifname)"
  using quiet_host(2) [OF assms, THEN keepsD]
  by (simp add: keeps_def getInterfaceAddresses_def split: prod.split sum.split option.split)

lemma quiet_nodeinfo [keeps_rules]:
  assumes "quiet I H" shows "keeps I (nodeinfo_get H config aliases)"
  unfolding nodeinfo_get_def getBatmanInterfaces_def add_mesh_interface_def first_line_def getCPUInfo_def
    getVPNFlag_def Let_def
  by (intro keeps_rules assms)

lemma quiet_fastd [keeps_rules]:
  assumes "quiet I H" shows "keeps I (getFastd H config)"
proof -
  let ?read = "abind (fastd_recv H) (\<lambda>chunks. alift (decoded (json_loads_bytes (recv_all [] chunks))))"
  have "keeps I ?read" by (intro keeps_rules assms)
  then have "I (snd (?read w)) = I w" for w by (simp add: keeps_def)
  then have "keeps I (\<lambda>w. case fastd_connect H path w of
       (Inl (OSError s), w') \<Rightarrow> (Inr JNull, w') | (Inl e, w') \<Rightarrow> (Inl e, w') | (Inr _, w') \<Rightarrow> ?read w')" for path
    using quiet_host(7) [OF assms, of path, THEN keepsD]
    by (simp add: keeps_def split: prod.split sum.split py_exc.split)
  then show ?thesis unfolding getFastd_def by (intro keeps_rules)
qed

lemma quiet_statistics [keeps_rules]:
  assumes "quiet I H" shows "keeps I (statistics_get H config)"
  unfolding statistics_get_def getClients_def getTraffic_def getMemory_def getMeshVPNPeers_def getGateway_def
    getRootFS_def float_field_def field_of_def Let_def
  by (intro keeps_rules assms)

lemma quiet_neighbours [keeps_rules]:
  assumes "quiet I H" shows "keeps I (neighbours_get H config)"
  unfolding neighbours_get_def getStationDump_def station_interface_def getMeshInterfaces_def mesh_interface_def
  by (intro keeps_rules assms)

lemma quiet_getStruct [keeps_rules]:
  assumes "quiet I H" and "keeps I get"
  shows "keeps (\<lambda>ws. I (fst ws)) (getStruct H config aliases get rn)"
  unfolding getStruct_def cache_valid_def fresh_struct_def by (intro keeps_rules assms)

lemma keeps_on_field [keeps_rules]:
  "keeps (\<lambda>ws. I (fst ws)) m \<Longrightarrow> keeps (\<lambda>ws. I (fst ws)) (on_field get put m)"
  by (simp add: keeps_def on_field_def split: prod.split) (metis fst_conv snd_conv)

lemma quiet_buildStruct:
  assumes "quiet I H" shows "keeps (\<lambda>ws. I (fst ws)) (buildStruct H r)"
  unfolding buildStruct_def admitted_def struct_of_def Let_def by (intro keeps_rules assms)

section \<open>The configuration does not change\<close>

lemma keeps_snd:
  "keeps (\<lambda>ws. J (snd ws)) (outer m)" "keeps J' get_obj"
  by (simp_all add: keeps_def outer_def get_obj_def split: prod.split)

lemma admitted_config: "keeps (\<lambda>ws. cl_config (snd ws)) (admitted H)"
  by (simp add: keeps_def admitted_def abind_def get_obj_def put_obj_def outer_def act_defs
      split: prod.split sum.split option.split)

lemma buildStruct_config: "keeps (\<lambda>ws. cl_config (snd ws)) (buildStruct H r)"
proof -
  have on: "keeps (\<lambda>ws. cl_config (snd ws)) (on_field get put m)"
    if "\<And>s c. cl_config (put s c) = cl_config c" for get put m
    using that by (simp add: keeps_def on_field_def split: prod.split)
  have "keeps (\<lambda>ws. cl_config (snd ws)) (struct_of H r c)" for c
    unfolding struct_of_def Let_def by (intro keeps_rules on) simp_all
  then show ?thesis unfolding buildStruct_def by (intro keeps_rules keeps_snd admitted_config)
qed

section \<open>One reply for every datagram\<close>

text \<open>The log of a socket, and what a reply to a datagram is.\<close>

definition logs :: "('w \<Rightarrow> (address \<times> string) list) \<Rightarrow> 'w wire \<Rightarrow> bool" where
  "logs I W \<longleftrightarrow> (\<forall>a x w r w'. sendto W a x w = (r, w') \<longrightarrow> I w' = (case r of Inr _ \<Rightarrow> I w @ [(a, x)] | Inl _ \<Rightarrow> I w))"

text \<open>The answers to requests, one after the other, from the state \<open>s\<close> of the world and the client on.\<close>

fun answers :: "'w host \<Rightarrow> string list \<Rightarrow> 'w \<times> client \<Rightarrow> json list \<Rightarrow> 'w \<times> client \<Rightarrow> bool" where
  "answers H [] s vs s' \<longleftrightarrow> vs = [] \<and> s' = s"
| "answers H (q # qs) s vs s' \<longleftrightarrow>
     (case buildStruct H q s of
        (Inl e, s1) \<Rightarrow> False
      | (Inr v, s1) \<Rightarrow> vs \<noteq> [] \<and> hd vs = v \<and> answers H qs s1 (tl vs) s')"

text \<open>
  The body of the reply to the words of a datagram, when \<open>vs\<close> are the answers. A dictionary has for
  each name the answer to its last mention.
\<close>

definition reply_body :: "'w wire \<Rightarrow> string list \<Rightarrow> json list \<Rightarrow> string \<Rightarrow> bool" where
  "reply_body W ws vs x \<longleftrightarrow>
     (if hd ws = ''GET'' then
        \<exists>rs. wf_dict rs \<and> set (dict_keys rs) = set (tl ws) \<and>
          (\<forall>k. dict_get rs k = map_of (rev (zip (tl ws) vs)) k) \<and>
          x = deflate W (reply_text W (jd rs)) \<and>
          (floats_read (float_repr W) (jd rs) \<longrightarrow>
            json_loads (reply_text W (jd rs)) = Some (jd (map (\<lambda>(k, v). (k, json_norm (float_repr W) v)) rs)))
      else
        \<exists>v. vs = [v] \<and> x = reply_text W v \<and>
          (floats_read (float_repr W) v \<longrightarrow> json_loads x = Some (json_norm (float_repr W) v)))"

definition requests_of :: "string list \<Rightarrow> string list" where
  "requests_of ws = (if hd ws = ''GET'' then tl ws else [hd ws])"

text \<open>The reply to a datagram that comes in the state \<open>s\<close>, and the state after it is sent.\<close>

definition replies_to :: "'w host \<Rightarrow> 'w wire \<Rightarrow> string \<times> address \<Rightarrow> 'w \<times> client \<Rightarrow> address \<times> string \<Rightarrow> 'w \<times> client \<Rightarrow> bool" where
  "replies_to H W d s x s' \<longleftrightarrow>
     fst x = (str_replace ''vrf_external'' (''br-'' @ site_name W) (fst (snd d)), 45124) \<and>
     (\<exists>text vs w1. decode W (fst d) = Inr text \<and>
       answers H (requests_of (split_on CHR '' '' text)) s vs (w1, snd s') \<and>
       reply_body W (split_on CHR '' '' text) vs (snd x) \<and>
       sendto W (fst x) (snd x) w1 = (Inr (), fst s'))"

fun replies :: "'w host \<Rightarrow> 'w wire \<Rightarrow> (string \<times> address) list \<Rightarrow> 'w \<times> client \<Rightarrow> (address \<times> string) list \<Rightarrow> 'w \<times> client \<Rightarrow> bool" where
  "replies H W [] s xs s' \<longleftrightarrow> xs = [] \<and> s' = s"
| "replies H W (d # ds) s xs s' \<longleftrightarrow>
     (\<exists>x xs1 s1. xs = x # xs1 \<and> replies_to H W d s x s1 \<and> replies H W ds s1 xs1 s')"

text \<open>What is read back of a reply.\<close>

lemma reply_reads:
  "floats_read (float_repr W) v \<Longrightarrow> json_loads (reply_text W v) = Some (json_norm (float_repr W) v)"
  by (simp add: reply_text_def json_loads_dumps)

lemma norm_jd:
  assumes "wf_dict rs"
  shows "json_norm repr (jd rs) = jd (map (\<lambda>(k, v). (k, json_norm repr v)) rs)"
proof -
  have "map (\<lambda>(k, v). (key_name repr k, json_norm repr v)) (map (\<lambda>(k, v). (JStr k, v)) rs) =
      map (\<lambda>(k, v). (k, json_norm repr v)) rs" by auto
  moreover have "distinct (map fst (map (\<lambda>(k, v). (k, json_norm repr v)) rs))"
    using assms by (simp add: wf_dict_def dict_keys_def comp_def case_prod_beta)
  ultimately show ?thesis unfolding jd_def json_norm.simps by (simp only: object_of_distinct)
qed

lemma reply_bodyI:
  assumes "if hd ws = ''GET'' then \<exists>rs. v = jd rs \<and> wf_dict rs \<and> set (dict_keys rs) = set (tl ws) \<and>
        (\<forall>k. dict_get rs k = map_of (rev (zip (tl ws) vs)) k)
      else vs = [v]"
  shows "reply_body W ws vs (if hd ws = ''GET'' then deflate W (reply_text W v) else reply_text W v)"
proof (cases "hd ws = ''GET''")
  case True
  with assms obtain rs where rs: "v = jd rs" "wf_dict rs" "set (dict_keys rs) = set (tl ws)"
    "\<forall>k. dict_get rs k = map_of (rev (zip (tl ws) vs)) k" by auto
  moreover from this have "floats_read (float_repr W) (jd rs) \<longrightarrow>
      json_loads (reply_text W (jd rs)) = Some (jd (map (\<lambda>(k, v). (k, json_norm (float_repr W) v)) rs))"
    using reply_reads [of W "jd rs"] unfolding norm_jd [OF rs(2)] by blast
  ultimately show ?thesis
    unfolding reply_body_def if_P [OF True] by (intro exI [of _ rs] conjI) simp_all
next
  case False
  with assms reply_reads [of W v] show ?thesis by (auto simp: reply_body_def)
qed

definition sends :: "client \<Rightarrow> bool" where
  "sends c \<longleftrightarrow> (\<exists>dry. jget (cl_config c) ''dry_run'' = Inr dry \<and> \<not> jtruth dry)"

lemma logsD: "logs I W \<Longrightarrow> sendto W a x w = (r, w') \<Longrightarrow> I w' = (case r of Inr _ \<Rightarrow> I w @ [(a, x)] | Inl _ \<Rightarrow> I w)"
  unfolding logs_def by blast

lemma sendStruct_logs:
  assumes "logs I W" and "sends c" and "sendStruct W dest v z (w, c) = (r, (w', c'))"
    and a: "a = (str_replace ''vrf_external'' (''br-'' @ site_name W) (fst dest), 45124)"
    and x: "x = (if z then deflate W (reply_text W v) else reply_text W v)"
  shows "c' = c \<and> (case r of Inl _ \<Rightarrow> I w' = I w | Inr _ \<Rightarrow> sendto W a x w = (Inr (), w') \<and> I w' = I w @ [(a, x)])"
  using assms(1-3) unfolding a x
  by (auto simp: sendStruct_def sends_def abind_def get_obj_def alift_def outer_def Let_def areturn_def
      dest: logsD split: prod.splits sum.splits if_splits)

lemma multi_answers:
  assumes "afold (multi_step H) reqs rs s = (Inr rs', s')" and "wf_dict rs"
  shows "\<exists>vs. answers H reqs s vs s' \<and> wf_dict rs' \<and> set (dict_keys rs') = set (dict_keys rs) \<union> set reqs \<and>
    (\<forall>k. dict_get rs' k = (case map_of (rev (zip reqs vs)) k of Some v \<Rightarrow> Some v | None \<Rightarrow> dict_get rs k))"
  using assms
proof (induction reqs arbitrary: rs s)
  case Nil
  then show ?case by (auto simp: areturn_def)
next
  case (Cons q reqs)
  then obtain v s1 where v: "buildStruct H q s = (Inr v, s1)"
    and more: "afold (multi_step H) reqs (dict_set q v rs) s1 = (Inr rs', s')"
    unfolding multi_step_def afold.simps by (auto elim!: abind_InrE)
  from Cons.IH [OF more] Cons.prems(2) obtain vs where vs: "answers H reqs s1 vs s'" "wf_dict rs'"
    "set (dict_keys rs') = set (dict_keys (dict_set q v rs)) \<union> set reqs"
    "\<forall>k. dict_get rs' k = (case map_of (rev (zip reqs vs)) k of Some u \<Rightarrow> Some u | None \<Rightarrow> dict_get (dict_set q v rs) k)"
    by auto
  have "answers H (q # reqs) s (v # vs) s'" using v vs(1) by simp
  moreover have "set (dict_keys rs') = set (dict_keys rs) \<union> set (q # reqs)"
    unfolding vs(3) by (auto simp: dict_keys_set split: if_splits)
  moreover have "dict_get rs' k = (case map_of (rev (zip (q # reqs) (v # vs))) k of Some u \<Rightarrow> Some u | None \<Rightarrow> dict_get rs k)" for k
    using spec [OF vs(4), of k] by (auto simp: map_of_append map_add_def dict_get_set split: option.split)
  ultimately show ?case using vs(2) by blast
qed

lemma multi_answers_all:
  assumes "afold (multi_step H) reqs [] s = (Inr rs, s')"
  shows "\<exists>vs. answers H reqs s vs s' \<and> wf_dict rs \<and> set (dict_keys rs) = set reqs \<and>
    (\<forall>k. dict_get rs k = map_of (rev (zip reqs vs)) k)"
proof -
  have none: "(case x of Some v \<Rightarrow> Some v | None \<Rightarrow> dict_get [] k) = x" for x :: "json option" and k :: string
    by (cases x) (simp_all add: dict_get_def)
  show ?thesis using multi_answers [OF assms] by (simp add: none dict_keys_def wf_dict_def)
qed

text \<open>What the collection of the answers keeps: the log and the configuration.\<close>

lemma collected:
  assumes "quiet I H" and "m = buildStruct H r"
    and "m (w, c) = (x, (w', c'))"
  shows "I w' = I w \<and> cl_config c' = cl_config c"
  using keepsD [OF quiet_buildStruct [OF assms(1)]] keepsD [OF buildStruct_config] assms(2,3) by fastforce

lemma collected_multi:
  assumes "quiet I H" and "afold (multi_step H) reqs rs (w, c) = (x, (w', c'))"
  shows "I w' = I w \<and> cl_config c' = cl_config c"
proof -
  have "keeps (\<lambda>ws. I (fst ws)) (afold (multi_step H) reqs rs)"
    unfolding multi_step_def by (intro keeps_rules quiet_buildStruct assms(1))
  moreover have "keeps (\<lambda>ws. cl_config (snd ws)) (afold (multi_step H) reqs rs)"
    unfolding multi_step_def by (intro keeps_rules buildStruct_config)
  ultimately show ?thesis using assms(2) by (fastforce dest: keepsD)
qed

lemma handle_replies:
  assumes "quiet I H" and "logs I W" and "sends c" and run: "handle H W d (w, c) = (r, (w', c'))"
  shows "sends c' \<and> (case r of Inl _ \<Rightarrow> I w' = I w
    | Inr _ \<Rightarrow> \<exists>x. replies_to H W d (w, c) x (w', c') \<and> I w' = I w @ [x])"
proof -
  obtain msg source where d: "d = (msg, source)" by (cases d)
  show ?thesis
  proof (cases "decode W msg")
    case (Inl e)
    then show ?thesis using run assms(3) d by (simp add: handle_def araise_def) auto
  next
    case (Inr body)
    let ?s = "split_on CHR '' '' body"
    define collect where "collect = (if hd ?s = ''GET'' then abind (afold (multi_step H) (tl ?s) []) (\<lambda>rs. areturn (jd rs))
      else buildStruct H (hd ?s))"
    obtain x w1 c1 where col: "collect (w, c) = (x, (w1, c1))" by (metis prod.collapse)
    have kept: "I w1 = I w" "cl_config c1 = cl_config c"
      using col collected [OF assms(1)] collected_multi [OF assms(1)]
      by (auto simp: collect_def abind_def areturn_def split: if_splits prod.splits sum.splits)
    then have s1: "sends c1" using assms(3) by (simp add: sends_def)
    have rest: "handle H W d (w, c) = (case x of Inl e \<Rightarrow> (Inl e, (w1, c1))
        | Inr v \<Rightarrow> sendStruct W source v (hd ?s = ''GET'') (w1, c1))"
      using col by (auto simp: handle_def d Inr Let_def collect_def abind_def areturn_def split: if_splits prod.splits sum.splits)
    have val: "\<exists>vs. answers H (requests_of ?s) (w, c) vs (w1, c1) \<and>
        (if hd ?s = ''GET'' then \<exists>rs. v = jd rs \<and> wf_dict rs \<and> set (dict_keys rs) = set (tl ?s) \<and>
          (\<forall>k. dict_get rs k = map_of (rev (zip (tl ?s) vs)) k) else vs = [v])"
      if xv: "x = Inr v" for v
    proof (cases "hd ?s = ''GET''")
      case True
      then obtain rs where rs: "afold (multi_step H) (tl ?s) [] (w, c) = (Inr rs, (w1, c1))" "v = jd rs"
        using col xv by (auto simp: collect_def elim!: abind_InrE)
      from multi_answers_all [OF rs(1)] obtain vs where "answers H (tl ?s) (w, c) vs (w1, c1)" "wf_dict rs"
        "set (dict_keys rs) = set (tl ?s)" "\<forall>k. dict_get rs k = map_of (rev (zip (tl ?s) vs)) k"
        by blast
      then show ?thesis unfolding requests_of_def if_P [OF True] using rs(2) by blast
    next
      case False
      then show ?thesis using col xv by (auto simp: collect_def requests_of_def)
    qed
    show ?thesis
    proof (cases x)
      case (Inl e)
      then show ?thesis using rest run s1 kept by simp
    next
      case x: (Inr v)
      then obtain vs where vs: "answers H (requests_of ?s) (w, c) vs (w1, c1)"
        and v: "if hd ?s = ''GET'' then \<exists>rs. v = jd rs \<and> wf_dict rs \<and> set (dict_keys rs) = set (tl ?s) \<and>
          (\<forall>k. dict_get rs k = map_of (rev (zip (tl ?s) vs)) k) else vs = [v]"
        using val by blast
      have send: "sendStruct W source v (hd ?s = ''GET'') (w1, c1) = (r, (w', c'))" using rest run x by simp
      note sent = sendStruct_logs [OF assms(2) s1 send refl refl]
      show ?thesis
      proof (cases r)
        case (Inl e)
        then show ?thesis using sent s1 kept by simp
      next
        case (Inr u)
        let ?a = "(str_replace ''vrf_external'' (''br-'' @ site_name W) (fst source), 45124)"
        let ?x = "if hd ?s = ''GET'' then deflate W (reply_text W v) else reply_text W v"
        have "replies_to H W d (w, c) (?a, ?x) (w', c')"
          unfolding replies_to_def d fst_conv snd_conv
        proof (intro conjI refl exI)
          show "decode W msg = Inr body" by (rule \<open>decode W msg = Inr body\<close>)
          show "answers H (requests_of ?s) (w, c) vs (w1, c')" using vs sent by simp
          show "reply_body W ?s vs ?x" by (rule reply_bodyI [OF v])
          show "sendto W ?a ?x w1 = (Inr (), w')" using sent Inr by simp
        qed
        then show ?thesis using sent s1 kept Inr by auto
      qed
    qed
  qed
qed

text \<open>The service runs without arguments (\<open>respondd@.service\<close>).\<close>

lemma respondd_service:
  "respondd_main H W [] ds =
     abind (main_client H False False) (\<lambda>c w. case start H W ds (w, c) of (r, (w', _)) \<Rightarrow> (rbind r (\<lambda>_. Inr None), w'))"
proof -
  have "parse_args respondd_parser [] = Inr [(''test'', AFlag False), (''verbose'', AFlag False), (''dry_run'', AFlag False)]"
    by code_simp
  then show ?thesis by (simp add: respondd_main_def ns_flag_def dict_get_def)
qed

text \<open>
  C31. The server answers every datagram once, in order, and sends nothing else: when it is not a dry
  run, the host's reads do not send and the socket logs what is sent successfully, then after any
  sequence of datagrams the log has grown by one reply for each datagram handled, in their order. A
  reply goes to the address the datagram came from, with the VRF interface replaced by the bridge of
  the site, and to port 45124 whatever port it came from. A single request gets the compact JSON text
  of what \<open>buildStruct\<close> answers in the state of the client and the world that the datagrams before it
  left; a \<open>GET\<close> request the compressed text of a dictionary with exactly the requested names as its
  keys, each with the answer to its last mention, the answers being collected one after the other
  from that state. Where the text of a float reads back, decoding the text gives the answer (with the
  keys as strings). The server only stops before the end of the sequence by the exception that the
  next datagram raises.
\<close>

theorem serve_replies:
  assumes "quiet I H" and "logs I W" and "sends c" and "serve H W ds (w, c) = (r, (w', c'))"
  shows "\<exists>n xs s. n \<le> length ds \<and> replies H W (take n ds) (w, c) xs s \<and> I w' = I w @ xs \<and>
    (case r of
       Inr _ \<Rightarrow> n = length ds \<and> s = (w', c')
     | Inl e \<Rightarrow> n < length ds \<and> handle H W (ds ! n) s = (Inl e, (w', c')))"
  using assms(3,4)
proof (induction ds arbitrary: w c)
  case Nil
  then show ?case by (auto simp: areturn_def)
next
  case (Cons d ds)
  obtain r1 w1 c1 where h: "handle H W d (w, c) = (r1, (w1, c1))" by (metis prod.collapse)
  note rep = handle_replies [OF assms(1,2) Cons.prems(1) h]
  show ?case
  proof (cases r1)
    case (Inl e)
    then have "r = Inl e" "w' = w1" "c' = c1" using Cons.prems(2) h by (simp_all add: abind_def)
    then show ?thesis using rep Inl h by (intro exI [of _ 0] exI [of _ "[]"] exI [of _ "(w, c)"]) simp
  next
    case (Inr u)
    then obtain x where x: "replies_to H W d (w, c) x (w1, c1)" "I w1 = I w @ [x]" and "sends c1" using rep by auto
    moreover have "serve H W ds (w1, c1) = (r, (w', c'))" using Cons.prems(2) h Inr by (simp add: abind_def)
    ultimately obtain n xs s where "n \<le> length ds" "replies H W (take n ds) (w1, c1) xs s" "I w' = I w1 @ xs"
      "case r of Inr _ \<Rightarrow> n = length ds \<and> s = (w', c')
         | Inl e \<Rightarrow> n < length ds \<and> handle H W (ds ! n) s = (Inl e, (w', c'))"
      using Cons.IH by blast
    then show ?thesis using x
      by (intro exI [of _ "Suc n"] exI [of _ "x # xs"] exI [of _ s]) (auto split: sum.splits)
  qed
qed

definition log_host :: "(address \<times> string) list host" where
  "log_host = \<lparr>check_output = \<lambda>_. araise (OSError ''batctl''), ifaddresses = \<lambda>_. areturn [], read_file = \<lambda>p. araise (OSError p),
     now = areturn 100, gethostname = areturn ''gw04'',
     statvfs = areturn (1, 2), fastd_connect = \<lambda>_. areturn (), fastd_recv = areturn []\<rparr>"

definition log_wire :: "(address \<times> string) list wire" where
  "log_wire = \<lparr>bind_socket = \<lambda>_ _. areturn (), inet_pton = \<lambda>_. areturn [], if_nametoindex = \<lambda>_. areturn 2, join_group = \<lambda>_. areturn (), decode = Inr, sendto = \<lambda>a x log. (Inr (), log @ [(a, x)]), float_repr = \<lambda>_. ''0.5'', deflate = \<lambda>s. s,
     site_name = ''muc''\<rparr>"

definition log_client :: client where
  "log_client = \<lparr>cl_config = jd [(''verbose'', JBool False), (''dry_run'', JBool False)], cl_limit = None,
     cl_aliases = (JDict [], JDict [], JDict []), cl_nodeinfo = rd_init, cl_neighbours = rd_init,
     cl_statistics = rd_init\<rparr>"

theorem serve_replies_witness:
  "\<exists>xs s. replies log_host log_wire [(''GET foo bar'', (''fe80::1%vrf_external'', 9)), (''foo'', (''fe80::2'', 7))]
       ([], log_client) xs s \<and> map fst xs = [(''fe80::1%br-muc'', 45124), (''fe80::2'', 45124)]"
proof -
  let ?ds = "[(''GET foo bar'', (''fe80::1%vrf_external'', 9 :: int)), (''foo'', (''fe80::2'', 7))]"
  obtain r w' c' where run: "serve log_host log_wire ?ds ([], log_client) = (r, (w', c'))" by (metis prod.collapse)
  have ok: "isl (fst (serve log_host log_wire ?ds ([], log_client))) = False" by code_simp
  then have r: "r = Inr ()" using run by (cases r) simp_all
  have "map fst (fst (snd (serve log_host log_wire ?ds ([], log_client)))) =
      [(''fe80::1%br-muc'', 45124), (''fe80::2'', 45124)]" by code_simp
  then have to: "map fst w' = [(''fe80::1%br-muc'', 45124), (''fe80::2'', 45124)]" using run by simp
  have "\<exists>n xs s. n \<le> length ?ds \<and> replies log_host log_wire (take n ?ds) ([], log_client) xs s \<and> w' = [] @ xs \<and>
      (case r of Inr _ \<Rightarrow> n = length ?ds \<and> s = (w', c')
       | Inl e \<Rightarrow> n < length ?ds \<and> handle log_host log_wire (?ds ! n) s = (Inl e, (w', c')))"
  proof (rule serve_replies [where I = "\<lambda>w. w", OF _ _ _ run])
    show "quiet (\<lambda>w. w) log_host" by (simp add: quiet_def log_host_def keeps_basic)
    show "logs (\<lambda>w. w) log_wire" by (simp add: logs_def log_wire_def)
    show "sends log_client" by (simp add: sends_def log_client_def jd_def dict_get_def)
  qed
  then obtain n xs s where n: "n = length ?ds" and xs: "replies log_host log_wire (take n ?ds) ([], log_client) xs s" "w' = xs"
    unfolding r sum.case append_Nil by blast
  have "take n ?ds = ?ds" using n by simp
  with xs to show ?thesis by (intro exI [of _ xs] exI [of _ s]) simp
qed

end
