(* ===== verification/Respondd_Types.thy ===== *)
theory Respondd_Types
  imports Respondd_Merge Respondd_Props
begin

text \<open>
  The types of the structures that the responder collects: a schema for each of the three classes, and
  that what they collect conforms to it.
\<close>

section \<open>Schemas\<close>

text \<open>
  \<open>TObj\<close> demands the given fields and allows others, \<open>TMap\<close> a dictionary with any scalar keys, \<open>TOpt\<close>
  allows \<open>null\<close>.
\<close>

datatype jty =
    TAny
  | TInt
  | TFloat
  | TStr
  | TBool
  | TOpt jty
  | TList jty
  | TMap jty
  | TObj "(string \<times> jty) list"

fun conforms :: "jty \<Rightarrow> json \<Rightarrow> bool" where
  "conforms TAny v = True"
| "conforms TInt v = (case v of JInt i \<Rightarrow> True | _ \<Rightarrow> False)"
| "conforms TFloat v = (case v of JFloat q \<Rightarrow> True | _ \<Rightarrow> False)"
| "conforms TStr v = (case v of JStr s \<Rightarrow> True | _ \<Rightarrow> False)"
| "conforms TBool v = (case v of JBool b \<Rightarrow> True | _ \<Rightarrow> False)"
| "conforms (TOpt t) v = (v = JNull \<or> conforms t v)"
| "conforms (TList t) v = (case v of JList xs \<Rightarrow> list_all (conforms t) xs | _ \<Rightarrow> False)"
| "conforms (TMap t) v = (case v of JDict d \<Rightarrow> list_all (\<lambda>(k, x). conforms t x) d | _ \<Rightarrow> False)"
| "conforms (TObj fs) v = (case v of
     JDict d \<Rightarrow> list_all (\<lambda>(k, t). case dict_get d (JStr k) of None \<Rightarrow> False | Some x \<Rightarrow> conforms t x) fs
   | _ \<Rightarrow> False)"

definition mac_type :: jty where
  "mac_type = TOpt TStr"

definition nodeinfo_type :: jty where
  "nodeinfo_type = TObj
     [(''hostname'', TStr),
      (''network'', TObj [(''addresses'', TList TStr),
         (''mesh'', TObj [(''bat0'', TObj [(''interfaces'', TMap (TList mac_type))])]), (''mac'', mac_type)]),
      (''software'', TObj [(''firmware'', TObj [(''base'', TStr), (''release'', TStr)]),
         (''batman-adv'', TObj [(''version'', TStr)]), (''status-page'', TObj [(''api'', TInt)]),
         (''autoupdater'', TObj [(''enabled'', TBool)])]),
      (''hardware'', TObj [(''model'', TStr), (''nproc'', TInt)]),
      (''owner'', TObj []), (''system'', TObj []), (''location'', TObj []), (''vpn'', TBool)]"

definition statistics_type :: jty where
  "statistics_type = TObj
     [(''clients'', TObj [(''total'', TInt), (''wifi'', TInt)]),
      (''traffic'', TMap (TMap TInt)), (''memory'', TMap TInt), (''rootfs_usage'', TFloat), (''idletime'', TFloat),
      (''uptime'', TFloat), (''loadavg'', TFloat), (''processes'', TMap TInt),
      (''mesh_vpn'', TObj [(''groups'', TObj [(''backbone'', TObj [(''peers'',
         TOpt (TMap (TOpt (TObj [(''established'', TAny)]))))])])])]"

definition batadv_type :: jty where
  "batadv_type = TMap (TObj [(''neighbours'', TMap (TObj [(''tq'', TInt), (''lastseen'', TFloat)]))])"

definition wifi_type :: jty where
  "wifi_type = TMap (TObj [(''neighbours'', TMap (TObj [(''signal'', TStr), (''noise'', TInt), (''inactive'', TStr)]))])"

definition neighbours_type :: "bool \<Rightarrow> jty" where
  "neighbours_type wlan = TObj ([(''batadv'', batadv_type)] @ (if wlan then [(''wifi'', wifi_type)] else []))"

section \<open>Rules\<close>

lemma conforms_jd_obj:
  "conforms (TObj fs) (jd kvs) \<longleftrightarrow>
     list_all (\<lambda>(k, t). case map_of kvs k of None \<Rightarrow> False | Some x \<Rightarrow> conforms t x) fs"
proof -
  have "dict_get (map (\<lambda>(k, v). (JStr k, v)) kvs) (JStr k) = map_of kvs k" for k
    unfolding dict_get_def by (induction kvs) auto
  then show ?thesis by (simp add: jd_def)
qed

lemma conforms_jd_map: "conforms (TMap t) (jd kvs) \<longleftrightarrow> list_all (\<lambda>(k, x). conforms t x) kvs"
  by (simp add: jd_def list.pred_map comp_def split_def)

lemma conforms_mac: "conforms mac_type (jmac m)"
  by (cases m) (simp_all add: mac_type_def jmac_def)

lemma all_dict_set: "list_all P d \<Longrightarrow> P (k, v) \<Longrightarrow> list_all P (dict_set k v d)"
  unfolding dict_set_def by (induction d) auto

lemma map_jput: "jput k x v = Inr y \<Longrightarrow> conforms (TMap t) v \<Longrightarrow> conforms t x \<Longrightarrow> conforms (TMap t) y"
  by (auto simp: jput_Inr intro!: all_dict_set)

lemma map_jchange:
  assumes "jchange k f v = Inr y" and "conforms (TMap t) v" and "\<And>x x'. f x = Inr x' \<Longrightarrow> conforms t x \<Longrightarrow> conforms t x'"
  shows "conforms (TMap t) y"
proof -
  obtain d x x' where d: "v = JDict d" "dict_get d k = Some x" "f x = Inr x'" "y = JDict (dict_set k x' d)"
    using assms(1) by (auto simp: jchange_Inr)
  have "conforms t x" using assms(2) d(1,2) by (auto simp: dict_get_def list_all_iff dest!: map_of_SomeD)
  then show ?thesis using assms(2) assms(3) [OF d(3)] d(1,4) by (simp add: all_dict_set)
qed

lemma obj_jchange:
  assumes "jchange (JStr k) f v = Inr y" and "conforms (TObj fs) v" and "distinct (map fst fs)" and "(k, t) \<in> set fs"
    and "\<And>x x'. f x = Inr x' \<Longrightarrow> conforms t x \<Longrightarrow> conforms t x'"
  shows "conforms (TObj fs) y"
proof -
  obtain d x x' where d: "v = JDict d" "dict_get d (JStr k) = Some x" "f x = Inr x'" "y = JDict (dict_set (JStr k) x' d)"
    using assms(1) by (auto simp: jchange_Inr)
  have x: "conforms t x" using assms(2,4) d(1,2) by (fastforce simp: list_all_iff)
  have "t' = t" if "(k, t') \<in> set fs" for t' using assms(3,4) that by (metis eq_key_imp_eq_value)
  then show ?thesis
    using assms(2) assms(5) [OF d(3) x] unfolding d(1,4)
    by (auto simp: list_all_iff dict_get_set split: option.splits if_splits)
qed

section \<open>Neighbours\<close>

lemma map_ensure:
  assumes "ensure_mac sec mac v = Inr y" and "conforms (TObj fs) v" and "distinct (map fst fs)"
    and "(sec, TMap (TObj [(''neighbours'', TMap t)])) \<in> set fs"
  shows "conforms (TObj fs) y"
  using assms(1) unfolding ensure_mac_def
proof (rule obj_jchange [OF _ assms(2-4)])
  fix x x'
  assume c: "conforms (TMap (TObj [(''neighbours'', TMap t)])) x"
    and "rbind (jhas mac x) (\<lambda>h. if h then Inr x else jput mac (jd [(''neighbours'', JDict [])]) x) = Inr x'"
  then obtain h where "(if h then Inr x else jput mac (jd [(''neighbours'', JDict [])]) x) = Inr x'"
    unfolding rbind_eq_Inr by (elim exE conjE)
  moreover have "conforms (TObj [(''neighbours'', TMap t)]) (jd [(''neighbours'', JDict [])])"
    unfolding conforms_jd_obj by simp
  ultimately show "conforms (TMap (TObj [(''neighbours'', TMap t)])) x'"
    using map_jput [OF _ c] c by (cases h) (simp_all del: conforms.simps(8,9))
qed

lemma obj_put:
  assumes "put_neighbour sec mac origin n v = Inr y" and "conforms (TObj fs) v" and "distinct (map fst fs)"
    and "(sec, TMap (TObj [(''neighbours'', TMap t)])) \<in> set fs" and "conforms t n"
  shows "conforms (TObj fs) y"
  using assms(1) unfolding put_neighbour_def
proof (rule obj_jchange [OF _ assms(2-4)])
  fix x x'
  assume c: "conforms (TMap (TObj [(''neighbours'', TMap t)])) x"
    and ch: "jchange mac (jchange (JStr ''neighbours'') (jput (JStr origin) n)) x = Inr x'"
  show "conforms (TMap (TObj [(''neighbours'', TMap t)])) x'"
  proof (rule map_jchange [OF ch c])
    fix z z'
    assume z: "conforms (TObj [(''neighbours'', TMap t)]) z" and "jchange (JStr ''neighbours'') (jput (JStr origin) n) z = Inr z'"
    from this(2) show "conforms (TObj [(''neighbours'', TMap t)]) z'"
      by (rule obj_jchange [OF _ z, where t = "TMap t"]) (auto intro: map_jput [OF _ _ assms(5)] simp del: conforms.simps(8))
  qed
qed

lemma line_typed:
  assumes "originator_line config dump mesh line v = Inr y" and "conforms (neighbours_type wlan) v"
    and "dump \<noteq> None \<Longrightarrow> wlan"
  shows "conforms (neighbours_type wlan) y"
proof -
  define fs where "fs = [(''batadv'', batadv_type)] @ (if wlan then [(''wifi'', wifi_type)] else [])"
  have dist: "distinct (map fst fs)" by (simp add: fs_def)
  have bat: "(''batadv'', TMap (TObj [(''neighbours'', TMap (TObj [(''tq'', TInt), (''lastseen'', TFloat)]))])) \<in> set fs"
    by (simp add: fs_def batadv_type_def)
  have wifi: "(''wifi'', TMap (TObj [(''neighbours'', TMap (TObj [(''signal'', TStr), (''noise'', TInt), (''inactive'', TStr)]))])) \<in> set fs"
    if wlan using that by (simp add: fs_def wifi_type_def)
  have w: "conforms (TObj fs) y" if wn: "wifi_neighbour mesh d i x v = Inr y" and v: "conforms (TObj fs) v" and wl: "wlan" for d i x v y
  proof -
    obtain mac u where u: "ensure_mac ''wifi'' mac v = Inr u"
      and r: "(case dict_get d x of None \<Rightarrow> Inr u | Some e \<Rightarrow> rbind (dict_index e ''signal'') (\<lambda>signal.
         rbind (dict_index e ''inactive time'') (\<lambda>inactive. put_neighbour ''wifi'' mac x
           (jd [(''signal'', JStr signal), (''noise'', JInt 0), (''inactive'', JStr inactive)]) u))) = Inr y"
      using wn by (auto simp: wifi_neighbour_def rbind_eq_Inr)
    have cu: "conforms (TObj fs) u" by (rule map_ensure [OF u v dist wifi [OF wl]])
    show ?thesis
    proof (cases "dict_get d x")
      case None
      then show ?thesis using r cu by simp
    next
      case (Some e)
      with r obtain sig ina where "put_neighbour ''wifi'' mac x
           (jd [(''signal'', JStr sig), (''noise'', JInt 0), (''inactive'', JStr ina)]) u = Inr y"
        by (auto simp: rbind_eq_Inr)
      then show ?thesis
        by (rule obj_put [OF _ cu dist wifi [OF wl]]) (simp add: conforms_jd_obj del: conforms.simps(9))
    qed
  qed
  have b: "conforms (TObj fs) y" if bn: "batadv_neighbour mesh i x q l v = Inr y" and v: "conforms (TObj fs) v" for i x q l v y
  proof (cases "dict_get mesh i")
    case None
    then show ?thesis using bn v by (simp add: batadv_neighbour_def)
  next
    case (Some mac)
    then obtain u n f where u: "ensure_mac ''batadv'' mac v = Inr u"
      and y: "put_neighbour ''batadv'' mac x (jd [(''tq'', JInt n), (''lastseen'', JFloat f)]) u = Inr y"
      using bn by (auto simp: batadv_neighbour_def rbind_eq_Inr)
    show ?thesis
      by (rule obj_put [OF y map_ensure [OF u v dist bat] dist bat]) (simp add: conforms_jd_obj del: conforms.simps(9))
  qed
  have v: "conforms (TObj fs) v" using assms(2) by (simp only: neighbours_type_def fs_def)
  have "conforms (TObj fs) y"
  proof (cases "rx_match rx_originator line")
    case None
    then show ?thesis using assms(1) v by (simp add: originator_line_def)
  next
    case (Some am)
    obtain rest m where am: "am = (rest, m)" by force
    show ?thesis
    proof (cases "rx_group m 1 = rx_group m 4")
      case False
      then show ?thesis using assms(1) v Some am by (simp add: originator_line_def)
    next
      case True
      then obtain u where u: "(case dump of None \<Rightarrow> Inr v
          | Some d \<Rightarrow> rbind (rbind (jget config ''mesh-wlan'') (jhas (JStr (rx_group m 5)))) (\<lambda>w.
              if w then wifi_neighbour mesh d (rx_group m 5) (rx_group m 1) v else Inr v)) = Inr u"
        and y: "batadv_neighbour mesh (rx_group m 5) (rx_group m 1) (rx_group m 3) (rx_group m 2) u = Inr y"
        using assms(1) Some am by (auto simp: originator_line_def rbind_eq_Inr)
      have "conforms (TObj fs) u"
      proof (cases dump)
        case None
        then show ?thesis using u v by simp
      next
        case (Some d)
        with u obtain h where "(if h then wifi_neighbour mesh d (rx_group m 5) (rx_group m 1) v else Inr v) = Inr u"
          by (auto simp: rbind_eq_Inr)
        then show ?thesis using w [OF _ v] v assms(3) Some by (cases h) simp_all
      qed
      then show ?thesis by (rule b [OF y])
    qed
  qed
  then show ?thesis by (simp only: neighbours_type_def fs_def)
qed

lemma neighbours_typed:
  assumes "neighbours_get H config w = (Inr v, w')"
  shows "\<exists>wlan. jin ''mesh-wlan'' config = Inr wlan \<and> conforms (neighbours_type wlan) v"
proof -
  obtain wlan dump mesh lines where wlan: "jin ''mesh-wlan'' config = Inr wlan" and dump: "dump \<noteq> None \<Longrightarrow> wlan"
    and fold: "rfold (originator_line config dump mesh) lines
       (jd ([(''batadv'', JDict [])] @ (if wlan then [(''wifi'', JDict [])] else []))) = Inr v"
    using assms unfolding neighbours_get_def
    by (elim abind_InrE) (auto simp: alift_def areturn_def split: if_splits)
  have "conforms (neighbours_type wlan) (jd ([(''batadv'', JDict [])] @ (if wlan then [(''wifi'', JDict [])] else [])))"
    unfolding neighbours_type_def conforms_jd_obj by (simp add: batadv_type_def wifi_type_def)
  then have "conforms (neighbours_type wlan) v"
    by (rule rfold_invariant [OF fold]) (rule line_typed [OF _ _ dump])
  with wlan show ?thesis by blast
qed

section \<open>Node information\<close>

lemma yields_afold: "(\<And>x s. P s \<Longrightarrow> yields P (f x s)) \<Longrightarrow> P s \<Longrightarrow> yields P (afold f xs s)"
proof (induction xs arbitrary: s)
  case Nil
  then show ?case by (simp add: yields_areturn)
next
  case (Cons x xs)
  then show ?case by (simp add: yields_abind_with [where Q = P])
qed

definition mac_lists :: "(string, json list) dict \<Rightarrow> bool" where
  "mac_lists ret \<longleftrightarrow> list_all (\<lambda>(k, l). list_all (conforms mac_type) l) ret"

lemma mac_lists_get: "mac_lists ret \<Longrightarrow> list_all (conforms mac_type) (get_default (dict_get ret k) [])"
  by (cases "map_of ret k") (auto simp: mac_lists_def dict_get_def list_all_iff dest!: map_of_SomeD)

lemma mac_lists_set: "mac_lists ret \<Longrightarrow> list_all (conforms mac_type) l \<Longrightarrow> mac_lists (dict_set k l ret)"
  by (simp add: mac_lists_def all_dict_set)

lemma interfaces_typed: "yields mac_lists (getBatmanInterfaces H config batman)"
proof -
  have "yields mac_lists (add_mesh_interface H config line ret)" if "mac_lists ret" for line ret
    unfolding add_mesh_interface_def dict_append_def get_default_def [symmetric] using that mac_lists_get [OF that] conforms_mac
    by (intro yields_abind yields_areturn mac_lists_set) simp_all
  then have fold: "yields mac_lists (afold (add_mesh_interface H config) lines [])" for lines
    by (intro yields_afold) (simp_all add: mac_lists_def)
  have "mac_lists (case dict_get ret ''l2tp'' of None \<Rightarrow> ret
      | Some l \<Rightarrow> dict_set ''tunnel'' (get_default (dict_get ret ''tunnel'') [] @ l) ret)" if "mac_lists ret" for ret
    using that mac_lists_get [OF that, of "''tunnel''"] mac_lists_get [OF that, of "''l2tp''"]
    by (auto intro: mac_lists_set split: option.split)
  then show ?thesis unfolding getBatmanInterfaces_def
    by (intro yields_abind yields_abind_with [OF fold] yields_areturn)
qed

definition overlaid :: "json \<Rightarrow> json \<Rightarrow> json \<Rightarrow> bool" where
  "overlaid aliases ret v \<longleftrightarrow>
     (\<exists>a. jin ''nodeinfo'' aliases = Inr a \<and>
        (if a then \<exists>overlay. jget aliases ''nodeinfo'' = Inr overlay \<and> merge ret overlay = Inr v else v = ret))"

lemma conforms_macs: "mac_lists l \<Longrightarrow> conforms (TMap (TList mac_type)) (jd (map (\<lambda>(k, l). (k, JList l)) l))"
  unfolding conforms_jd_map list.pred_map mac_lists_def by (simp add: list_all_iff split_def)

lemma conforms_strs: "conforms (TList TStr) (JList (map JStr xs))"
  by (simp add: list_all_iff)

lemma nodeinfo_typed: "yields (\<lambda>v. \<exists>ret. conforms nodeinfo_type ret \<and> overlaid aliases ret v) (nodeinfo_get H config aliases)"
  unfolding nodeinfo_get_def Let_def
proof ((rule yields_abind_with [OF interfaces_typed] | rule yields_abind | rule yields_alift)+, goal_cases)
  case (1 hostname bridge addresses batman interfaces mac base release version cpu model nproc vpn v)
  let ?ret = "jd
       [(''hostname'', JStr hostname),
        (''network'', jd
          [(''addresses'', JList (map JStr addresses)),
           (''mesh'', jd [(''bat0'', jd [(''interfaces'', jd (map (\<lambda>(k, l). (k, JList l)) interfaces))])]),
           (''mac'', jmac mac)]),
        (''software'', jd
          [(''firmware'', jd [(''base'', JStr base), (''release'', JStr release)]),
           (''batman-adv'', jd [(''version'', JStr (strip version))]),
           (''status-page'', jd [(''api'', JInt 0)]),
           (''autoupdater'', jd [(''enabled'', JBool False)])]),
        (''hardware'', jd [(''model'', JStr model), (''nproc'', JInt nproc)]),
        (''owner'', JDict []), (''system'', JDict []), (''location'', JDict []),
        (''vpn'', JBool vpn)]"
  have empty: "conforms (TObj []) (JDict [])" by simp
  have "conforms nodeinfo_type ?ret"
    unfolding nodeinfo_type_def conforms_jd_obj
    using conforms_macs [OF 1(1)] conforms_strs [of addresses] conforms_mac [of mac] empty
    by (simp add: conforms_jd_obj del: conforms.simps(7,8,9))
  moreover have "overlaid aliases ?ret v"
    using 1(2) unfolding overlaid_def rbind_eq_Inr by (elim exE conjE) (auto split: if_splits simp: rbind_eq_Inr)
  ultimately show ?case by blast
qed

section \<open>Statistics\<close>

lemma clients_typed: "yields (conforms (TObj [(''total'', TInt), (''wifi'', TInt)])) (getClients H config)"
  unfolding getClients_def
  by (intro yields_abind) (auto simp: conforms_jd_obj simp del: conforms.simps(9) intro!: yields_areturn split: prod.split)

lemma part_typed: "traffic_part traffic keys = Inr v \<Longrightarrow> conforms (TMap TInt) v"
proof -
  assume "traffic_part traffic keys = Inr v"
  then obtain kvs where kvs: "rmap (\<lambda>(k, name). rbind (dict_index traffic name) (\<lambda>n. Inr (k, JInt n))) keys = Inr kvs" "v = jd kvs"
    by (auto simp: traffic_part_def rbind_eq_Inr)
  from kvs(1) have "list_all (\<lambda>(k, x). conforms TInt x) kvs"
    by (induction keys arbitrary: kvs) (auto simp: rbind_eq_Inr split: prod.splits)
  then show ?thesis by (simp add: kvs(2) conforms_jd_map del: conforms.simps(8))
qed

lemma traffic_typed: "yields (conforms (TMap (TMap TInt))) (getTraffic H config)"
  unfolding getTraffic_def
proof (intro yields_abind yields_alift, goal_cases)
  case (1 batman lines v)
  show ?case
  proof (cases "length lines = 0")
    case True
    then show ?thesis using 1 by auto
  next
    case False
    with 1 obtain t a b c d e where "traffic_part t [(''packets'', ''tx''), (''bytes'', ''tx_bytes''), (''dropped'', ''tx_dropped'')] = Inr a"
      "traffic_part t [(''packets'', ''rx''), (''bytes'', ''rx_bytes'')] = Inr b"
      "traffic_part t [(''packets'', ''forward''), (''bytes'', ''forward_bytes'')] = Inr c"
      "traffic_part t [(''packets'', ''mgmt_rx''), (''bytes'', ''mgmt_rx_bytes'')] = Inr d"
      "traffic_part t [(''packets'', ''mgmt_tx''), (''bytes'', ''mgmt_tx_bytes'')] = Inr e"
      "v = jd [(''tx'', a), (''rx'', b), (''forward'', c), (''mgmt_rx'', d), (''mgmt_tx'', e)]"
      by (auto simp: rbind_eq_Inr)
    then show ?thesis by (simp add: conforms_jd_map part_typed del: conforms.simps(8))
  qed
qed

lemma memory_typed: "yields (conforms (TMap TInt)) (getMemory H)"
  unfolding getMemory_def
  by (intro yields_abind yields_alift)
    (auto simp: rbind_eq_Inr conforms_jd_map list.pred_map list_all_iff simp del: conforms.simps(8))

lemma processes_typed: "processes_of s = Inr v \<Longrightarrow> conforms (TMap TInt) v"
proof -
  assume "processes_of s = Inr v"
  then obtain kvs where kvs: "rmap (\<lambda>(k, p). rbind (py_int p) (\<lambda>n. Inr (k, JInt n)))
       (zip [''running'', ''total''] (split_on CHR ''/'' s)) = Inr kvs" "v = jd kvs"
    by (auto simp: processes_of_def rbind_eq_Inr)
  have "rmap (\<lambda>(k, p). rbind (py_int p) (\<lambda>n. Inr (k, JInt n))) xs = Inr kvs \<Longrightarrow> list_all (\<lambda>(k, x). conforms TInt x) kvs" for xs kvs
    by (induction xs arbitrary: kvs) (auto simp: rbind_eq_Inr split: prod.splits)
  from this [OF kvs(1)] show ?thesis by (simp add: kvs(2) conforms_jd_map del: conforms.simps(8))
qed

definition peers_type :: jty where
  "peers_type = TMap (TOpt (TObj [(''established'', TAny)]))"

lemma add_peer_typed: "add_peer peer ret = Inr ret' \<Longrightarrow> conforms peers_type ret \<Longrightarrow> conforms peers_type ret'"
proof -
  have "conforms (TOpt (TObj [(''established'', TAny)])) (jd [(''established'', e)])" for e
    by (simp add: conforms_jd_obj del: conforms.simps(9))
  moreover have "conforms (TOpt t) JNull" for t by simp
  ultimately show "add_peer peer ret = Inr ret' \<Longrightarrow> conforms peers_type ret \<Longrightarrow> conforms peers_type ret'"
    unfolding add_peer_def rbind_eq_Inr peers_type_def
    by (elim exE conjE) (auto simp: rbind_eq_Inr simp del: conforms.simps split: if_splits intro: map_jput)
qed

lemma peers_typed: "yields (conforms (TOpt peers_type)) (getMeshVPNPeers H config)"
proof -
  have fold: "conforms (TOpt peers_type) v" if "rfold add_peer peers (JDict []) = Inr v" for peers v
    using rfold_invariant [where P = "conforms peers_type", OF that _ add_peer_typed] by (simp add: peers_type_def)
  show ?thesis
    unfolding getMeshVPNPeers_def
    by (intro yields_abind) (auto simp: rbind_eq_Inr intro!: yields_areturn yields_abind yields_alift dest!: fold)
qed

lemma merge_other_keys:
  assumes "merge (JDict d) (JDict e) = Inr m" and "distinct (map fst e)" and "conforms (TObj fs) (JDict d)"
    and "\<forall>(k, t) \<in> set fs. dict_get e (JStr k) = None"
  shows "conforms (TObj fs) m"
  using assms(1,2)
proof (rule merge_dicts)
  fix f
  assume "m = JDict f" and "\<And>k. dict_get e k = None \<Longrightarrow> dict_get f k = dict_get d k"
  then show ?thesis using assms(3,4) by (auto simp: list_all_iff split: option.splits) fastforce+
qed

lemma gateway_typed:
  "yields (\<lambda>g. \<forall>j. g = Some j \<longrightarrow> (\<exists>a b. j = jd [(''gateway'', JStr a), (''gateway_nexthop'', JStr b)])) (getGateway H config)"
proof -
  let ?P = "\<lambda>g. \<forall>j. g = Some j \<longrightarrow> (\<exists>a b. j = jd [(''gateway'', JStr a), (''gateway_nexthop'', JStr b)])"
  have "?P (gateway_line line g)" if "?P g" for line g
    using that by (auto simp: gateway_line_def split: option.splits)
  then have "?P (fold gateway_line lines None)" for lines
    by (intro fold_invariant [where Q = "\<lambda>_. True" and P = ?P]) simp_all
  then show ?thesis unfolding getGateway_def by (intro yields_abind yields_areturn) simp
qed

lemma float_typed: "yields (conforms TFloat) (float_field H path i)"
  unfolding float_field_def by (intro yields_abind yields_alift) (auto simp: rbind_eq_Inr)

lemma processes_read: "yields (conforms (TMap TInt)) (abind (field_of H path i) (\<lambda>s. alift (processes_of s)))"
  by (intro yields_abind yields_alift) (rule processes_typed)

lemma statistics_typed: "yields (conforms statistics_type) (statistics_get H config)"
  unfolding statistics_get_def Let_def
proof ((rule yields_abind_with [OF clients_typed] yields_abind_with [OF traffic_typed] yields_abind_with [OF memory_typed]
    yields_abind_with [OF float_typed] yields_abind_with [OF peers_typed] yields_abind_with [OF gateway_typed]
    yields_abind_with [OF processes_read] | rule yields_abind | rule yields_alift)+, goal_cases)
  case (1 clients traffic memory rootfs idletime uptime loadavg processes peers gateway v)
  let ?kvs = "[(''clients'', clients), (''traffic'', traffic), (''memory'', memory),
        (''rootfs_usage'', JFloat (py_round 4 rootfs)), (''idletime'', idletime), (''uptime'', uptime),
        (''loadavg'', loadavg), (''processes'', processes),
        (''mesh_vpn'', jd [(''groups'', jd [(''backbone'', jd [(''peers'', peers)])])])]"
  have ret: "conforms statistics_type (jd ?kvs)"
    unfolding statistics_type_def conforms_jd_obj peers_type_def [symmetric]
    using 1 by (simp add: conforms_jd_obj del: conforms.simps(6,8,9))
  show ?case
  proof (cases gateway)
    case None
    then show ?thesis using 1 ret by simp
  next
    case (Some g)
    then obtain a b where g: "g = jd [(''gateway'', JStr a), (''gateway_nexthop'', JStr b)]" using 1 by auto
    have m: "merge (jd ?kvs) (jd [(''gateway'', JStr a), (''gateway_nexthop'', JStr b)]) = Inr v" using 1 Some g by simp
    obtain fs where fs: "statistics_type = TObj fs" "\<forall>(k, t) \<in> set fs. k \<noteq> ''gateway'' \<and> k \<noteq> ''gateway_nexthop''"
      by (simp add: statistics_type_def)
    have "conforms (TObj fs) v"
      by (rule merge_other_keys [OF m [unfolded jd_def [of ?kvs] jd_def [of "[(''gateway'', JStr a), (''gateway_nexthop'', JStr b)]"]]])
        (use ret [unfolded fs(1) jd_def [of ?kvs]] fs(2) in \<open>auto simp: dict_get_def simp del: conforms.simps(9)\<close>)
    then show ?thesis by (simp only: fs)
  qed
qed

section \<open>The answers\<close>

text \<open>
  C10. What the responder collects has the documented shape, whatever the programs and files of the
  host contain: node information conforms to its schema before the overlay of \<open>alias.json\<close> is merged
  into it, statistics conform to theirs with the gateway merged in, and neighbours to theirs, with the
  section \<open>wifi\<close> exactly when wireless interfaces are configured. Every counter is an integer, every
  time and load a float, every address a string, and only the address of an interface or the
  description of a peer may be missing.
\<close>

theorem answers_typed:
  "(nodeinfo_get H config aliases w = (Inr v1, w1) \<longrightarrow>
      (\<exists>ret. conforms nodeinfo_type ret \<and> overlaid aliases ret v1)) \<and>
    (statistics_get H config w = (Inr v2, w2) \<longrightarrow> conforms statistics_type v2) \<and>
    (neighbours_get H config w = (Inr v3, w3) \<longrightarrow>
      (\<exists>wlan. jin ''mesh-wlan'' config = Inr wlan \<and> conforms (neighbours_type wlan) v3))"
proof (intro conjI impI)
  assume "nodeinfo_get H config aliases w = (Inr v1, w1)"
  with yieldsD [OF nodeinfo_typed] show "\<exists>ret. conforms nodeinfo_type ret \<and> overlaid aliases ret v1" by fast
next
  assume "statistics_get H config w = (Inr v2, w2)"
  with yieldsD [OF statistics_typed] show "conforms statistics_type v2" by fast
next
  assume "neighbours_get H config w = (Inr v3, w3)"
  then show "\<exists>wlan. jin ''mesh-wlan'' config = Inr wlan \<and> conforms (neighbours_type wlan) v3" by (rule neighbours_typed)
qed

text \<open>
  An interface without a link-layer address has the key \<open>None\<close>, which is encoded as \<open>null\<close> but cannot be
  sorted with the address of another interface.
\<close>

lemma missing_address_unsortable:
  "sort_json (jd [(''batadv'', JDict [(JNull, JDict []), (JStr ''02:00:00:00:00:99'', JDict [])])]) =
    Inl (TypeError ''unorderable keys'')"
  by code_simp

text \<open>A gateway with one mesh interface, one neighbour on it, and a selected gateway.\<close>

definition gw_host :: "unit host" where
  "gw_host = \<lparr>check_output = (\<lambda>a.
       if a = map JStr [''batctl'', ''meshif'', ''bat0'', ''if''] then areturn (''vx1: active'' @ [NL])
       else if a = map JStr [''batctl'', ''meshif'', ''bat0'', ''gw_mode''] then areturn ''server (announced bw: 1000.0/1000.0 MBit)''
       else if a = map JStr [''batctl'', ''meshif'', ''bat0'', ''o'', ''-n''] then
         areturn ('' * 02:00:00:00:00:01    0.360s   (255) 02:00:00:00:00:01 [       vx1]'' @ [NL])
       else if a = map JStr [''batctl'', ''meshif'', ''bat0'', ''gwl'', ''-n''] then
         areturn (''=> 02:00:00:00:00:01 (255) 02:00:00:00:00:01 [vx1]'' @ [NL])
       else if a = map JStr [''nproc''] then areturn ''4''
       else if take 1 a = [JStr ''lsb_release''] then areturn ''Debian'' else araise (OSError [])),
     ifaddresses = (\<lambda>j. areturn (if j = JStr ''vx1'' then [] else [(AF_LINK, [[(''addr'', ''02:00:00:00:00:99'')]])])),
     read_file = (\<lambda>p.
       if p = ''/proc/cpuinfo'' then areturn (''model name'' @ [TAB] @ '': QEMU'' @ [NL])
       else if p = ''/proc/meminfo'' then areturn (''MemTotal:       1000 kB'' @ [NL])
       else if p = ''/proc/uptime'' then areturn ''12.5 20.5''
       else if p = ''/proc/loadavg'' then areturn ''0.5 0.25 0.125 2/200 999'' else areturn ''2023.1''),
     now = areturn 100, gethostname = areturn ''gw04'', statvfs = areturn (1, 2),
     fastd_connect = (\<lambda>_. areturn ()), fastd_recv = areturn []\<rparr>"

definition gw_config :: json where
  "gw_config = jd [(''bridge'', JStr ''br0''), (''batman'', JStr ''bat0'')]"

lemma gw_answers:
  "case fst (nodeinfo_get gw_host gw_config (JDict []) ()) of Inl e \<Rightarrow> False | Inr v \<Rightarrow> True"
  "case fst (statistics_get gw_host gw_config ()) of Inl e \<Rightarrow> False | Inr v \<Rightarrow> jget v ''gateway'' = Inr (JStr ''02:00:00:00:00:01'')"
  "neighbours_get gw_host gw_config () = (Inr (jd [(''batadv'', JDict [(JNull,
     jd [(''neighbours'', jd [(''02:00:00:00:00:01'', jd [(''tq'', JInt 255), (''lastseen'', JFloat (fl (9/25)))])])])])]), ())"
  by code_simp+

theorem answers_typed_witness:
  "\<exists>v1 v2 v3. nodeinfo_get gw_host gw_config (JDict []) () = (Inr v1, ()) \<and> conforms nodeinfo_type v1 \<and>
    statistics_get gw_host gw_config () = (Inr v2, ()) \<and> conforms statistics_type v2 \<and>
    neighbours_get gw_host gw_config () = (Inr v3, ()) \<and> conforms (neighbours_type False) v3"
proof -
  obtain v1 where v1: "nodeinfo_get gw_host gw_config (JDict []) () = (Inr v1, ())"
    using gw_answers(1) by (cases "nodeinfo_get gw_host gw_config (JDict []) ()") (auto split: sum.splits)
  obtain v2 where v2: "statistics_get gw_host gw_config () = (Inr v2, ())"
    using gw_answers(2) by (cases "statistics_get gw_host gw_config ()") (auto split: sum.splits)
  have j: "jin ''mesh-wlan'' gw_config = Inr False" "jin ''nodeinfo'' (JDict []) = Inr False"
    by (simp_all add: gw_config_def jin_def jd_def dict_has_def dict_get_def)
  have o: "overlaid (JDict []) ret v \<longleftrightarrow> v = ret" for ret v by (auto simp: overlaid_def j)
  note typed = answers_typed [of gw_host gw_config "JDict []" "()" v1 "()" v2 "()" _ "()"]
  have "conforms nodeinfo_type v1" using typed v1 unfolding o by blast
  moreover have "conforms statistics_type v2" using typed v2 by blast
  moreover have "conforms (neighbours_type False) v3" if "neighbours_get gw_host gw_config () = (Inr v3, ())" for v3
    using typed that unfolding j by blast
  ultimately show ?thesis using v1 v2 gw_answers(3) by blast
qed

end
