(* ===== verification/Ipaddr.thy ===== *)
theory Ipaddr
  imports PyStr "HOL-Library.Word"
begin

unbundle bit_operations_syntax

text \<open>
  What the sources use of Python's module \<open>ipaddress\<close> (of Python 3.9.5 to 3.12): addresses and networks of
  both versions, read from text and printed. An address is a word of its width; an IPv6 address may have a
  scope. All readers raise a \<open>ValueError\<close> (its subclasses are not told apart by any caller), so a
  reader gives \<open>None\<close> for it.
\<close>

section \<open>Words as lists of parts\<close>

text \<open>The lowest \<open>n\<close> parts of \<open>k\<close> bits, the highest first, and the loop that puts parts together.\<close>

fun chunks :: "nat \<Rightarrow> nat \<Rightarrow> 'a::len word \<Rightarrow> nat list" where
  "chunks k 0 w = []"
| "chunks k (Suc n) w = chunks k n (drop_bit k w) @ [unat (take_bit k w)]"

definition unchunks :: "nat \<Rightarrow> nat list \<Rightarrow> 'a::len word" where
  "unchunks k xs = foldl (\<lambda>a x. push_bit k a OR word_of_nat x) 0 xs"

lemma chunks_length [simp]: "length (chunks k n w) = n"
  by (induction n arbitrary: w) auto

lemma chunks_bound: "x \<in> set (chunks k n w) \<Longrightarrow> x < 2 ^ k"
proof (induction n arbitrary: w)
  case (Suc n)
  have "unat (take_bit k w) < 2 ^ k"
    by (simp add: unsigned_take_bit_eq take_bit_nat_less_exp)
  with Suc show ?case by auto
qed simp

lemma unchunks_chunks: "unchunks k (chunks k n w) = take_bit (k * n) w"
proof (induction n arbitrary: w)
  case (Suc n)
  have "unchunks k (chunks k (Suc n) w) = push_bit k (take_bit (k * n) (drop_bit k w)) OR take_bit k w"
    using Suc by (simp add: unchunks_def)
  also have "\<dots> = take_bit (k * Suc n) w"
    by (rule bit_word_eqI) (auto simp: bit_simps)
  finally show ?case .
qed (simp add: unchunks_def)

section \<open>Digits\<close>

fun show_hex :: "nat \<Rightarrow> string" where
  "show_hex n = (if n < 16 then [hex_char n] else show_hex (n div 16) @ [hex_char (n mod 16)])"

declare show_hex.simps [simp del]

definition hex_number :: "string \<Rightarrow> nat" where
  "hex_number s = foldl (\<lambda>a c. 16 * a + hex_val c) 0 s"

lemma hex_number_snoc: "hex_number (s @ [c]) = 16 * hex_number s + hex_val c"
  by (simp add: hex_number_def)

lemma show_hex_digits: "\<forall>c \<in> set (show_hex n). is_hexdigit c"
proof (induction n rule: show_hex.induct)
  case (1 n)
  show ?case using 1 by (subst show_hex.simps) auto
qed

lemma show_hex_nonempty [simp]: "show_hex n \<noteq> []"
  by (subst show_hex.simps) auto

lemma hex_number_show: "hex_number (show_hex n) = n"
proof (induction n rule: show_hex.induct)
  case (1 n)
  show ?case
  proof (cases "n < 16")
    case True
    then show ?thesis by (subst show_hex.simps) (simp add: hex_number_def)
  next
    case False
    then show ?thesis using 1 by (subst show_hex.simps) (simp add: hex_number_snoc)
  qed
qed

lemma show_hex_length: "n < 16 ^ k \<Longrightarrow> 0 < k \<Longrightarrow> length (show_hex n) \<le> k"
proof (induction n arbitrary: k rule: show_hex.induct)
  case (1 n)
  show ?case
  proof (cases "n < 16")
    case True
    then show ?thesis using 1 by (subst show_hex.simps) simp
  next
    case False
    then obtain j where k: "k = Suc j" "0 < j" using 1(2,3) by (cases k; cases "k - 1") auto
    then have "n div 16 < 16 ^ j" using 1(2) by (simp add: less_mult_imp_div_less)
    then show ?thesis using 1(1) [OF False _ k(2)] False k by (subst show_hex.simps) simp
  qed
qed

lemma hex_char_0 [simp]: "hex_char 0 = CHR ''0''"
  by code_simp

lemma show_hex_zero: "show_hex n = ''0'' \<longleftrightarrow> n = 0"
proof
  assume "show_hex n = ''0''"
  then have "hex_number (show_hex n) = hex_number ''0''" by simp
  then show "n = 0" by (simp add: hex_number_show) (simp add: hex_number_def hex_val_def)
qed (simp add: show_hex.simps)

section \<open>Addresses\<close>

datatype ip = IP4 "32 word" | IP6 "128 word" "string option"

fun ip_version :: "ip \<Rightarrow> nat" where
  "ip_version (IP4 a) = 4"
| "ip_version (IP6 a s) = 6"

fun ip_value :: "ip \<Rightarrow> nat" where
  "ip_value (IP4 a) = unat a"
| "ip_value (IP6 a s) = unat a"

text \<open>\<open>_parse_octet\<close> and \<open>_parse_hextet\<close>: leading zeros are only refused in octets.\<close>

definition parse_octet :: "string \<Rightarrow> nat option" where
  "parse_octet s =
     (if \<not> isdigit s \<or> length s > 3 \<or> (s \<noteq> ''0'' \<and> hd s = CHR ''0'') then None
      else (case int_digits s 0 False of Some n \<Rightarrow> if n > 255 then None else Some n | None \<Rightarrow> None))"

definition parse_hextet :: "string \<Rightarrow> nat option" where
  "parse_hextet s = (if s = [] \<or> (\<exists>c \<in> set s. \<not> is_hexdigit c) \<or> length s > 4 then None else Some (hex_number s))"

fun omap :: "('a \<Rightarrow> 'b option) \<Rightarrow> 'a list \<Rightarrow> 'b list option" where
  "omap f [] = Some []"
| "omap f (x # xs) = (case f x of None \<Rightarrow> None | Some y \<Rightarrow> (case omap f xs of None \<Rightarrow> None | Some ys \<Rightarrow> Some (y # ys)))"

definition parse_ip4 :: "string \<Rightarrow> (32 word) option" where
  "parse_ip4 s =
     (let octets = split_on CHR ''.'' s in
      if length octets \<noteq> 4 then None else map_option (unchunks 8) (omap parse_octet octets))"

text \<open>
  The parts between colons. A part that is empty, other than the first and the last, stands for the
  skipped zeros; next to it the first or the last part may be empty too.
\<close>

definition gaps :: "string list \<Rightarrow> nat list" where
  "gaps parts = map fst (filter (\<lambda>(i, p). p = []) (List.enumerate 1 (butlast (tl parts))))"

definition parse_ip6_parts :: "string list \<Rightarrow> (128 word) option" where
  "parse_ip6_parts parts =
     (case gaps parts of
        [] \<Rightarrow> if length parts \<noteq> 8 then None else map_option (unchunks 16) (omap parse_hextet parts)
      | [g] \<Rightarrow>
          let hi = take g parts; lo = drop (g + 1) parts;
              hi' = (if hd hi = [] then tl hi else hi); lo' = (if last lo = [] then butlast lo else lo)
          in if (hd hi = [] \<and> hi' \<noteq> []) \<or> (last lo = [] \<and> lo' \<noteq> []) \<or> length hi' + length lo' > 7 then None
             else (case (omap parse_hextet hi', omap parse_hextet lo') of
                 (Some h, Some l) \<Rightarrow> Some (unchunks 16 (h @ replicate (8 - (length hi' + length lo')) 0 @ l))
               | _ \<Rightarrow> None)
      | _ \<Rightarrow> None)"

definition parse_ip6_number :: "string \<Rightarrow> (128 word) option" where
  "parse_ip6_number s =
     (let parts = split_on CHR '':'' s in
      if length parts < 3 then None
      else
        (case (if CHR ''.'' \<in> set (last parts)
               then map_option (\<lambda>v. butlast parts @ map show_hex (chunks 16 2 v)) (parse_ip4 (last parts))
               else Some parts) of
           None \<Rightarrow> None
         | Some parts \<Rightarrow> if length parts > 9 then None else parse_ip6_parts parts))"

definition parse_ip6 :: "string \<Rightarrow> ip option" where
  "parse_ip6 s =
     (if CHR ''/'' \<in> set s then None
      else (case partition_on CHR ''%'' s of (addr, sep, scope) \<Rightarrow>
        if sep \<and> (scope = [] \<or> CHR ''%'' \<in> set scope) then None
        else map_option (\<lambda>w. IP6 w (if sep then Some scope else None)) (parse_ip6_number addr)))"

definition ip_address :: "string \<Rightarrow> ip option" where
  "ip_address s = (case parse_ip4 s of Some a \<Rightarrow> Some (IP4 a) | None \<Rightarrow> parse_ip6 s)"

section \<open>Printing\<close>

text \<open>
  The longest run of zero hextets, the first of the longest: the loop with the current and the best
  run as pairs of a start and a length.
\<close>

fun best_zeros :: "string list \<Rightarrow> nat \<Rightarrow> nat \<times> nat \<Rightarrow> nat \<times> nat \<Rightarrow> nat \<times> nat" where
  "best_zeros [] i cur best = best"
| "best_zeros (h # hs) i cur best =
     (if h = ''0'' then
        let cur = (if snd cur = 0 then i else fst cur, snd cur + 1)
        in best_zeros hs (i + 1) cur (if snd cur > snd best then cur else best)
      else best_zeros hs (i + 1) (0, 0) best)"

definition compress_hextets :: "string list \<Rightarrow> string list" where
  "compress_hextets hs =
     (case best_zeros hs 0 (0, 0) (0, 0) of (s, l) \<Rightarrow>
        if l > 1 then
          (if s = 0 then [[]] else take s hs) @ [[]] @ (if s + l = length hs then [[]] else drop (s + l) hs)
        else hs)"

definition show_ip4 :: "32 word \<Rightarrow> string" where
  "show_ip4 a = join ''.'' (map show_nat (chunks 8 4 a))"

definition show_ip6 :: "128 word \<Rightarrow> string" where
  "show_ip6 a = join '':'' (compress_hextets (map show_hex (chunks 16 8 a)))"

fun show_ip :: "ip \<Rightarrow> string" where
  "show_ip (IP4 a) = show_ip4 a"
| "show_ip (IP6 a scope) = show_ip6 a @ (case scope of None \<Rightarrow> [] | Some s \<Rightarrow> CHR ''%'' # s)"

text \<open>
  \<open>reverse_pointer\<close> without the final dot. The expanded form of an address with a scope is computed
  from its text with the scope, which raises.
\<close>

fun reverse_pointer :: "ip \<Rightarrow> string res" where
  "reverse_pointer (IP4 a) = Inr (join ''.'' (map show_nat (rev (chunks 8 4 a))) @ ''.in-addr.arpa'')"
| "reverse_pointer (IP6 a None) = Inr (join ''.'' (map (\<lambda>n. [hex_char n]) (rev (chunks 4 32 a))) @ ''.ip6.arpa'')"
| "reverse_pointer (IP6 a (Some s)) = Inl (ValueError ''scope'')"

section \<open>Networks\<close>

datatype net = Net4 "32 word" nat | Net6 "128 word" nat

fun prefixlen :: "net \<Rightarrow> nat" where
  "prefixlen (Net4 a p) = p"
| "prefixlen (Net6 a p) = p"

text \<open>The netmask of a prefix length.\<close>

definition netmask :: "nat \<Rightarrow> 'a::len word" where
  "netmask p = NOT (mask (LENGTH('a) - p))"

fun in_net :: "ip \<Rightarrow> net \<Rightarrow> bool" where
  "in_net (IP4 a) (Net4 n p) = (a AND netmask p = n)"
| "in_net (IP6 a s) (Net6 n p) = (a AND netmask p = n)"
| "in_net _ _ = False"

definition parse_prefix :: "nat \<Rightarrow> string \<Rightarrow> nat option" where
  "parse_prefix width s =
     (if \<not> isdigit s then None
      else (case int_digits s 0 False of Some n \<Rightarrow> if n > width then None else Some n | None \<Rightarrow> None))"

text \<open>IPv4 also takes a netmask or a host mask in the place of the length.\<close>

definition parse_mask4 :: "string \<Rightarrow> nat option" where
  "parse_mask4 s =
     (case parse_prefix 32 s of
        Some p \<Rightarrow> Some p
      | None \<Rightarrow>
          (case parse_ip4 s of
             None \<Rightarrow> None
           | Some m \<Rightarrow>
               (case find (\<lambda>p. netmask p = m) [0..<33] of
                  Some p \<Rightarrow> Some p
                | None \<Rightarrow> find (\<lambda>p. netmask p = NOT m) [0..<33])))"

text \<open>\<open>ip_network\<close> with \<open>strict\<close>: bits outside of the mask are refused.\<close>

definition split_net :: "string \<Rightarrow> (string \<times> string option) option" where
  "split_net s = (case split_on CHR ''/'' s of [a] \<Rightarrow> Some (a, None) | [a, m] \<Rightarrow> Some (a, Some m) | _ \<Rightarrow> None)"

definition parse_net4 :: "string \<times> string option \<Rightarrow> (32 word \<times> nat) option" where
  "parse_net4 am =
     (case parse_ip4 (fst am) of
        None \<Rightarrow> None
      | Some a \<Rightarrow> map_option (\<lambda>p. (a, p)) (case snd am of None \<Rightarrow> Some 32 | Some m \<Rightarrow> parse_mask4 m))"

definition parse_net6 :: "string \<times> string option \<Rightarrow> (128 word \<times> nat) option" where
  "parse_net6 am =
     (case parse_ip6 (fst am) of
        Some (IP6 a s) \<Rightarrow> map_option (\<lambda>p. (a, p)) (case snd am of None \<Rightarrow> Some 128 | Some m \<Rightarrow> parse_prefix 128 m)
      | _ \<Rightarrow> None)"

definition ip_network :: "string \<Rightarrow> net option" where
  "ip_network s =
     (case split_net s of
        None \<Rightarrow> None
      | Some am \<Rightarrow>
          (case parse_net4 am of
             Some (a, p) \<Rightarrow> if a AND netmask p = a then Some (Net4 a p) else None
           | None \<Rightarrow>
               (case parse_net6 am of
                  Some (a, p) \<Rightarrow> if a AND netmask p = a then Some (Net6 a p) else None
                | None \<Rightarrow> None)))"

end
