(* ===== verification/Rdns.thy ===== *)
theory Rdns
  imports Ipaddr
begin

text \<open>
  The reverse DNS records of the public prefixes, \<open>_modules/ffmuc_rdns.py\<close>. A candidate is the
  dictionary that \<open>dns-auth/init.sls\<close> builds, with its address and target as text; \<open>zones\<close> and \<open>custom\<close>
  are dictionaries, a custom entry has one address or a list of them.
\<close>

record candidate =
  cand_address :: string
  cand_target :: string
  cand_priority :: "int option"

datatype addresses = One string | Many "string list"

record ptr =
  ptr_address :: string
  ptr_name :: string
  ptr_zone :: string
  ptr_target :: string

definition fqdn :: "string \<Rightarrow> string" where
  "fqdn name = (let name = strip name in if endswith name ''.'' then name else name @ ''.'')"

text \<open>\<open>max\<close> gives the first of the largest.\<close>

definition zone_for :: "ip \<Rightarrow> (net \<times> string) list \<Rightarrow> string option" where
  "zone_for address networks =
     (case filter (\<lambda>(network, zone). in_net address network) networks of
        [] \<Rightarrow> None
      | m # ms \<Rightarrow> Some (snd (fold (\<lambda>m best. if prefixlen (fst best) < prefixlen (fst m) then m else best) ms m)))"

definition zone_networks :: "(string \<times> string) list \<Rightarrow> (net \<times> string) list res" where
  "zone_networks zones =
     rmap (\<lambda>(prefix, zone).
       case ip_network prefix of
         None \<Rightarrow> Inl (ValueError prefix)
       | Some network \<Rightarrow> Inr (network, rstrip_by (\<lambda>c. c = CHR ''.'') zone)) zones"

definition cand_key :: "candidate \<Rightarrow> int \<times> string" where
  "cand_key c = (get_default (cand_priority c) 100, fqdn (cand_target c))"

text \<open>The first candidate of an address is kept; an address that cannot be read is skipped.\<close>

definition select_candidate :: "candidate \<Rightarrow> (ip, string) dict \<Rightarrow> (ip, string) dict" where
  "select_candidate c selected =
     (case ip_address (hd (split_on CHR ''/'' (cand_address c))) of
        None \<Rightarrow> selected
      | Some address \<Rightarrow> dict_setdefault address (fqdn (cand_target c)) selected)"

fun address_list :: "addresses \<Rightarrow> string list" where
  "address_list (One a) = [a]"
| "address_list (Many as) = as"

definition custom_step :: "string \<Rightarrow> string \<Rightarrow> (ip, string) dict \<Rightarrow> (ip, string) dict res" where
  "custom_step target address selected =
     (case ip_address address of
        None \<Rightarrow> Inl (ValueError address)
      | Some a \<Rightarrow> Inr (dict_set a (fqdn target) selected))"

definition select_addresses ::
  "candidate list \<Rightarrow> (string \<times> addresses) list \<Rightarrow> (ip, string) dict res" where
  "select_addresses candidates custom =
     rfold (\<lambda>(target, addresses). rfold (custom_step target) (address_list addresses)) custom
       (fold select_candidate (sort_key cand_key candidates) [])"

definition ptr_step :: "(net \<times> string) list \<Rightarrow> ip \<times> string \<Rightarrow> ptr list \<Rightarrow> ptr list res" where
  "ptr_step networks at records =
     (case at of (address, target) \<Rightarrow>
      case zone_for address networks of
        None \<Rightarrow> Inr records
      | Some zone \<Rightarrow>
          if zone = [] then Inr records
          else rbind (reverse_pointer address) (\<lambda>pointer.
            Inr (records @ [\<lparr>ptr_address = show_ip address, ptr_name = pointer @ ''.'', ptr_zone = zone, ptr_target = target\<rparr>])))"

text \<open>The key of the final order reads the address again; Python computes all keys before it sorts.\<close>

definition ptr_key :: "ptr \<Rightarrow> (nat \<times> nat) res" where
  "ptr_key r =
     (case ip_address (ptr_address r) of
        None \<Rightarrow> Inl (ValueError (ptr_address r))
      | Some a \<Rightarrow> Inr (ip_version a, ip_value a))"

definition ptr_records ::
  "candidate list \<Rightarrow> (string \<times> string) list \<Rightarrow> (string \<times> addresses) list \<Rightarrow> ptr list res" where
  "ptr_records candidates zones custom =
     rbind (zone_networks zones) (\<lambda>networks.
     rbind (select_addresses candidates custom) (\<lambda>selected.
     rbind (rfold (ptr_step networks) selected []) (\<lambda>records.
     rbind (rmap (\<lambda>r. rbind (ptr_key r) (\<lambda>k. Inr (k, r))) records) (\<lambda>keyed.
     Inr (map snd (sort_key fst keyed))))))"

end
