(* ===== verification/Ipaddr_Props.thy ===== *)
theory Ipaddr_Props
  imports Ipaddr
begin

text \<open>
  Reading an address back: the text of an address is read as the same address, for both versions and
  every choice of the compressed run of zeros; and the names of the reverse tree identify addresses.
\<close>

section \<open>IPv4\<close>

lemma omap_map: "\<forall>x \<in> set xs. f (g x) = Some x \<Longrightarrow> omap f (map g xs) = Some xs"
  by (induction xs) auto

lemma show_nat_length: "n < 10 ^ k \<Longrightarrow> 0 < k \<Longrightarrow> length (show_nat n) \<le> k"
proof (induction n arbitrary: k rule: show_nat.induct)
  case (1 n)
  show ?case
  proof (cases "n < 10")
    case True
    then show ?thesis using 1 by (subst show_nat.simps) simp
  next
    case False
    then obtain j where k: "k = Suc j" "0 < j" using 1(2,3) by (cases k; cases "k - 1") auto
    then have "n div 10 < 10 ^ j" using 1(2) by (simp add: less_mult_imp_div_less)
    then show ?thesis using 1(1) [OF False _ k(2)] False k by (subst show_nat.simps) simp
  qed
qed

lemma hd_show_nat: "0 < n \<Longrightarrow> digit_val (hd (show_nat n)) \<noteq> 0"
proof (induction n rule: show_nat.induct)
  case (1 n)
  then show ?case by (cases "n < 10") (subst show_nat.simps, simp add: hd_append)+
qed

lemma parse_octet_show: "n < 2 ^ 8 \<Longrightarrow> parse_octet (show_nat n) = Some n"
proof -
  assume n: "n < 2 ^ 8"
  have "length (show_nat n) \<le> 3" using n by (intro show_nat_length) simp_all
  moreover have "show_nat n = ''0'' \<or> hd (show_nat n) \<noteq> CHR ''0''"
  proof (cases "n = 0")
    case True
    have "show_nat 0 = ''0''" by code_simp
    then show ?thesis using True by simp
  next
    case False
    have "digit_val (CHR ''0'') = 0" by (simp add: digit_val_def)
    then have "hd (show_nat n) \<noteq> CHR ''0''" using hd_show_nat [of n] False by auto
    then show ?thesis by simp
  qed
  ultimately have "\<not> (\<not> isdigit (show_nat n) \<or> length (show_nat n) > 3 \<or>
      (show_nat n \<noteq> ''0'' \<and> hd (show_nat n) = CHR ''0''))"
    by (simp add: isdigit_show_nat)
  then show ?thesis unfolding parse_octet_def using n by (simp add: int_digits_show_nat)
qed

lemma dot_not_digit [simp]: "\<not> is_digit (CHR ''.'')" "\<not> is_digit (CHR '':'')" "\<not> is_digit (CHR ''%'')" "\<not> is_digit (CHR ''/'')"
  by (simp_all add: is_digit_def)

lemma dot_not_hex [simp]: "\<not> is_hexdigit (CHR ''.'')" "\<not> is_hexdigit (CHR '':'')" "\<not> is_hexdigit (CHR ''%'')" "\<not> is_hexdigit (CHR ''/'')"
  by (simp_all add: is_hexdigit_def)

lemma not_in_show_nat: "\<not> is_digit c \<Longrightarrow> c \<notin> set (show_nat n)"
  using show_nat_digits by blast

lemma not_in_show_hex: "\<not> is_hexdigit c \<Longrightarrow> c \<notin> set (show_hex n)"
  using show_hex_digits by blast

lemma chunks_nonempty [simp]: "0 < n \<Longrightarrow> chunks k n w \<noteq> []"
  using chunks_length [of k n w] by force

lemma split_show_ip4: "split_on CHR ''.'' (show_ip4 a) = map show_nat (chunks 8 4 a)"
  unfolding show_ip4_def by (rule split_on_join) (simp_all add: not_in_show_nat del: chunks.simps)

lemma parse_show_ip4: "parse_ip4 (show_ip4 a) = Some a"
proof -
  have "omap parse_octet (map show_nat (chunks 8 4 a)) = Some (chunks 8 4 a)"
    by (rule omap_map) (blast intro: parse_octet_show chunks_bound)
  then show ?thesis
    by (simp add: parse_ip4_def split_show_ip4 Let_def unchunks_chunks take_bit_word_eq_self del: chunks.simps)
qed

section \<open>The run of zeros\<close>

definition zero_run :: "string list \<Rightarrow> nat \<times> nat \<Rightarrow> bool" where
  "zero_run xs r \<longleftrightarrow> fst r + snd r \<le> length xs \<and> (\<forall>j. fst r \<le> j \<and> j < fst r + snd r \<longrightarrow> xs ! j = ''0'')"

lemma best_zeros_run:
  assumes "zero_run ps cur" and "zero_run ps best" and "snd cur \<noteq> 0 \<longrightarrow> fst cur + snd cur = length ps"
  shows "zero_run (ps @ hs) (best_zeros hs (length ps) cur best)"
  using assms
proof (induction hs arbitrary: ps cur best)
  case (Cons h hs)
  have ext: "zero_run (ps @ [h]) r" if "zero_run ps r" for r
    using that by (auto simp: zero_run_def nth_append)
  let ?cur = "if h = ''0'' then (if snd cur = 0 then length ps else fst cur, snd cur + 1) else (0, 0)"
  have cur: "zero_run (ps @ [h]) ?cur"
    using Cons.prems(1,3) by (cases "snd cur = 0") (auto simp: zero_run_def nth_append)
  have "zero_run ((ps @ [h]) @ hs) (best_zeros hs (length (ps @ [h])) ?cur
      (if h = ''0'' \<and> snd ?cur > snd best then ?cur else best))"
    using cur ext [OF Cons.prems(2)] Cons.prems(3) by (intro Cons.IH) auto
  then show ?case by (auto simp: Let_def split: if_splits)
qed simp

lemma compress_cases:
  obtains (whole) "compress_hextets hs = hs"
  | (run) s l where "1 < l" and "s + l \<le> length hs" and "hs = take s hs @ replicate l ''0'' @ drop (s + l) hs"
    and "compress_hextets hs = (if s = 0 then [[]] else take s hs) @ [[]] @ (if s + l = length hs then [[]] else drop (s + l) hs)"
proof -
  obtain s l where sl: "best_zeros hs 0 (0, 0) (0, 0) = (s, l)" by force
  show thesis
  proof (cases "1 < l")
    case False
    then show thesis using whole sl by (simp add: compress_hextets_def)
  next
    case True
    have "zero_run hs (s, l)"
      using best_zeros_run [of "[]" "(0, 0)" "(0, 0)" hs] sl by (simp add: zero_run_def)
    then have len: "s + l \<le> length hs" and z: "\<And>j. s \<le> j \<Longrightarrow> j < s + l \<Longrightarrow> hs ! j = ''0''"
      by (auto simp: zero_run_def)
    have "take l (drop s hs) = replicate l ''0''"
      using len z by (intro nth_equalityI) auto
    then have "hs = take s hs @ replicate l ''0'' @ drop (s + l) hs"
      by (metis append_take_drop_id drop_drop add.commute)
    with True len sl run show thesis by (simp add: compress_hextets_def)
  qed
qed

section \<open>IPv6\<close>

lemma parse_hextet_show: "n < 2 ^ 16 \<Longrightarrow> parse_hextet (show_hex n) = Some n"
  using show_hex_digits [of n] show_hex_length [of n 4] by (auto simp: parse_hextet_def hex_number_show)

lemma no_gap: "\<forall>p \<in> set ps. p \<noteq> [] \<Longrightarrow> filter (\<lambda>(i, p). p = []) (List.enumerate n ps) = []"
  by (induction ps arbitrary: n) auto

lemma gaps_none: "\<forall>p \<in> set ps. p \<noteq> [] \<Longrightarrow> gaps ps = []"
proof -
  assume "\<forall>p \<in> set ps. p \<noteq> []"
  then have "\<forall>p \<in> set (butlast (tl ps)). p \<noteq> []"
    by (metis in_set_butlastD list.sel(2) list.set_sel(2))
  then show ?thesis unfolding gaps_def by (simp only: no_gap list.map)
qed

lemma gaps_one:
  assumes "A \<noteq> []" and "B \<noteq> []" and "\<forall>p \<in> set (tl A). p \<noteq> []" and "\<forall>p \<in> set (butlast B). p \<noteq> []"
  shows "gaps (A @ [[]] @ B) = [length A]"
proof -
  have "butlast (tl (A @ [[]] @ B)) = tl A @ [[]] @ butlast B"
    using assms(1,2) by (simp add: butlast_append)
  moreover have "filter (\<lambda>(i, p). p = []) (List.enumerate 1 (tl A @ [[]] @ butlast B)) = [(length A, [])]"
    using no_gap [OF assms(3)] no_gap [OF assms(4)] assms(1) by (simp add: enumerate_append_eq)
  ultimately show ?thesis unfolding gaps_def by simp
qed

text \<open>Reading the hextets of an address with a run of zeros left out.\<close>

lemma parse_parts_run:
  assumes hs: "hs = h @ replicate k 0 @ l" and "length hs = 8" and "1 < k" and bound: "\<forall>n \<in> set hs. n < 2 ^ 16"
    and ps: "ps = (if h = [] then [[]] else map show_hex h) @ [[]] @ (if l = [] then [[]] else map show_hex l)"
  shows "parse_ip6_parts ps = Some (unchunks 16 hs)"
proof -
  let ?A = "if h = [] then [[]] else map show_hex h" and ?B = "if l = [] then [[]] else map show_hex l"
  have "gaps ps = [length ?A]"
    unfolding ps by (rule gaps_one) (auto simp flip: map_tl map_butlast)
  moreover have "omap parse_hextet (map show_hex h) = Some h" "omap parse_hextet (map show_hex l) = Some l"
    using bound unfolding hs by (auto intro!: omap_map parse_hextet_show)
  moreover have "take (length ?A) ps = ?A" "drop (length ?A + 1) ps = ?B" unfolding ps by simp_all
  moreover have "hd ?A = [] \<longleftrightarrow> h = []" "last ?B = [] \<longleftrightarrow> l = []"
    by (auto simp: hd_map last_map)
  moreover have "length h + length l \<le> 7" and "k = 8 - (length h + length l)"
    using assms(2,3) unfolding hs by auto
  ultimately show ?thesis
    unfolding parse_ip6_parts_def hs
    by (cases "h = []"; cases "l = []") (simp_all add: Let_def hd_map last_map del: replicate.simps)
qed

lemma parse_compressed:
  assumes "length hs = 8" and "\<forall>n \<in> set hs. n < 2 ^ 16"
  shows "parse_ip6_parts (compress_hextets (map show_hex hs)) = Some (unchunks 16 hs)"
proof (cases "map show_hex hs" rule: compress_cases)
  case whole
  have "gaps (map show_hex hs) = []" by (rule gaps_none) simp
  moreover have "omap parse_hextet (map show_hex hs) = Some hs"
    using assms(2) by (intro omap_map) (blast intro: parse_hextet_show)
  ultimately show ?thesis using whole assms(1) by (simp add: parse_ip6_parts_def)
next
  case (run s l)
  have "map show_hex hs = map show_hex (take s hs @ replicate l 0 @ drop (s + l) hs)"
    using run(3) show_hex_zero [of 0] by (simp add: take_map drop_map)
  then have "map (hex_number \<circ> show_hex) hs = map (hex_number \<circ> show_hex) (take s hs @ replicate l 0 @ drop (s + l) hs)"
    by (metis map_map)
  then have "hs = take s hs @ replicate l 0 @ drop (s + l) hs"
    by (simp add: comp_def hex_number_show)
  then show ?thesis
    using run(1,2,4) assms by (intro parse_parts_run) (auto simp: take_map drop_map)
qed

lemma compress_parts:
  assumes "length hs = 8" and "p \<in> set (compress_hextets (map show_hex hs))"
  shows "p = [] \<or> p \<in> set (map show_hex hs)"
proof (cases "map show_hex hs" rule: compress_cases)
  case whole
  then show ?thesis using assms by simp
next
  case (run s l)
  then show ?thesis using assms(2) by (auto split: if_splits dest: in_set_takeD in_set_dropD)
qed

lemma compress_length:
  assumes "length hs = 8"
  shows "3 \<le> length (compress_hextets hs) \<and> length (compress_hextets hs) \<le> 9"
  using assms by (cases hs rule: compress_cases) auto

lemma show_ip6_number: "parse_ip6_number (show_ip6 a) = Some a"
  and show_ip6_chars: "set (show_ip6 a) \<subseteq> {c. is_hexdigit c} \<union> {CHR '':''}"
  and show_ip6_colon: "CHR '':'' \<in> set (show_ip6 a)"
proof -
  let ?ps = "compress_hextets (map show_hex (chunks 16 8 a))"
  have parts: "p = [] \<or> (\<exists>n. p = show_hex n)" if "p \<in> set ?ps" for p
    using compress_parts [OF chunks_length that] by auto
  have len: "3 \<le> length ?ps" "length ?ps \<le> 9" using compress_length [of "map show_hex (chunks 16 8 a)"] by simp_all
  then have ne: "?ps \<noteq> []" by auto
  have chars: "\<forall>c \<in> set p. is_hexdigit c" if "p \<in> set ?ps" for p
    using parts [OF that] show_hex_digits by auto
  have split: "split_on CHR '':'' (show_ip6 a) = ?ps"
    unfolding show_ip6_def using ne chars dot_not_hex(2) by (intro split_on_join) blast+
  have "CHR ''.'' \<notin> set (last ?ps)" using chars [OF last_in_set [OF ne]] dot_not_hex(1) by blast
  moreover have "parse_ip6_parts ?ps = Some a"
    using parse_compressed [of "chunks 16 8 a"] chunks_bound [of _ 16 8 a]
    by (simp add: unchunks_chunks take_bit_word_eq_self del: chunks.simps)
  ultimately show "parse_ip6_number (show_ip6 a) = Some a"
    using len by (simp add: parse_ip6_number_def split Let_def del: chunks.simps)
  have "set (join '':'' qs) \<subseteq> \<Union> (set ` set qs) \<union> {CHR '':''}" for qs
    by (induction qs rule: induct_list012) auto
  then show "set (show_ip6 a) \<subseteq> {c. is_hexdigit c} \<union> {CHR '':''}"
    unfolding show_ip6_def using chars by blast
  show "CHR '':'' \<in> set (show_ip6 a)"
  proof (rule ccontr)
    assume "CHR '':'' \<notin> set (show_ip6 a)"
    then have "?ps = [show_ip6 a]" using split split_on_fresh by metis
    then show False using len by (simp del: chunks.simps)
  qed
qed

section \<open>Reading an address back\<close>

definition ip_wf :: "ip \<Rightarrow> bool" where
  "ip_wf a = (case a of IP6 _ (Some s) \<Rightarrow> s \<noteq> [] \<and> CHR ''%'' \<notin> set s \<and> CHR ''/'' \<notin> set s | _ \<Rightarrow> True)"

lemma show_ip6_fresh: "\<not> is_hexdigit c \<Longrightarrow> c \<noteq> CHR '':'' \<Longrightarrow> c \<notin> set (show_ip6 a)"
  using show_ip6_chars by fastforce

lemma not_ip4:
  assumes "CHR '':'' \<in> set s" and "CHR ''.'' \<notin> set s"
  shows "parse_ip4 (s @ t) = None"
proof -
  let ?o = "split_on CHR ''.'' (s @ t)"
  have "CHR '':'' \<in> set (hd ?o)"
    using assms by (auto simp: hd_split_on takeWhile_append dest: set_takeWhileD)
  then have "\<not> isdigit (hd ?o)" using dot_not_digit(2) unfolding isdigit_def by blast
  then have "parse_octet (hd ?o) = None" by (simp add: parse_octet_def)
  then have "omap parse_octet ?o = None" by (cases ?o) auto
  then show ?thesis by (simp add: parse_ip4_def Let_def)
qed

lemma ip_address_show: "ip_wf a \<Longrightarrow> ip_address (show_ip a) = Some a"
proof (cases a)
  case (IP4 w)
  then show ?thesis by (simp add: ip_address_def parse_show_ip4)
next
  case (IP6 w scope)
  assume wf: "ip_wf a"
  let ?t = "case scope of None \<Rightarrow> [] | Some s \<Rightarrow> CHR ''%'' # s"
  have "parse_ip4 (show_ip6 w @ ?t) = None"
    by (rule not_ip4) (simp_all add: show_ip6_colon show_ip6_fresh)
  moreover have "parse_ip6 (show_ip6 w @ ?t) = Some (IP6 w scope)"
  proof (cases scope)
    case None
    have "partition_on CHR ''%'' (show_ip6 w) = (show_ip6 w, False, [])"
      by (rule partition_on_fresh) (simp add: show_ip6_fresh)
    then show ?thesis using None by (simp add: parse_ip6_def show_ip6_fresh show_ip6_number)
  next
    case (Some s)
    have "partition_on CHR ''%'' (show_ip6 w @ CHR ''%'' # s) = (show_ip6 w, True, s)"
      by (rule partition_on_append) (simp add: show_ip6_fresh)
    then show ?thesis using Some wf IP6 by (simp add: parse_ip6_def show_ip6_fresh show_ip6_number ip_wf_def)
  qed
  ultimately show ?thesis using IP6 by (simp add: ip_address_def)
qed

lemma ip_address_wf: "ip_address s = Some a \<Longrightarrow> ip_wf a"
proof -
  have part: "set t \<subseteq> set s \<and> (\<not> sep \<longrightarrow> t = [])" if "partition_on c s = (h, sep, t)" for c h sep t
  proof (cases "dropWhile (\<lambda>x. x \<noteq> c) s")
    case (Cons x xs)
    have "set (dropWhile (\<lambda>x. x \<noteq> c) s) \<subseteq> set s" by (auto dest: set_dropWhileD)
    then show ?thesis using that Cons by (auto simp: partition_on_def)
  next
    case Nil
    then show ?thesis using that unfolding partition_on_def Nil by simp
  qed
  assume "ip_address s = Some a"
  then show ?thesis
    using part by (fastforce simp: ip_address_def parse_ip6_def ip_wf_def split: option.splits if_splits prod.splits)
qed

section \<open>Names in the reverse tree\<close>

lemma join_inj:
  assumes "join [x] ps = join [x] qs" and "ps \<noteq> []" "qs \<noteq> []" and "\<forall>p \<in> set ps \<union> set qs. x \<notin> set p"
  shows "ps = qs"
proof -
  have "split_on x (join [x] ps) = ps" "split_on x (join [x] qs) = qs"
    using assms(2-) by (auto intro: split_on_join)
  then show ?thesis using assms(1) by metis
qed

lemma map_inj_by: "map f xs = map f ys \<Longrightarrow> \<forall>x \<in> set xs \<union> set ys. g (f x) = x \<Longrightarrow> xs = ys"
  by (rule map_inj_on, assumption, rule inj_on_inverseI [where g = g]) (erule (1) bspec)

lemma chunks_inj:
  assumes "chunks k n a = chunks k n b" and "k * n = LENGTH('a)"
  shows "a = (b :: 'a::len word)"
proof -
  have self: "(unchunks k (chunks k n w) :: 'a word) = w" for w :: "'a word"
    unfolding unchunks_chunks assms(2) by (simp add: take_bit_word_eq_self)
  show ?thesis by (metis self assms(1))
qed

lemma reverse_pointer_inj:
  assumes "reverse_pointer a = Inr s" and "reverse_pointer b = Inr s"
  shows "a = b"
proof -
  have v4: "w = v" if "join ''.'' (map show_nat (rev (chunks 8 4 w))) = join ''.'' (map show_nat (rev (chunks 8 4 v)))"
    for w v :: "32 word"
  proof -
    have "map show_nat (rev (chunks 8 4 w)) = map show_nat (rev (chunks 8 4 v))"
      by (rule join_inj [OF that]) (auto simp: not_in_show_nat simp del: chunks.simps)
    then have "rev (chunks 8 4 w) = rev (chunks 8 4 v)"
      by (rule map_inj_by [where g = "\<lambda>s. the (int_digits s 0 False)"]) (simp add: int_digits_show_nat)
    then show ?thesis using chunks_inj [of 8 4 w v] by (simp del: chunks.simps)
  qed
  have v6: "w = v" if "join ''.'' (map (\<lambda>n. [hex_char n]) (rev (chunks 4 32 w))) = join ''.'' (map (\<lambda>n. [hex_char n]) (rev (chunks 4 32 v)))"
    for w v :: "128 word"
  proof -
    have bound: "n < 16" if "n \<in> set (chunks 4 32 w) \<union> set (chunks 4 32 v)" for n
      using that chunks_bound [of n 4 32] by auto
    then have "CHR ''.'' \<noteq> hex_char n" if "n \<in> set (chunks 4 32 w) \<union> set (chunks 4 32 v)" for n
      using that hex_char_hexdigit dot_not_hex(1) by metis
    then have "map (\<lambda>n. [hex_char n]) (rev (chunks 4 32 w)) = map (\<lambda>n. [hex_char n]) (rev (chunks 4 32 v))"
      by (intro join_inj [OF that]) (auto simp del: chunks.simps)
    then have "rev (chunks 4 32 w) = rev (chunks 4 32 v)"
      by (rule map_inj_by [where g = "\<lambda>s. hex_val (hd s)"]) (use bound in \<open>auto simp del: chunks.simps\<close>)
    then show ?thesis using chunks_inj [of 4 32 w v] by (simp del: chunks.simps)
  qed
  have mixed: "x @ ''.in-addr.arpa'' \<noteq> y @ ''.ip6.arpa''" for x y
  proof
    assume "x @ ''.in-addr.arpa'' = y @ ''.ip6.arpa''"
    then have "rev (x @ ''.in-addr.arpa'') = rev (y @ ''.ip6.arpa'')" by (rule arg_cong)
    then show False by simp
  qed
  have "reverse_pointer a = reverse_pointer b" and "\<not> isl (reverse_pointer a)" using assms by simp_all
  then show ?thesis
    using v4 v6 mixed mixed [symmetric]
    by (cases a rule: reverse_pointer.cases; cases b rule: reverse_pointer.cases) (simp_all del: chunks.simps append_Cons append_Nil)
qed

end
