(* ===== verification/Rdns_Props.thy ===== *)
theory Rdns_Props
  imports Rdns Ipaddr_Props "HOL-Library.Code_Target_Nat"
begin

text \<open>
  What \<open>ptr_records\<close> promises: the target of every address, the zone with the longest prefix, records
  that are in order and whose names identify their addresses, and when it raises.
\<close>

section \<open>Which target an address gets\<close>

definition cand_ip :: "candidate \<Rightarrow> ip option" where
  "cand_ip c = ip_address (hd (split_on CHR ''/'' (cand_address c)))"

definition custom_pairs :: "(string \<times> addresses) list \<Rightarrow> (string \<times> string) list" where
  "custom_pairs custom = concat (map (\<lambda>(target, as). map (\<lambda>a. (a, fqdn target)) (address_list as)) custom)"

text \<open>The last custom entry of the address, or else a candidate with the smallest priority and name.\<close>

definition target_of :: "candidate list \<Rightarrow> (string \<times> addresses) list \<Rightarrow> ip \<Rightarrow> string \<Rightarrow> bool" where
  "target_of candidates custom a t \<longleftrightarrow>
     (case find (\<lambda>p. ip_address (fst p) = Some a) (rev (custom_pairs custom)) of
        Some p \<Rightarrow> t = snd p
      | None \<Rightarrow> \<exists>c \<in> set candidates. cand_ip c = Some a \<and> t = fqdn (cand_target c) \<and>
          (\<forall>c' \<in> set candidates. cand_ip c' = Some a \<longrightarrow> cand_key c \<le> cand_key c'))"

lemma select_candidate_get:
  "dict_get (fold select_candidate cs d) a =
    (case dict_get d a of Some t \<Rightarrow> Some t
     | None \<Rightarrow> map_option (\<lambda>c. fqdn (cand_target c)) (find (\<lambda>c. cand_ip c = Some a) cs))"
  by (induction cs arbitrary: d)
    (auto simp: select_candidate_def cand_ip_def dict_get_setdefault split: option.splits)

lemma find_split: "find P xs = Some x \<Longrightarrow> \<exists>ys zs. xs = ys @ x # zs \<and> P x \<and> (\<forall>y \<in> set ys. \<not> P y)"
proof (induction xs)
  case (Cons y xs)
  show ?case
  proof (cases "P y")
    case True
    then show ?thesis using Cons.prems by (intro exI [of _ "[]"] exI [of _ xs]) simp
  next
    case False
    then obtain ys zs where "xs = ys @ x # zs" "P x" "\<forall>y \<in> set ys. \<not> P y" using Cons by auto
    then show ?thesis using False by (intro exI [of _ "y # ys"] exI [of _ zs]) simp
  qed
qed simp

lemma find_sort_key:
  "find P (sort_key f xs) = Some x \<Longrightarrow> x \<in> set xs \<and> P x \<and> (\<forall>y \<in> set xs. P y \<longrightarrow> f x \<le> f y)"
proof -
  assume "find P (sort_key f xs) = Some x"
  from find_split [OF this] obtain ys zs where split: "sort_key f xs = ys @ x # zs" "P x" "\<forall>y \<in> set ys. \<not> P y"
    by (elim exE conjE)
  have "sorted (map f (ys @ x # zs))" using sorted_sort_key [of f xs] unfolding split(1) .
  then have le: "f x \<le> f y" if "y \<in> set zs" for y using that by (simp add: sorted_append)
  have mem: "set xs = set (ys @ x # zs)" using set_sort [of f xs] unfolding split(1) by (rule sym)
  have "f x \<le> f y" if "y \<in> set xs" "P y" for y
    using that(1) unfolding mem set_append list.set
  proof (elim UnE insertE)
    assume "y \<in> set ys"
    then show ?thesis using split(3) that(2) by blast
  qed (simp_all add: le)
  then show ?thesis using split(2) unfolding mem by simp
qed

lemma select_wf: "wf_dict d \<Longrightarrow> wf_dict (fold select_candidate cs d)"
  by (induction cs arbitrary: d) (auto simp: select_candidate_def split: option.splits)

lemma custom_flat:
  "rfold (\<lambda>(target, addresses). rfold (custom_step target) (address_list addresses)) custom d =
    rfold (\<lambda>p d. rbind (case ip_address (fst p) of None \<Rightarrow> Inl (ValueError (fst p)) | Some a \<Rightarrow> Inr (a, snd p))
      (\<lambda>(k, v). Inr (dict_set k v d))) (custom_pairs custom) d"
proof -
  let ?f = "\<lambda>p d. rbind (case ip_address (fst p) of None \<Rightarrow> Inl (ValueError (fst p)) | Some a \<Rightarrow> Inr (a, snd p))
      (\<lambda>(k, v). Inr (dict_set k v d))"
  have "rfold (custom_step target) as d = rfold ?f (map (\<lambda>a. (a, fqdn target)) as) d" for target as d
    by (induction as arbitrary: d) (auto simp: custom_step_def split: option.split)
  then have inner: "rfold (custom_step target) as = rfold ?f (map (\<lambda>a. (a, fqdn target)) as)" for target as
    by (rule ext)
  show ?thesis
  proof (induction custom arbitrary: d)
    case (Cons c custom)
    then have "rfold (\<lambda>(target, addresses). rfold (custom_step target) (address_list addresses)) custom =
        rfold ?f (custom_pairs custom)" by (rule ext)
    then show ?case by (cases c) (simp add: inner custom_pairs_def rfold_append)
  qed (simp add: custom_pairs_def)
qed

lemma select_addresses_get:
  assumes "select_addresses candidates custom = Inr sel"
  shows "wf_dict sel" and "dict_get sel a = Some t \<longleftrightarrow> target_of candidates custom a t"
proof -
  let ?d = "fold select_candidate (sort_key cand_key candidates) []"
  from rfold_store [OF assms [unfolded select_addresses_def custom_flat]] obtain kvs where
    kvs: "rmap (\<lambda>p. case ip_address (fst p) of None \<Rightarrow> Inl (ValueError (fst p)) | Some a \<Rightarrow> Inr (a, snd p)) (custom_pairs custom) = Inr kvs"
    and sel: "sel = fold (\<lambda>(k, v) d. dict_set k v d) kvs ?d"
    by blast
  have wf: "wf_dict ?d" by (rule select_wf) simp
  then show "wf_dict sel" unfolding sel wf_dict_def by (rule pyd.distinct_keys_fold)
  have "list_all2 (\<lambda>p (k, v). ip_address (fst p) = Some k \<and> snd p = v) (custom_pairs custom) kvs"
    using kvs [unfolded rmap_Inr_iff] by (rule list_all2_mono) (auto split: option.splits)
  then have last: "map_of (rev kvs) a = map_option snd (find (\<lambda>p. ip_address (fst p) = Some a) (rev (custom_pairs custom)))"
    by (rule map_of_rev_find)
  show "dict_get sel a = Some t \<longleftrightarrow> target_of candidates custom a t"
  proof (cases "find (\<lambda>p. ip_address (fst p) = Some a) (rev (custom_pairs custom))")
    case (Some p)
    then show ?thesis using last by (auto simp: sel pyd.get_fold target_of_def)
  next
    case None
    let ?P = "\<lambda>c. cand_ip c = Some a"
    have get: "dict_get sel a = map_option (\<lambda>c. fqdn (cand_target c)) (find ?P (sort_key cand_key candidates))"
      using last None by (simp add: sel pyd.get_fold select_candidate_get) (simp add: dict_get_def)
    have tof: "target_of candidates custom a t \<longleftrightarrow> (\<exists>c \<in> set candidates. ?P c \<and> t = fqdn (cand_target c) \<and>
        (\<forall>c' \<in> set candidates. ?P c' \<longrightarrow> cand_key c \<le> cand_key c'))"
      by (simp add: target_of_def None)
    show ?thesis
    proof (cases "find ?P (sort_key cand_key candidates)")
      case none: None
      then have "\<forall>c \<in> set candidates. \<not> ?P c" by (simp add: find_None_iff)
      then show ?thesis unfolding tof get none by simp
    next
      case (Some c)
      note c = find_sort_key [OF this]
      have "t = fqdn (cand_target c)" if "c' \<in> set candidates" "?P c'" "t = fqdn (cand_target c')"
        "\<forall>x \<in> set candidates. ?P x \<longrightarrow> cand_key c' \<le> cand_key x" for c'
      proof -
        have "cand_key c' \<le> cand_key c" "cand_key c \<le> cand_key c'" using that c by blast+
        then have "cand_key c' = cand_key c" by (rule order_antisym)
        then show ?thesis using that(3) by (simp add: cand_key_def)
      qed
      then have "target_of candidates custom a t \<longleftrightarrow> t = fqdn (cand_target c)" unfolding tof using c by blast
      then show ?thesis unfolding get Some by (simp add: eq_commute)
    qed
  qed
qed

section \<open>Which zone\<close>

text \<open>A network with the longest prefix that contains the address.\<close>

definition best_zone :: "(net \<times> string) list \<Rightarrow> ip \<Rightarrow> string \<Rightarrow> bool" where
  "best_zone networks a z \<longleftrightarrow> (\<exists>n. (n, z) \<in> set networks \<and> in_net a n \<and>
     (\<forall>n' z'. (n', z') \<in> set networks \<and> in_net a n' \<longrightarrow> prefixlen n' \<le> prefixlen n))"

lemma fold_longest:
  fixes f :: "'a \<Rightarrow> nat"
  defines "better \<equiv> \<lambda>m best. if f best < f m then m else best"
  shows "fold better ms b \<in> insert b (set ms) \<and> (\<forall>m \<in> insert b (set ms). f m \<le> f (fold better ms b))"
proof (induction ms arbitrary: b)
  case (Cons m ms)
  have "f b \<le> f (better m b)" "f m \<le> f (better m b)" "better m b \<in> {m, b}" by (simp_all add: better_def)
  then show ?case using Cons [of "better m b"] by fastforce
qed simp

lemma zone_for_None: "zone_for a networks = None \<longleftrightarrow> (\<forall>(n, z) \<in> set networks. \<not> in_net a n)"
proof -
  have "zone_for a networks = None \<longleftrightarrow> filter (\<lambda>(n, z). in_net a n) networks = []"
    by (simp add: zone_for_def split: list.split)
  then show ?thesis by (simp add: filter_empty_conv case_prod_beta)
qed

lemma zone_for_best:
  assumes "zone_for a networks = Some z"
  shows "best_zone networks a z"
proof -
  let ?better = "\<lambda>m best. if prefixlen (fst best) < prefixlen (fst m) then m else best"
  obtain m ms where ms: "filter (\<lambda>(n, z). in_net a n) networks = m # ms" and z: "z = snd (fold ?better ms m)"
    using assms by (auto simp: zone_for_def split: list.splits)
  have mem: "insert m (set ms) = {x \<in> set networks. in_net a (fst x)}"
    using arg_cong [OF ms, of set] by (simp add: case_prod_beta)
  have "fold ?better ms m \<in> insert m (set ms)" "\<forall>x \<in> insert m (set ms). prefixlen (fst x) \<le> prefixlen (fst (fold ?better ms m))"
    using fold_longest [of "\<lambda>m. prefixlen (fst m)" ms m] by simp_all
  then show ?thesis unfolding mem z best_zone_def
    by (intro exI [of _ "fst (fold ?better ms m)"]) auto
qed

text \<open>Two networks of one length that contain an address are the same network.\<close>

lemma same_net: "in_net a n \<Longrightarrow> in_net a n' \<Longrightarrow> prefixlen n = prefixlen n' \<Longrightarrow> n = n'"
  by (cases a; cases n; cases n') auto

lemma best_zone_unique:
  assumes "distinct (map fst networks)" and "best_zone networks a z" and "best_zone networks a z'"
  shows "z = z'"
proof -
  from assms(2) obtain n where n: "(n, z) \<in> set networks" "in_net a n"
    "\<And>n' z'. (n', z') \<in> set networks \<Longrightarrow> in_net a n' \<Longrightarrow> prefixlen n' \<le> prefixlen n"
    unfolding best_zone_def by metis
  from assms(3) obtain n' where n': "(n', z') \<in> set networks" "in_net a n'"
    "\<And>m y. (m, y) \<in> set networks \<Longrightarrow> in_net a m \<Longrightarrow> prefixlen m \<le> prefixlen n'"
    unfolding best_zone_def by metis
  have "n = n'" using same_net [OF n(2) n'(2)] n(3) [OF n'(1,2)] n'(3) [OF n(1,2)] by simp
  then show ?thesis using assms(1) n(1) n'(1) by (metis eq_key_imp_eq_value)
qed

lemma zone_for_iff:
  assumes "distinct (map fst networks)"
  shows "zone_for a networks = Some z \<longleftrightarrow> best_zone networks a z"
proof
  assume z: "best_zone networks a z"
  then obtain z' where z': "zone_for a networks = Some z'"
    using zone_for_None [of a networks] by (cases "zone_for a networks") (auto simp: best_zone_def)
  then show "zone_for a networks = Some z" using best_zone_unique [OF assms z zone_for_best [OF z']] by simp
qed (rule zone_for_best)

section \<open>The records\<close>

definition ptr_of :: "ip \<Rightarrow> string \<Rightarrow> string \<Rightarrow> string \<Rightarrow> ptr" where
  "ptr_of a nm z t = \<lparr>ptr_address = show_ip a, ptr_name = nm @ ''.'', ptr_zone = z, ptr_target = t\<rparr>"

fun somes :: "'a option list \<Rightarrow> 'a list" where
  "somes [] = []"
| "somes (None # es) = somes es"
| "somes (Some x # es) = x # somes es"

lemma somes_set [simp]: "x \<in> set (somes es) \<longleftrightarrow> Some x \<in> set es"
  by (induction es rule: somes.induct) auto

lemma rmap_set: "rmap f xs = Inr ys \<Longrightarrow> y \<in> set ys \<longleftrightarrow> (\<exists>x \<in> set xs. f x = Inr y)"
  by (induction xs arbitrary: ys) (fastforce simp: rbind_eq_Inr)+

text \<open>The record of an address, if it has one.\<close>

definition ptr_entry :: "(net \<times> string) list \<Rightarrow> ip \<times> string \<Rightarrow> ptr option res" where
  "ptr_entry networks at =
     (case zone_for (fst at) networks of
        Some z \<Rightarrow> if z = [] then Inr None else rbind (reverse_pointer (fst at)) (\<lambda>nm. Inr (Some (ptr_of (fst at) nm z (snd at))))
      | None \<Rightarrow> Inr None)"

lemma ptr_steps:
  "rfold (ptr_step networks) sel rs = rbind (rmap (ptr_entry networks) sel) (\<lambda>es. Inr (rs @ somes es))"
proof (induction sel arbitrary: rs)
  case (Cons at sel)
  have step: "ptr_step networks at rs = rbind (ptr_entry networks at) (\<lambda>e. Inr (rs @ (case e of None \<Rightarrow> [] | Some r \<Rightarrow> [r])))"
    by (cases "reverse_pointer (fst at)") (simp_all add: ptr_step_def ptr_entry_def ptr_of_def case_prod_beta split: option.split)
  show ?case
  proof (cases "ptr_entry networks at")
    case (Inr e)
    then show ?thesis using step Cons
      by (cases e; cases "rmap (ptr_entry networks) sel") simp_all
  qed (simp add: step)
qed simp

lemma ptr_entry_Some:
  "ptr_entry networks (a, t) = Inr (Some r) \<longleftrightarrow>
    (\<exists>nm z. zone_for a networks = Some z \<and> z \<noteq> [] \<and> reverse_pointer a = Inr nm \<and> r = ptr_of a nm z t)"
  by (cases "zone_for a networks"; cases "reverse_pointer a") (auto simp: ptr_entry_def)

lemma ptr_entries:
  assumes "rmap (ptr_entry networks) sel = Inr es"
  shows "r \<in> set (somes es) \<longleftrightarrow> (\<exists>a t nm z. (a, t) \<in> set sel \<and> zone_for a networks = Some z \<and> z \<noteq> [] \<and>
      reverse_pointer a = Inr nm \<and> r = ptr_of a nm z t)" (is "?A \<longleftrightarrow> ?B")
proof -
  have "?A \<longleftrightarrow> (\<exists>at \<in> set sel. ptr_entry networks at = Inr (Some r))"
    by (simp add: rmap_set [OF assms])
  also have "\<dots> \<longleftrightarrow> (\<exists>a t. (a, t) \<in> set sel \<and> ptr_entry networks (a, t) = Inr (Some r))" by force
  also have "\<dots> \<longleftrightarrow> ?B" by (simp add: ptr_entry_Some)
  finally show ?thesis .
qed

lemma ptr_names_distinct:
  assumes "rmap (ptr_entry networks) sel = Inr es" and "distinct (map fst sel)"
  shows "distinct (map ptr_name (somes es))"
  using assms
proof (induction sel arbitrary: es)
  case (Cons at sel)
  obtain e es' where es: "es = e # es'" and e: "ptr_entry networks at = Inr e" and es': "rmap (ptr_entry networks) sel = Inr es'"
    using Cons.prems(1) by (auto simp: rbind_eq_Inr)
  have IH: "distinct (map ptr_name (somes es'))" using Cons.IH [OF es'] Cons.prems(2) by simp
  show ?case
  proof (cases e)
    case (Some r)
    have r: "\<exists>nm z. reverse_pointer (fst at) = Inr nm \<and> ptr_name r = nm @ ''.''"
      using e Some by (auto simp: ptr_entry_def ptr_of_def rbind_eq_Inr split: option.splits if_splits)
    have "ptr_name x \<noteq> ptr_name r" if x: "x \<in> set (somes es')" for x
    proof
      assume same: "ptr_name x = ptr_name r"
      from x obtain a t nm z where "(a, t) \<in> set sel" "reverse_pointer a = Inr nm" "x = ptr_of a nm z t"
        unfolding ptr_entries [OF es'] by blast
      moreover from this same r have "a = fst at" using reverse_pointer_inj [of a nm "fst at"] by (auto simp: ptr_of_def)
      ultimately have "fst at \<in> fst ` set sel" by (metis fst_conv imageI)
      then show False using Cons.prems(2) by simp
    qed
    then have "ptr_name r \<notin> ptr_name ` set (somes es')" by (metis imageE)
    then show ?thesis using IH es Some by simp
  qed (use IH es in simp)
qed simp

lemma target_of_wf: "target_of candidates custom a t \<Longrightarrow> ip_wf a"
proof (cases "find (\<lambda>p. ip_address (fst p) = Some a) (rev (custom_pairs custom))")
  case (Some p)
  from find_split [OF this] have "ip_address (fst p) = Some a" by (elim exE conjE)
  then show ?thesis by (rule ip_address_wf)
next
  case None
  moreover assume "target_of candidates custom a t"
  ultimately show ?thesis using ip_address_wf by (auto simp: target_of_def cand_ip_def)
qed

text \<open>The last step: the keys can always be computed, and the order is that of the addresses.\<close>

lemma ptr_key_of: "ip_wf a \<Longrightarrow> ptr_key (ptr_of a nm z t) = Inr (ip_version a, ip_value a)"
  by (simp add: ptr_key_def ptr_of_def ip_address_show)

lemma sort_key_map_pair: "map snd (sort_key fst (map (\<lambda>r. (k r, r)) rs)) = sort_key k rs"
proof (rule sym, rule properties_for_sort_key)
  let ?s = "sort_key fst (map (\<lambda>r. (k r, r)) rs)"
  have pair: "fst x = k (snd x)" if "x \<in> set ?s" for x using that by auto
  show "mset (map snd ?s) = mset rs" by (simp add: image_mset.compositionality comp_def)
  have "map k (map snd ?s) = map fst ?s"
    unfolding map_map comp_def by (rule map_cong [OF refl]) (erule pair [symmetric])
  then show "sorted (map k (map snd ?s))" by (simp only: sorted_sort_key)
  fix r
  have "filter (\<lambda>y. k r = k y) (map snd ?s) = map snd (filter (\<lambda>x. fst x = k r) ?s)"
    unfolding filter_map
    by (rule arg_cong [where f = "map snd"], rule filter_cong [OF refl]) (drule pair, simp add: eq_commute)
  also have "filter (\<lambda>x. fst x = k r) ?s = filter (\<lambda>x. fst x = k r) (map (\<lambda>r. (k r, r)) rs)"
    by (rule sort_key_stable)
  finally show "filter (\<lambda>y. k r = k y) (map snd ?s) = filter (\<lambda>y. k r = k y) rs"
    by (simp add: filter_map comp_def eq_commute)
qed

lemma ptr_records_cases:
  assumes "zone_networks zones = Inr networks" and "select_addresses candidates custom = Inr sel"
    and "rmap (ptr_entry networks) sel = Inr es"
  shows "\<exists>rs. ptr_records candidates zones custom = Inr rs \<and> mset rs = mset (somes es) \<and>
    sorted (map (\<lambda>r. projr (ptr_key r)) rs)"
proof -
  let ?records = "somes es" and ?k = "\<lambda>r. projr (ptr_key r)"
  have "ptr_key r = Inr (?k r)" if "r \<in> set ?records" for r
    using that select_addresses_get [OF assms(2)]
    unfolding ptr_entries [OF assms(3)] by (auto simp: ptr_key_of target_of_wf simp flip: dict_get_in)
  then have "rmap (\<lambda>r. rbind (ptr_key r) (\<lambda>k. Inr (k, r))) ?records = Inr (map (\<lambda>r. (?k r, r)) ?records)"
    by (intro rmap_total) (metis rbind_Inr)
  moreover have "map snd (sort_key fst (map (\<lambda>r. (?k r, r)) ?records)) = sort_key ?k ?records"
    by (simp add: sort_key_map_pair)
  ultimately have "ptr_records candidates zones custom = Inr (sort_key ?k ?records)"
    using assms by (simp add: ptr_records_def ptr_steps)
  then show ?thesis by simp
qed

section \<open>What the function promises\<close>

lemma ptr_records_Inr:
  assumes "ptr_records candidates zones custom = Inr rs"
  obtains networks sel es where "zone_networks zones = Inr networks" and "select_addresses candidates custom = Inr sel"
    and "rmap (ptr_entry networks) sel = Inr es" and "mset rs = mset (somes es)"
    and "sorted (map (\<lambda>r. projr (ptr_key r)) rs)"
proof -
  from assms obtain networks sel es where *: "zone_networks zones = Inr networks"
    "select_addresses candidates custom = Inr sel" "rmap (ptr_entry networks) sel = Inr es"
    by (auto simp: ptr_records_def ptr_steps rbind_eq_Inr)
  from ptr_records_cases [OF *] assms that [OF *] show thesis by auto
qed

lemma ptr_records_mem:
  assumes "ptr_records candidates zones custom = Inr rs" and "zone_networks zones = Inr networks"
  shows "r \<in> set rs \<longleftrightarrow> (\<exists>a t nm z. target_of candidates custom a t \<and> zone_for a networks = Some z \<and> z \<noteq> [] \<and>
    reverse_pointer a = Inr nm \<and> r = ptr_of a nm z t)"
proof (rule ptr_records_Inr [OF assms(1)])
  fix networks' sel es
  assume nets: "zone_networks zones = Inr networks'" and sel: "select_addresses candidates custom = Inr sel"
    and es: "rmap (ptr_entry networks') sel = Inr es" and rs: "mset rs = mset (somes es)"
  have "(a, t) \<in> set sel \<longleftrightarrow> target_of candidates custom a t" for a t
    using select_addresses_get [OF sel] by (simp add: dict_get_in [symmetric])
  then have mem: "r \<in> set (somes es) \<longleftrightarrow> (\<exists>a t nm z. target_of candidates custom a t \<and> zone_for a networks' = Some z \<and> z \<noteq> [] \<and>
    reverse_pointer a = Inr nm \<and> r = ptr_of a nm z t)"
    unfolding ptr_entries [OF es] by simp
  have "networks' = networks" using nets assms(2) by simp
  then show ?thesis using mem mset_eq_setD [OF rs] by simp
qed

text \<open>An example: two candidates of one address, inside of the only prefix.\<close>

definition example_candidates :: "candidate list" where
  "example_candidates = [\<lparr>cand_address = ''10.0.0.2/8'', cand_target = ''b'', cand_priority = None\<rparr>,
     \<lparr>cand_address = ''10.0.0.2'', cand_target = ''gw'', cand_priority = Some 10\<rparr>]"

definition example_zones :: "(string \<times> string) list" where
  "example_zones = [(''10.0.0.0/8'', ''a.'')]"

definition example_record :: ptr where
  "example_record = \<lparr>ptr_address = ''10.0.0.2'', ptr_name = ''2.0.0.10.in-addr.arpa.'', ptr_zone = ''a'', ptr_target = ''gw.''\<rparr>"

lemma example_records: "ptr_records example_candidates example_zones [] = Inr [example_record]"
  by code_simp

lemma example_networks: "zone_networks example_zones = Inr [(Net4 0x0A000000 8, ''a'')]"
  by code_simp

text \<open>
  C32. Which records are made: with networks that differ from each other, the records are exactly
  those of the addresses that have a target and lie in a network whose zone has a name. The zone is that of the
  longest prefix; the target is that of the last custom entry for the address or, without one, of the
  candidate with the lowest priority, the smallest name among equal priorities.
\<close>

theorem ptr_records_spec:
  assumes "ptr_records candidates zones custom = Inr rs" and "zone_networks zones = Inr networks"
    and "distinct (map fst networks)"
  shows "r \<in> set rs \<longleftrightarrow> (\<exists>a t nm z. target_of candidates custom a t \<and> best_zone networks a z \<and> z \<noteq> [] \<and>
    reverse_pointer a = Inr nm \<and> r = \<lparr>ptr_address = show_ip a, ptr_name = nm @ ''.'', ptr_zone = z, ptr_target = t\<rparr>)"
  unfolding ptr_records_mem [OF assms(1,2)] zone_for_iff [OF assms(3)] ptr_of_def by (rule refl)

theorem ptr_records_spec_witness:
  "\<exists>a t nm z. target_of example_candidates [] a t \<and> best_zone [(Net4 0x0A000000 8, ''a'')] a z \<and> z \<noteq> [] \<and>
    reverse_pointer a = Inr nm \<and> example_record = \<lparr>ptr_address = show_ip a, ptr_name = nm @ ''.'', ptr_zone = z, ptr_target = t\<rparr>"
  using ptr_records_spec [OF example_records example_networks, of example_record] by simp

text \<open>
  C33. The text of the records can be read back: the address of every record reads as the address that
  its name is the reverse pointer of, and that address is selected; so the last step of the function, which reads
  the addresses again for their order, cannot fail.
\<close>

theorem ptr_records_roundtrip:
  assumes "ptr_records candidates zones custom = Inr rs" and "r \<in> set rs"
  shows "\<exists>a nm. ip_address (ptr_address r) = Some a \<and> reverse_pointer a = Inr nm \<and> ptr_name r = nm @ ''.'' \<and>
    target_of candidates custom a (ptr_target r)"
proof (rule ptr_records_Inr [OF assms(1)])
  fix networks
  assume "zone_networks zones = Inr networks"
  from ptr_records_mem [OF assms(1) this] assms(2) obtain a t nm z where
    "target_of candidates custom a t" "reverse_pointer a = Inr nm" "r = ptr_of a nm z t" by blast
  then show ?thesis using ip_address_show [OF target_of_wf] by (auto simp: ptr_of_def)
qed

theorem ptr_records_roundtrip_witness:
  "\<exists>a nm. ip_address ''10.0.0.2'' = Some a \<and> reverse_pointer a = Inr nm \<and> ''2.0.0.10.in-addr.arpa.'' = nm @ ''.'' \<and>
    target_of example_candidates [] a ''gw.''"
  using ptr_records_roundtrip [OF example_records, of example_record] by (simp add: example_record_def)

text \<open>
  C34. The records are in the order of their addresses, IPv4 before IPv6, and no two records have the
  same name.
\<close>

theorem ptr_records_ordered:
  assumes "ptr_records candidates zones custom = Inr rs"
  shows "sorted (map (\<lambda>r. case ip_address (ptr_address r) of Some a \<Rightarrow> (ip_version a, ip_value a) | None \<Rightarrow> (0, 0)) rs) \<and>
    distinct (map ptr_name rs)"
proof (rule ptr_records_Inr [OF assms])
  fix networks sel es
  assume nets: "zone_networks zones = Inr networks" and sel: "select_addresses candidates custom = Inr sel"
    and es: "rmap (ptr_entry networks) sel = Inr es" and rs: "mset rs = mset (somes es)"
    and sorted: "sorted (map (\<lambda>r. projr (ptr_key r)) rs)"
  let ?k = "\<lambda>r. case ip_address (ptr_address r) of Some a \<Rightarrow> (ip_version a, ip_value a) | None \<Rightarrow> (0, 0)"
  have "projr (ptr_key r) = ?k r" if "r \<in> set rs" for r
    using that unfolding ptr_records_mem [OF assms nets] by (auto simp: ptr_key_def ptr_of_def ip_address_show target_of_wf)
  then have "map (\<lambda>r. projr (ptr_key r)) rs = map ?k rs" by (rule map_cong [OF refl])
  with sorted have "sorted (map ?k rs)" by (simp only:)
  moreover have "distinct (map fst sel)" using select_addresses_get(1) [OF sel] by (simp add: wf_dict_def dict_keys_def)
  then have "distinct (map ptr_name (somes es))" by (rule ptr_names_distinct [OF es])
  then have "distinct (map ptr_name rs)" using rs by (metis mset_map mset_eq_imp_distinct_iff)
  ultimately show ?thesis ..
qed

theorem ptr_records_ordered_witness:
  "\<exists>rs. ptr_records example_candidates example_zones [] = Inr rs \<and> distinct (map ptr_name rs) \<and> length rs = 1"
  using ptr_records_ordered [OF example_records] example_records by auto

lemma select_addresses_Inl:
  "isl (select_addresses candidates custom) \<longleftrightarrow> (\<exists>p \<in> fst ` set (custom_pairs custom). ip_address p = None)"
proof -
  have "isl (rfold (\<lambda>p d. rbind (case ip_address (fst p) of None \<Rightarrow> Inl (ValueError (fst p)) | Some a \<Rightarrow> Inr (a, snd p))
      (\<lambda>(k, v). Inr (dict_set k v d))) ps d) \<longleftrightarrow> (\<exists>p \<in> fst ` set ps. ip_address p = None)" for ps d
    by (induction ps arbitrary: d) (auto split: option.split)
  then show ?thesis by (simp add: select_addresses_def custom_flat)
qed

lemma rmap_Inl: "isl (rmap f xs) \<longleftrightarrow> (\<exists>x \<in> set xs. isl (f x))"
  by (induction xs) (auto simp: rbind_def split: sum.splits)

lemma reverse_pointer_Inl: "isl (reverse_pointer a) \<longleftrightarrow> (\<exists>w s. a = IP6 w (Some s))"
  by (cases a rule: reverse_pointer.cases) auto

lemma zone_networks_Inl: "isl (zone_networks zones) \<longleftrightarrow> (\<exists>p \<in> fst ` set zones. ip_network p = None)"
proof -
  have "isl (case x of (p, z) \<Rightarrow> case ip_network p of None \<Rightarrow> Inl (ValueError p) | Some n \<Rightarrow> Inr (n, f z)) \<longleftrightarrow>
      ip_network (fst x) = None" for x :: "string \<times> string" and f :: "string \<Rightarrow> string"
    by (cases x) (simp split: option.split)
  then show ?thesis unfolding zone_networks_def rmap_Inl by simp
qed

lemma ptr_entry_Inl:
  "isl (ptr_entry networks (a, t)) \<longleftrightarrow> (\<exists>z. zone_for a networks = Some z \<and> z \<noteq> [] \<and> isl (reverse_pointer a))"
  by (cases "zone_for a networks"; cases "reverse_pointer a") (simp_all add: ptr_entry_def)

text \<open>
  C35. When it raises: exactly when a prefix of the zones or a custom address cannot be read, or an
  IPv6 address with a scope is selected and lies in a network of a zone with a name. A candidate address that cannot
  be read never makes it fail.
\<close>

theorem ptr_records_raises:
  "isl (ptr_records candidates zones custom) \<longleftrightarrow>
    (\<exists>p \<in> fst ` set zones. ip_network p = None) \<or> (\<exists>s \<in> fst ` set (custom_pairs custom). ip_address s = None) \<or>
    (\<exists>networks w s t z. zone_networks zones = Inr networks \<and> target_of candidates custom (IP6 w (Some s)) t \<and>
      zone_for (IP6 w (Some s)) networks = Some z \<and> z \<noteq> [])"
proof (cases "zone_networks zones")
  case (Inl e)
  then show ?thesis using zone_networks_Inl [of zones] by (simp add: ptr_records_def)
next
  case nets: (Inr networks)
  show ?thesis
  proof (cases "select_addresses candidates custom")
    case (Inl e)
    then show ?thesis using nets select_addresses_Inl [of candidates custom] by (simp add: ptr_records_def)
  next
    case sel: (Inr sel)
    have "isl (ptr_records candidates zones custom) \<longleftrightarrow> isl (rmap (ptr_entry networks) sel)"
      using ptr_records_cases [OF nets sel]
      by (cases "rmap (ptr_entry networks) sel") (auto simp: ptr_records_def nets sel ptr_steps)
    also have "\<dots> \<longleftrightarrow> (\<exists>a t. (a, t) \<in> set sel \<and> isl (ptr_entry networks (a, t)))"
      unfolding rmap_Inl by auto
    also have "\<dots> \<longleftrightarrow> (\<exists>a t z. target_of candidates custom a t \<and> zone_for a networks = Some z \<and> z \<noteq> [] \<and> isl (reverse_pointer a))"
      using select_addresses_get [OF sel] by (simp add: ptr_entry_Inl dict_get_in [symmetric])
    also have "\<dots> \<longleftrightarrow> (\<exists>w s t z. target_of candidates custom (IP6 w (Some s)) t \<and>
        zone_for (IP6 w (Some s)) networks = Some z \<and> z \<noteq> [])"
      unfolding reverse_pointer_Inl by blast
    finally have main: "isl (ptr_records candidates zones custom) \<longleftrightarrow> \<dots>" .
    have "(\<exists>p \<in> fst ` set zones. ip_network p = None) = False"
      "(\<exists>p \<in> fst ` set (custom_pairs custom). ip_address p = None) = False"
      using zone_networks_Inl [of zones] select_addresses_Inl [of candidates custom] nets sel by simp_all
    then show ?thesis unfolding main nets by (simp only:) simp
  qed
qed

end
