(* ===== verification/Haproxy_Stats.thy ===== *)
theory Haproxy_Stats
  imports PyRegex PyFloat
begin

text \<open>
  Statistics of the HAProxy peers and stick tables in the line protocol of InfluxDB,
  \<open>telegraf/files/haproxy_peers_stats.py\<close>. The runtime API is a parameter that gives the chunks received
  for a command or raises; the decoding of bytes and \<open>repr\<close> of a float are parameters too. Sums of
  floats are plain, as in Python before 3.12.
\<close>

section \<open>Patterns\<close>

definition is_lowhex :: "char \<Rightarrow> bool" where
  "is_lowhex c \<longleftrightarrow> is_digit c \<or> c \<in> set ''abcdef''"

definition COUNTERS :: "string list" where
  "COUNTERS = [''tx_hbt'', ''rx_hbt'', ''no_hbt'', ''new_conn'', ''proto_err'', ''coll'']"

definition SECTION_RE :: rx where
  "SECTION_RE = rx_cat [rx_lit ''0x'', rx_plus (RCls is_lowhex), rx_lit '': ['', rx_star (rx_not '']''), rx_lit ''] id='',
     RGrp 1 (rx_plus rx_S)]"

definition PEER_RE :: rx where
  "PEER_RE = rx_cat [rx_plus rx_s, rx_lit ''0x'', rx_plus (RCls is_lowhex), rx_lit '': id='',
     RGrp 1 (rx_plus (RCls (\<lambda>c. c \<noteq> CHR ''('' \<and> \<not> is_space c))), rx_chr CHR ''('',
     RGrp 2 (rx_any [rx_lit ''local'', rx_lit ''remote'']), rx_chr CHR '','']"

definition TABLE_RE :: rx where
  "TABLE_RE = rx_cat [rx_lit ''# table: '', RGrp 1 (rx_plus (rx_not '','')), rx_lit '', type: '', rx_plus (rx_not '',''),
     rx_lit '', size:'', RGrp 2 (rx_plus rx_d), rx_lit '', used:'', RGrp 3 (rx_plus rx_d)]"

definition DURATION_RE :: rx where
  "DURATION_RE = RSeq (RGrp 1 (rx_plus rx_d)) (RGrp 2 (rx_any (map rx_lit [''ms'', ''d'', ''h'', ''m'', ''s''])))"

section \<open>Queries\<close>

definition query :: "(string \<Rightarrow> ('w, string list) act) \<Rightarrow> (string \<Rightarrow> string) \<Rightarrow> string \<Rightarrow> ('w, string) act" where
  "query api decode command = abind (api (command @ [NL])) (\<lambda>chunks. areturn (decode (recv_all [] chunks)))"

section \<open>Durations\<close>

text \<open>A Python number: the sum is an integer until a number of milliseconds makes it a float.\<close>

datatype num = PInt int | PFloat rat

fun unit_value :: "string \<Rightarrow> num" where
  "unit_value u = (if u = ''d'' then PInt 86400 else if u = ''h'' then PInt 3600 else if u = ''m'' then PInt 60
     else if u = ''s'' then PInt 1 else PFloat (fl (1 / 1000)))"

fun num_float :: "num \<Rightarrow> rat" where
  "num_float (PInt i) = fl (of_int i)"
| "num_float (PFloat q) = q"

fun num_add :: "num \<Rightarrow> num \<Rightarrow> num" where
  "num_add (PInt i) (PInt j) = PInt (i + j)"
| "num_add x y = PFloat (fl (num_float x + num_float y))"

fun num_mult :: "num \<Rightarrow> num \<Rightarrow> num" where
  "num_mult (PInt i) (PInt j) = PInt (i * j)"
| "num_mult x y = PFloat (fl (num_float x * num_float y))"

definition duration_s :: "string \<Rightarrow> rat option res" where
  "duration_s value =
     (let parts = map (\<lambda>m. (rx_group m 1, rx_group m 2)) (rx_findall DURATION_RE value) in
      if parts = [] \<or> concat (map (\<lambda>(n, u). n @ u) parts) \<noteq> value then Inr None
      else
        rbind (rfold (\<lambda>(n, u) s. rbind (py_int n) (\<lambda>i. Inr (num_add s (num_mult (PInt i) (unit_value u))))) parts (PInt 0))
          (\<lambda>s. Inr (Some (num_float s))))"

section \<open>Parsing\<close>

type_synonym peer = "(string, string) dict"

text \<open>The pairs of a line go into the current peer, the first value of a key is kept.\<close>

definition add_token :: "string \<Rightarrow> peer \<Rightarrow> peer" where
  "add_token token current =
     (case partition_on CHR ''='' token of (key, sep, value) \<Rightarrow>
        if sep \<and> key \<noteq> ''id'' then dict_setdefault key value current else current)"

definition add_line :: "string \<Rightarrow> peer \<Rightarrow> peer" where
  "add_line line current = fold add_token (split_ws line) current"

text \<open>
  The state of the loop: the peers, the section and whether there is a current peer, which is then
  the last of the peers.
\<close>

record parse_state =
  ps_peers :: "peer list"
  ps_section :: "string option"
  ps_current :: bool

definition is_detail :: "string \<Rightarrow> bool" where
  "is_detail line \<longleftrightarrow> str_contains line ''shared tables:'' \<or> str_contains line ''remote_table:'' \<or>
     str_contains line ''last_local_table:''"

definition parse_line :: "string \<Rightarrow> parse_state \<Rightarrow> parse_state" where
  "parse_line line st =
     (case rx_match SECTION_RE line of
        Some (_, m) \<Rightarrow> st\<lparr>ps_section := Some (rx_group m 1), ps_current := False\<rparr>
      | None \<Rightarrow>
         (case rx_match PEER_RE line of
            Some (_, m) \<Rightarrow>
             (case ps_section st of
                Some section \<Rightarrow>
                  if rx_group m 2 = ''remote'' \<and> section \<noteq> [] then
                    st\<lparr>ps_peers := ps_peers st @ [add_line line [(''section'', section), (''peer'', rx_group m 1)]],
                      ps_current := True\<rparr>
                  else st\<lparr>ps_current := False\<rparr>
              | None \<Rightarrow> st\<lparr>ps_current := False\<rparr>)
          | None \<Rightarrow>
              if \<not> ps_current st then st
              else if is_detail line then st\<lparr>ps_current := False\<rparr>
              else st\<lparr>ps_peers := butlast (ps_peers st) @ [add_line line (last (ps_peers st))]\<rparr>))"

definition parse_peers :: "string \<Rightarrow> peer list" where
  "parse_peers text =
     ps_peers (fold parse_line (splitlines text) \<lparr>ps_peers = [], ps_section = None, ps_current = False\<rparr>)"

record table =
  t_table :: string
  t_size :: int
  t_used :: int

definition parse_table :: "string \<Rightarrow> table option res" where
  "parse_table line =
     (case rx_match TABLE_RE line of
        None \<Rightarrow> Inr None
      | Some (_, m) \<Rightarrow>
          rbind (py_int (rx_group m 2)) (\<lambda>size.
          rbind (py_int (rx_group m 3)) (\<lambda>used.
          Inr (Some \<lparr>t_table = rx_group m 1, t_size = size, t_used = used\<rparr>))))"

definition parse_tables :: "string \<Rightarrow> table list res" where
  "parse_tables text = rbind (rmap parse_table (splitlines text)) (\<lambda>ts. Inr [t. Some t \<leftarrow> ts])"

section \<open>Output\<close>

text \<open>\<open>re.sub(r"([,= ])", r"\\\1", value)\<close>\<close>

definition tag :: "string \<Rightarrow> string" where
  "tag value = rx_sub (RGrp 1 (rx_set '',= '')) (\<lambda>m. BACKSLASH # rx_group m 1) value"

text \<open>\<open>str.isdigit\<close> also accepts the superscript digits.\<close>

definition str_isdigit :: "string \<Rightarrow> bool" where
  "str_isdigit s \<longleftrightarrow> s \<noteq> [] \<and> (\<forall>c \<in> set s. is_digit c \<or> (of_char c :: nat) \<in> {178, 179, 185})"

definition quote_field :: "string \<Rightarrow> string" where
  "quote_field s =
     DQUOTE # str_replace [DQUOTE] [BACKSLASH, DQUOTE] (str_replace [BACKSLASH] [BACKSLASH, BACKSLASH] s) @ [DQUOTE]"

definition counter_field :: "peer \<Rightarrow> string \<Rightarrow> (string, string) dict \<Rightarrow> (string, string) dict" where
  "counter_field peer counter flds =
     (let v = get_default (dict_get peer counter) [] in
      if str_isdigit v then dict_set counter (v @ ''i'') flds else flds)"

definition peer_fields :: "(rat \<Rightarrow> string) \<Rightarrow> peer \<Rightarrow> (string, string) dict res" where
  "peer_fields repr peer =
     (let flds = [(''connected'', if dict_get peer ''state'' = Some ''EST'' then ''1i'' else ''0i''),
                    (''last_status'', quote_field (get_default (dict_get peer ''last_status'') []))] in
      rbind (duration_s (get_default (dict_get peer ''last_hdshk'') [])) (\<lambda>hdshk.
      let flds = (case hdshk of None \<Rightarrow> flds | Some q \<Rightarrow> dict_set ''last_hdshk_s'' (repr q) flds)
      in Inr (fold (counter_field peer) COUNTERS flds)))"

definition peer_line :: "(rat \<Rightarrow> string) \<Rightarrow> peer \<Rightarrow> string res" where
  "peer_line repr peer =
     rbind (peer_fields repr peer) (\<lambda>flds.
     rbind (dict_index peer ''section'') (\<lambda>section.
     rbind (dict_index peer ''peer'') (\<lambda>name.
     Inr (''haproxy_peer,section='' @ tag section @ '',peer='' @ tag name @ '' '' @
       join '','' (map (\<lambda>(k, v). k @ ''='' @ v) flds)))))"

definition table_line :: "table \<Rightarrow> string" where
  "table_line t = ''haproxy_stick_table,table='' @ tag (t_table t) @ '' used='' @ show_int (t_used t) @ ''i,size='' @
     show_int (t_size t) @ ''i''"

definition output_lines ::
  "(string \<Rightarrow> ('w, string list) act) \<Rightarrow> (string \<Rightarrow> string) \<Rightarrow> (rat \<Rightarrow> string) \<Rightarrow> ('w, string list) act" where
  "output_lines api decode repr =
     abind (query api decode ''show peers'') (\<lambda>text.
     abind (alift (rmap (peer_line repr) (parse_peers text))) (\<lambda>peers.
     abind (query api decode ''show table'') (\<lambda>text.
     abind (alift (parse_tables text)) (\<lambda>tables.
     areturn (peers @ map table_line tables)))))"

text \<open>The exit code and what is printed; an \<open>OSError\<close> ends the program with 1.\<close>

definition haproxy_main ::
  "(string \<Rightarrow> ('w, string list) act) \<Rightarrow> (string \<Rightarrow> string) \<Rightarrow> (rat \<Rightarrow> string) \<Rightarrow> ('w, int \<times> string option) act" where
  "haproxy_main api decode repr w =
     (case output_lines api decode repr w of
        (Inl (OSError e), w') \<Rightarrow> (Inr (1, None), w')
      | (Inl e, w') \<Rightarrow> (Inl e, w')
      | (Inr lines, w') \<Rightarrow> (Inr (0, if lines = [] then None else Some (join [NL] lines)), w'))"

end
