(* ===== verification/Haproxy_Props.thy ===== *)
theory Haproxy_Props
  imports Haproxy_Stats
begin

text \<open>
  The parser of the peers against a definition that has no state, and the lines of the output read
  back by a reader of the line protocol.
\<close>

section \<open>What the parser finds\<close>

definition section_of :: "string \<Rightarrow> string option" where
  "section_of line = map_option (\<lambda>(_, m). rx_group m 1) (rx_match SECTION_RE line)"

definition peer_of :: "string \<Rightarrow> (string \<times> string) option" where
  "peer_of line = map_option (\<lambda>(_, m). (rx_group m 1, rx_group m 2)) (rx_match PEER_RE line)"

text \<open>A line that belongs to the peer of the line before it.\<close>

definition follows :: "string \<Rightarrow> bool" where
  "follows line \<longleftrightarrow> section_of line = None \<and> peer_of line = None \<and> \<not> is_detail line"

text \<open>
  The remote peers with their section and their own lines: the section is that of the last section
  line before the peer, the own lines are the line of the peer and the following ones up to a line that
  starts something else.
\<close>

fun announced :: "string option \<Rightarrow> string list \<Rightarrow> (string \<times> string \<times> string list) list" where
  "announced sec [] = []"
| "announced sec (l # ls) =
     (case (section_of l, peer_of l, sec) of
        (Some s, _, _) \<Rightarrow> announced (Some s) ls
      | (None, Some (name, kind), Some s) \<Rightarrow>
          (if kind = ''remote'' \<and> s \<noteq> [] then [(s, name, l # takeWhile follows ls)] else []) @ announced sec ls
      | _ \<Rightarrow> announced sec ls)"

definition entry :: "string \<times> string \<times> string list \<Rightarrow> peer" where
  "entry a = (case a of (s, name, ls) \<Rightarrow> fold add_line ls [(''section'', s), (''peer'', name)])"

lemma parse_lines:
  assumes "ps_current st \<longrightarrow> ps_peers st \<noteq> []"
  shows "ps_peers (fold parse_line ls st) =
    (if ps_current st then butlast (ps_peers st) @ [fold add_line (takeWhile follows ls) (last (ps_peers st))]
     else ps_peers st) @ map entry (announced (ps_section st) ls)"
  using assms
proof (induction ls arbitrary: st)
  case (Cons l ls)
  let ?st = "parse_line l st"
  have "ps_current ?st \<longrightarrow> ps_peers ?st \<noteq> []"
    using Cons.prems by (auto simp: parse_line_def split: option.splits if_splits)
  note IH = Cons.IH [OF this]
  show ?case
    using Cons.prems IH
    by (cases "rx_match SECTION_RE l"; cases "rx_match PEER_RE l"; cases "ps_section st"; cases "ps_current st"; cases "is_detail l")
      (auto simp: parse_line_def follows_def section_of_def peer_of_def entry_def)
qed auto

text \<open>The value of a key: the first of the own lines, never the name of the section or the peer.\<close>

definition pair_of :: "string \<Rightarrow> (string \<times> string) option" where
  "pair_of token = (case partition_on CHR ''='' token of (key, sep, value) \<Rightarrow>
     if sep \<and> key \<noteq> ''id'' then Some (key, value) else None)"

lemma add_token_pair:
  "add_token t d = (case pair_of t of None \<Rightarrow> d | Some (k, v) \<Rightarrow> dict_setdefault k v d)"
  by (cases "partition_on CHR ''='' t") (simp add: add_token_def pair_of_def)

lemma add_tokens_get:
  "dict_get (fold add_token ts d) k =
    (case dict_get d k of Some v \<Rightarrow> Some v | None \<Rightarrow> map_of (List.map_filter pair_of ts) k)"
proof (induction ts arbitrary: d)
  case (Cons t ts)
  show ?case
    by (cases "pair_of t"; cases "dict_get d k")
      (auto simp: Cons add_token_pair [of t] dict_get_setdefault List.map_filter_simps split: option.splits if_splits)
qed (simp add: List.map_filter_simps split: option.split)

lemma add_lines_tokens: "fold add_line ls d = fold add_token (concat (map split_ws ls)) d"
  by (induction ls arbitrary: d) (simp_all add: add_line_def)

lemma entry_get:
  "dict_get (entry (s, name, ls)) k =
    (if k = ''section'' then Some s else if k = ''peer'' then Some name
     else map_of (List.map_filter pair_of (concat (map split_ws ls))) k)"
  by (simp add: entry_def add_lines_tokens add_tokens_get) (simp add: dict_get_def)

text \<open>
  C36. The parser finds exactly the remote peers: for every output of \<open>show peers\<close> its result is, in
  order, one dictionary for every line of a remote peer inside of a section; with the section and the name of that
  line, which no pair of the text can replace, and for every other key the first value that the peer's own
  lines give it. Details of tables, local peers and other sections contribute nothing.
\<close>

theorem parse_peers_spec:
  "parse_peers text = map entry (announced None (splitlines text)) \<and>
    dict_get (entry (s, name, ls)) k =
      (if k = ''section'' then Some s else if k = ''peer'' then Some name
       else map_of (List.map_filter pair_of (concat (map split_ws ls))) k)"
  by (simp add: parse_peers_def parse_lines entry_get)

section \<open>Reading the lines back\<close>

text \<open>
  A reader of the line protocol: up to an unescaped separator, where a backslash escapes a comma, an
  equals sign or a space.
\<close>

definition special :: "char \<Rightarrow> bool" where
  "special c \<longleftrightarrow> c \<in> set '',= ''"

fun read_token :: "string \<Rightarrow> string \<times> string" where
  "read_token [] = ([], [])"
| "read_token (c # cs) =
     (if c = BACKSLASH \<and> cs \<noteq> [] \<and> special (hd cs) then (case read_token (tl cs) of (t, rest) \<Rightarrow> (hd cs # t, rest))
      else if special c then ([], c # cs)
      else (case read_token cs of (t, rest) \<Rightarrow> (c # t, rest)))"

function read_tags :: "string \<Rightarrow> ((string \<times> string) list \<times> string) option" where
  "read_tags s =
     (case s of
        [] \<Rightarrow> None
      | c # cs \<Rightarrow>
          if c = CHR '' '' then Some ([], cs)
          else if c \<noteq> CHR '','' then None
          else (case read_token cs of (key, rest) \<Rightarrow>
            case rest of
              [] \<Rightarrow> None
            | d # ds \<Rightarrow>
                if d \<noteq> CHR ''='' \<or> length ds \<ge> length cs then None
                else (case read_token ds of (value, rest') \<Rightarrow>
                  if length rest' > length ds then None
                  else map_option (\<lambda>(tags, f). ((key, value) # tags, f)) (read_tags rest'))))"
  by pat_completeness auto
termination by (relation "measure length") auto

declare read_tags.simps [simp del]

definition read_line :: "string \<Rightarrow> (string \<times> (string \<times> string) list \<times> string) option" where
  "read_line line = (case read_token line of (m, rest) \<Rightarrow> map_option (\<lambda>(tags, f). (m, tags, f)) (read_tags rest))"

lemma special_not_backslash [simp]: "\<not> special BACKSLASH" "special (CHR '','')" "special (CHR ''='')" "special (CHR '' '')"
  by (simp_all add: special_def)

lemma tag_simps [simp]:
  "tag [] = []" "tag (c # cs) = (if special c then [BACKSLASH, c] else [c]) @ tag cs"
  by (simp_all add: tag_def special_def rx_match_def rx_group_def)

lemma read_stop: "rest = [] \<or> special (hd rest) \<Longrightarrow> read_token rest = ([], rest)"
  by (cases rest) auto

lemma read_plain: "BACKSLASH \<notin> set v \<Longrightarrow> \<forall>c \<in> set v. \<not> special c \<Longrightarrow> rest = [] \<or> special (hd rest) \<Longrightarrow> read_token (v @ rest) = (v, rest)"
  by (induction v) (auto simp: read_stop)

lemma read_tag: "BACKSLASH \<notin> set v \<Longrightarrow> special (hd rest) \<Longrightarrow> rest \<noteq> [] \<Longrightarrow> hd rest \<noteq> BACKSLASH \<Longrightarrow> read_token (tag v @ rest) = (v, rest)"
  by (induction v) (auto simp: read_stop)

lemma read_tags_pair:
  assumes "BACKSLASH \<notin> set k \<union> set v" and "\<forall>c \<in> set k. \<not> special c" and "special c" and "c \<noteq> BACKSLASH"
  shows "read_tags (CHR '','' # k @ CHR ''='' # tag v @ c # rest) =
    map_option (\<lambda>(tags, f). ((k, v) # tags, f)) (read_tags (c # rest))"
proof -
  have "read_token (k @ CHR ''='' # tag v @ c # rest) = (k, CHR ''='' # tag v @ c # rest)"
    using assms by (intro read_plain) simp_all
  moreover have "read_token (tag v @ c # rest) = (v, c # rest)"
    using assms by (intro read_tag) simp_all
  ultimately show ?thesis by (subst read_tags.simps) simp
qed

section \<open>Every line can be written\<close>

lemma run_star_class:
  "(t, cs') \<in> set (rx_run (RStar g (RCls p)) s cs) \<Longrightarrow> cs' = cs \<and> (\<exists>w. s = w @ t \<and> (\<forall>c \<in> set w. p c))"
proof (induction s)
  case Nil
  then show ?case unfolding rx_star_mem [of _ g "RCls p" "[]"] by simp
next
  case (Cons x xs)
  from Cons.prems consider "t = x # xs" "cs' = cs" | "p x" "(t, cs') \<in> set (rx_run (RStar g (RCls p)) xs cs)"
    unfolding rx_star_mem [of _ g "RCls p" "x # xs"] by (auto split: if_splits)
  then show ?case
  proof cases
    case 2
    from Cons.IH [OF 2(2)] obtain w where "cs' = cs" "xs = w @ t" "\<forall>c \<in> set w. p c" by blast
    then show ?thesis using 2 by (intro conjI exI [of _ "x # w"]) simp_all
  qed simp
qed

lemma run_plus_class:
  "(t, cs') \<in> set (rx_run (rx_plus (RCls p)) s cs) \<Longrightarrow> cs' = cs \<and> (\<exists>w. s = w @ t \<and> w \<noteq> [] \<and> (\<forall>c \<in> set w. p c))"
proof -
  assume "(t, cs') \<in> set (rx_run (rx_plus (RCls p)) s cs)"
  then obtain x xs where "s = x # xs" "p x" "(t, cs') \<in> set (rx_run (RStar True (RCls p)) xs cs)"
    by (auto split: list.splits if_splits)
  moreover from run_star_class [OF this(3)] obtain w where "xs = w @ t" "\<forall>c \<in> set w. p c" "cs' = cs" by blast
  ultimately show ?thesis by (intro conjI exI [of _ "x # w"]) simp_all
qed

lemma match_digits:
  assumes "rx_match DURATION_RE s = Some (t, m)"
  shows "isdigit (rx_group m 1)"
proof -
  define units where "units = rx_any (map rx_lit [''ms'', ''d'', ''h'', ''m'', ''s''])"
  have lits: "cs' = cs" if "(u, cs') \<in> set (rx_run units v cs)" for u v cs' cs
    using that by (auto simp: units_def rx_chr_def split: list.splits if_splits)
  have "(t, m) \<in> set (rx_run DURATION_RE s [])"
    using assms by (cases "rx_run DURATION_RE s []") (simp_all add: rx_match_def)
  moreover define number where "number = rx_plus rx_d"
  ultimately have "(t, m) \<in> set (rx_run (RSeq (RGrp 1 number) (RGrp 2 units)) s [])"
    unfolding DURATION_RE_def units_def by simp
  then obtain t1 c1 y cs' where a: "(t1, c1) \<in> set (rx_run number s [])" and m: "m = (2, y) # cs'"
    and u: "(t, cs') \<in> set (rx_run units t1 ((1, take (length s - length t1) s) # c1))"
    by auto
  from run_plus_class [OF a [unfolded number_def]] obtain w where "c1 = []" "s = w @ t1" "w \<noteq> []" "\<forall>c \<in> set w. is_digit c" by blast
  then show ?thesis using m lits [OF u] by (simp add: rx_group_def isdigit_def)
qed

lemma findall_digits: "m \<in> set (rx_findall DURATION_RE s) \<Longrightarrow> isdigit (rx_group m 1)"
proof (induction s rule: length_induct)
  case (1 s)
  show ?case
  proof (cases s)
    case (Cons c cs)
    show ?thesis
    proof (cases "rx_match DURATION_RE s")
      case None
      then show ?thesis using 1 Cons by auto
    next
      case (Some tm)
      obtain t n where tm: "tm = (t, n)" by force
      show ?thesis
        using 1 Some match_digits [of s t n] by (cases "length t < length s") (auto simp: Cons tm)
    qed
  qed (use 1 in simp)
qed

lemma py_int_digits: "isdigit s \<Longrightarrow> \<exists>n. py_int s = Inr (int n)"
proof -
  assume s: "isdigit s"
  then have "strip s = s" by (intro strip_no_space) (auto simp: isdigit_def dest: digit_not_space)
  moreover obtain n where "int_digits s 0 False = Some n" using s isdigit_int_digits [of s False 0] unfolding isdigit_def by blast
  moreover obtain c cs where "s = c # cs" "is_digit c" using s by (cases s) (auto simp: isdigit_def)
  ultimately show ?thesis by (auto simp: py_int_def)
qed

lemma duration_total: "\<exists>q. duration_s v = Inr q"
proof -
  let ?parts = "map (\<lambda>m. (rx_group m 1, rx_group m 2)) (rx_findall DURATION_RE v)"
  let ?f = "\<lambda>(n, u) s. rbind (py_int n) (\<lambda>i. Inr (num_add s (num_mult (PInt i) (unit_value u))))"
  have "\<exists>r. rfold ?f ps s = Inr r" if "\<forall>p \<in> set ps. isdigit (fst p)" for ps s
    using that
  proof (induction ps arbitrary: s)
    case (Cons p ps)
    then obtain n where "py_int (fst p) = Inr (int n)" using py_int_digits [of "fst p"] by auto
    then show ?case using Cons by (cases p) (simp del: unit_value.simps)
  qed simp
  then obtain r where "rfold ?f ?parts (PInt 0) = Inr r" using findall_digits [of _ v] by fastforce
  then show ?thesis by (simp add: duration_s_def Let_def)
qed

lemma peer_fields_total: "\<exists>flds. peer_fields repr peer = Inr flds"
  using duration_total [of "get_default (dict_get peer ''last_hdshk'') []"] by (auto simp: peer_fields_def Let_def)

text \<open>
  C37. A line reads back: for every parsed peer whose section and name have no backslash (which a name in
  the configuration of HAProxy cannot have), the line of the peer is written without an error, and a
  reader of the line protocol gets the measurement, the two tags with their original values, and the fields
  after them, whatever commas, spaces and equals signs the names contain.
\<close>

theorem peer_line_reads:
  assumes "peer \<in> set (parse_peers text)" and "dict_get peer ''section'' = Some s" and "dict_get peer ''peer'' = Some name"
    and "BACKSLASH \<notin> set s \<union> set name"
  shows "\<exists>line flds. peer_line repr peer = Inr line \<and> peer_fields repr peer = Inr flds \<and>
    read_line line = Some (''haproxy_peer'', [(''section'', s), (''peer'', name)], join '','' (map (\<lambda>(k, v). k @ ''='' @ v) flds))"
proof -
  obtain flds where f: "peer_fields repr peer = Inr flds" using peer_fields_total by blast
  let ?f = "join '','' (map (\<lambda>(k, v). k @ ''='' @ v) flds)"
  let ?rest = "CHR '','' # ''peer'' @ CHR ''='' # tag name @ CHR '' '' # ?f"
  have "peer_line repr peer = Inr (''haproxy_peer'' @ CHR '','' # ''section'' @ CHR ''='' # tag s @ ?rest)"
    using f assms(2,3) by (simp add: peer_line_def dict_index_def)
  moreover have "read_token (''haproxy_peer'' @ CHR '','' # ''section'' @ CHR ''='' # tag s @ ?rest) =
      (''haproxy_peer'', CHR '','' # ''section'' @ CHR ''='' # tag s @ ?rest)"
    by (rule read_plain) (simp_all add: special_def)
  moreover have "read_tags (CHR '','' # ''section'' @ CHR ''='' # tag s @ ?rest) =
      Some ([(''section'', s), (''peer'', name)], ?f)"
  proof -
    have "read_tags (CHR '' '' # ?f) = Some ([], ?f)" by (subst read_tags.simps) simp
    moreover have "read_tags ?rest = map_option (\<lambda>(tags, f). ((''peer'', name) # tags, f)) (read_tags (CHR '' '' # ?f))"
      using assms(4) by (intro read_tags_pair) (simp_all add: special_def)
    moreover have "read_tags (CHR '','' # ''section'' @ CHR ''='' # tag s @ ?rest) =
        map_option (\<lambda>(tags, f). ((''section'', s) # tags, f)) (read_tags ?rest)"
      using assms(4) by (intro read_tags_pair) (simp_all add: special_def)
    ultimately show ?thesis by simp
  qed
  ultimately show ?thesis using f by (simp add: read_line_def)
qed

definition example_peers :: string where
  "example_peers = ''0x1: [a] id=p1'' @ [NL] @ '' 0x2: id=gw,04(remote,x) state=EST''"

theorem peer_line_reads_witness:
  "\<exists>line flds. peer_line (\<lambda>_. ''0.0'') (hd (parse_peers example_peers)) = Inr line \<and>
    peer_fields (\<lambda>_. ''0.0'') (hd (parse_peers example_peers)) = Inr flds \<and>
    read_line line = Some (''haproxy_peer'', [(''section'', ''p1''), (''peer'', ''gw,04'')],
      join '','' (map (\<lambda>(k, v). k @ ''='' @ v) flds))"
proof -
  have p: "parse_peers example_peers = [[(''section'', ''p1''), (''peer'', ''gw,04''), (''state'', ''EST'')]]" by code_simp
  show ?thesis
    by (rule peer_line_reads [of _ example_peers]) (simp_all add: p dict_get_def)
qed

end
