(* ===== verification/Dhcpd_Context.thy ===== *)
theory Dhcpd_Context
  imports Ipaddr PyRegex PyJsonText PyArgparse
begin

text \<open>
  The converter of a guardian's \<open>dhcpd.conf\<close>, \<open>dhcp-server/dhcpd_to_context.py\<close>: blocks, subnets, hosts
  and the lease times. The dictionaries of the source with a fixed set of keys are records. A network is
  printed without the scope of its address, which a subnet statement cannot have.
\<close>

section \<open>Blocks\<close>

text \<open>\<open>s[a:b]\<close> for indices that are not negative.\<close>

definition slice :: "nat \<Rightarrow> nat \<Rightarrow> string \<Rightarrow> string" where
  "slice a b s = take (b - a) (drop a s)"

definition block_head :: "string \<Rightarrow> string" where
  "block_head s = strip (last (split_on CHR '';'' (strip s)))"

text \<open>The loop over the characters from index \<open>i\<close> on.\<close>

fun blocks_loop :: "string \<Rightarrow> string \<Rightarrow> nat \<Rightarrow> int \<Rightarrow> nat \<Rightarrow> nat \<Rightarrow> (string \<times> string) list" where
  "blocks_loop txt [] i depth start head_start = []"
| "blocks_loop txt (ch # chs) i depth start head_start =
     (if ch = CHR ''{'' then blocks_loop txt chs (i + 1) (depth + 1) (if depth = 0 then i else start) head_start
      else if ch = CHR ''}'' then
        if depth - 1 = 0 then
          (block_head (slice head_start start txt), slice (start + 1) i txt) #
            blocks_loop txt chs (i + 1) (depth - 1) start (i + 1)
        else blocks_loop txt chs (i + 1) (depth - 1) start head_start
      else blocks_loop txt chs (i + 1) depth start head_start)"

definition blocks :: "string \<Rightarrow> (string \<times> string) list" where
  "blocks txt = blocks_loop txt txt 0 0 0 0"

section \<open>Patterns\<close>

abbreviation rx_all :: rx where "rx_all \<equiv> RCls (\<lambda>_. True)"
abbreviation rx_ws :: rx where "rx_ws \<equiv> rx_plus rx_s"
abbreviation rx_quoted :: rx where "rx_quoted \<equiv> RSeq (rx_chr DQUOTE) (RSeq (RGrp 1 (rx_star (rx_not [DQUOTE]))) (rx_chr DQUOTE))"
abbreviation rx_to_semi :: rx where "rx_to_semi \<equiv> RSeq (RGrp 1 (rx_plus (rx_not '';''))) (rx_chr CHR '';'')"

definition strip_comments :: "string \<Rightarrow> string" where
  "strip_comments txt = rx_sub (RSeq (rx_chr CHR ''#'') (rx_star rx_dot)) (\<lambda>_. []) txt"

definition strip_blocks :: "string \<Rightarrow> string" where
  "strip_blocks txt = rx_sub (RSeq (rx_chr CHR ''{'') (RSeq (RStar False rx_all) (rx_chr CHR ''}''))) (\<lambda>_. []) txt"

definition search1 :: "rx \<Rightarrow> string \<Rightarrow> string option" where
  "search1 r s = map_option (\<lambda>(_, m). rx_group m 1) (rx_search r s)"

definition rx_domain :: rx where
  "rx_domain = rx_cat [rx_lit ''option'', rx_ws, rx_lit ''domain-name'', rx_ws, rx_quoted]"

definition sub_patterns :: "(string \<times> rx) list" where
  "sub_patterns =
     [(''routers'', rx_cat [rx_lit ''option'', rx_ws, rx_lit ''routers'', rx_ws, rx_to_semi]),
      (''dns'', rx_cat [rx_lit ''option'', rx_ws, rx_lit ''domain-name-servers'', rx_ws, rx_to_semi]),
      (''next_server'', rx_cat [rx_lit ''next-server'', rx_ws, rx_to_semi]),
      (''boot_file'', rx_cat [rx_lit ''filename'', rx_ws, rx_quoted, rx_chr CHR '';''])]"

definition rx_range :: rx where
  "rx_range = rx_cat [rx_lit ''range'', rx_ws, RGrp 1 (rx_plus rx_S), rx_ws, RGrp 2 (rx_plus rx_S), rx_chr CHR '';'']"

definition rx_lease :: "string \<Rightarrow> rx" where
  "rx_lease key = rx_cat [rx_lit key, rx_ws, RGrp 1 (rx_plus rx_d), rx_chr CHR '';'']"

definition rx_mac :: rx where
  "rx_mac = rx_cat [rx_lit ''hardware'', rx_ws, rx_lit ''ethernet'', rx_ws,
     RGrp 1 (rx_plus (RCls (\<lambda>c. is_hexdigit c \<or> c = CHR '':''))), rx_chr CHR '';'']"

definition rx_fixed :: rx where
  "rx_fixed = rx_cat [rx_lit ''fixed-address'', rx_ws, RGrp 1 (rx_plus (RCls (\<lambda>c. is_digit c \<or> c = CHR ''.''))), rx_chr CHR '';'']"

definition rx_hostname :: rx where
  "rx_hostname = rx_cat [rx_lit ''option'', rx_ws, rx_lit ''host-name'', rx_ws, rx_quoted]"

section \<open>Subnets and hosts\<close>

record reservation =
  res_mac :: string
  res_ip :: string
  res_hostname :: string

record subnet =
  sub_fields :: "(string, string) dict"
  sub_reservations :: "reservation list option"

record context_out =
  out_interfaces :: "string list"
  out_subnets :: "subnet list"
  out_domain_name :: "string option"
  out_valid_lifetime :: "int option"
  out_max_valid_lifetime :: "int option"

fun show_net :: "net \<Rightarrow> string" where
  "show_net (Net4 a p) = show_ip4 a @ ''/'' @ show_nat p"
| "show_net (Net6 a p) = show_ip6 a @ ''/'' @ show_nat p"

definition nth_word :: "string list \<Rightarrow> nat \<Rightarrow> string res" where
  "nth_word ws i = (if i < length ws then Inr (ws ! i) else Inl IndexError)"

definition sub_field :: "string \<Rightarrow> string \<times> rx \<Rightarrow> (string, string) dict \<Rightarrow> (string, string) dict" where
  "sub_field body kp sub =
     (case search1 (snd kp) body of
        None \<Rightarrow> sub
      | Some v \<Rightarrow> dict_set (fst kp)
          (if fst kp \<in> {''routers'', ''dns''} then filter (\<lambda>c. \<not> is_space c) v else strip v) sub)"

definition parse_network :: "string \<Rightarrow> net res" where
  "parse_network s = (case ip_network s of None \<Rightarrow> Inl (ValueError s) | Some n \<Rightarrow> Inr n)"

definition parse_address :: "string \<Rightarrow> ip res" where
  "parse_address s = (case ip_address s of None \<Rightarrow> Inl (ValueError s) | Some a \<Rightarrow> Inr a)"

definition lease_times :: "string \<Rightarrow> (string \<times> int) list res" where
  "lease_times body =
     rbind (rmap (\<lambda>key. rmap (\<lambda>m. rbind (py_int (rx_group m 1)) (\<lambda>v. Inr (key, v))) (rx_findall (rx_lease key) body))
       [''default-lease-time'', ''max-lease-time'']) (\<lambda>vs. Inr (concat vs))"

definition parse_subnet :: "string list \<Rightarrow> string \<Rightarrow> (subnet \<times> (string \<times> int) list) res" where
  "parse_subnet ws body =
     rbind (nth_word ws 1) (\<lambda>addr.
     rbind (nth_word ws 3) (\<lambda>netmask.
     rbind (parse_network (addr @ ''/'' @ netmask)) (\<lambda>net.
     let sub = fold (sub_field body) sub_patterns [(''subnet'', show_net net)] in
     rbind (case rx_search rx_range body of
         None \<Rightarrow> Inl (AttributeError ''group'')
       | Some (_, m) \<Rightarrow> Inr (rx_group m 1 @ '' - '' @ rx_group m 2)) (\<lambda>pool.
     rbind (lease_times body) (\<lambda>ls.
     Inr (\<lparr>sub_fields = dict_set ''pool'' pool sub, sub_reservations = None\<rparr>, ls))))))"

definition parse_host :: "string list \<Rightarrow> string \<Rightarrow> reservation res" where
  "parse_host ws body =
     rbind (case search1 rx_mac body of None \<Rightarrow> Inl (AttributeError ''group'') | Some m \<Rightarrow> Inr m) (\<lambda>mac.
     rbind (case search1 rx_fixed body of None \<Rightarrow> Inl (AttributeError ''group'') | Some i \<Rightarrow> Inr i) (\<lambda>ip.
     rbind (case search1 rx_hostname body of None \<Rightarrow> nth_word ws 1 | Some n \<Rightarrow> Inr n) (\<lambda>name.
     Inr \<lparr>res_mac = map to_lower mac, res_ip = ip, res_hostname = name\<rparr>)))"

text \<open>One block of the file: the subnets, the lease times and the hosts so far.\<close>

definition block_step ::
  "string \<times> string \<Rightarrow> subnet list \<times> (string \<times> int) list \<times> reservation list \<Rightarrow>
     (subnet list \<times> (string \<times> int) list \<times> reservation list) res" where
  "block_step hb st =
     (case hb of (head, body) \<Rightarrow> case st of (subs, lifetimes, hosts) \<Rightarrow>
      let ws = split_ws head in
      if take 1 ws = [''subnet''] then
        rbind (parse_subnet ws body) (\<lambda>(sub, ls). Inr (subs @ [sub], lifetimes @ ls, hosts))
      else if take 1 ws = [''host''] then
        rbind (parse_host ws body) (\<lambda>res. Inr (subs, lifetimes, hosts @ [res]))
      else Inr (subs, lifetimes, hosts))"

section \<open>Reservations\<close>

text \<open>The first subnet that contains the address gets the reservation.\<close>

definition add_reservation :: "reservation \<Rightarrow> subnet \<Rightarrow> subnet" where
  "add_reservation res sub = sub\<lparr>sub_reservations := Some (get_default (sub_reservations sub) [] @ [res])\<rparr>"

fun place :: "reservation \<Rightarrow> subnet list \<Rightarrow> subnet list res" where
  "place res [] = Inl (SystemExit (''reservation '' @ res_ip res @ '' fits no subnet''))"
| "place res (sub # subs) =
     rbind (parse_address (res_ip res)) (\<lambda>a.
     rbind (rbind (dict_index (sub_fields sub) ''subnet'') parse_network) (\<lambda>n.
     if in_net a n then Inr (add_reservation res sub # subs)
     else rbind (place res subs) (\<lambda>subs'. Inr (sub # subs'))))"

text \<open>One value for every lease time.\<close>

definition lifetime_of :: "string \<Rightarrow> (string \<times> int) list \<Rightarrow> int option res" where
  "lifetime_of key lifetimes =
     (case remdups (map snd (filter (\<lambda>kv. fst kv = key) lifetimes)) of
        [] \<Rightarrow> Inr None
      | [v] \<Rightarrow> Inr (Some v)
      | vs \<Rightarrow> Inl (SystemExit (''different '' @ key @ '' per pool: ['' @ join '', '' (map show_int (sort vs)) @ '']'')))"

definition parse_dhcpd :: "string \<Rightarrow> string list \<Rightarrow> int option \<Rightarrow> context_out res" where
  "parse_dhcpd source interfaces valid_lifetime =
     (let txt = strip_comments source; domain = search1 rx_domain (strip_blocks txt) in
      rbind (rfold block_step (blocks txt) ([], [], [])) (\<lambda>(subs, lifetimes, hosts).
      rbind (rfold place hosts subs) (\<lambda>subs.
      rbind (lifetime_of ''default-lease-time'' lifetimes) (\<lambda>valid.
      rbind (lifetime_of ''max-lease-time'' lifetimes) (\<lambda>max_valid.
      Inr \<lparr>out_interfaces = interfaces, out_subnets = subs, out_domain_name = domain,
        out_valid_lifetime = (case valid_lifetime of Some v \<Rightarrow> if v \<noteq> 0 then Some v else valid | None \<Rightarrow> valid),
        out_max_valid_lifetime = max_valid\<rparr>)))))"

text \<open>\<open>main\<close>: the interfaces of the command line, and the counts that \<open>--summary\<close> prints.\<close>

definition interfaces_of :: "string \<Rightarrow> string list" where
  "interfaces_of arg = filter (\<lambda>i. i \<noteq> []) (split_on CHR '','' arg)"

definition summary :: "context_out \<Rightarrow> nat \<times> nat \<times> string list" where
  "summary ctx = (length (out_subnets ctx),
     sum_list (map (\<lambda>s. length (get_default (sub_reservations s) [])) (out_subnets ctx)), out_interfaces ctx)"

text \<open>The context as the dictionary that is printed.\<close>

definition reservation_json :: "reservation \<Rightarrow> json" where
  "reservation_json r = jd [(''mac'', JStr (res_mac r)), (''ip'', JStr (res_ip r)), (''hostname'', JStr (res_hostname r))]"

definition subnet_json :: "subnet \<Rightarrow> json" where
  "subnet_json s = jd (map (\<lambda>(k, v). (k, JStr v)) (sub_fields s) @
     (case sub_reservations s of None \<Rightarrow> [] | Some rs \<Rightarrow> [(''reservations'', JList (map reservation_json rs))]))"

definition opt_item :: "string \<Rightarrow> json option \<Rightarrow> (string \<times> json) list" where
  "opt_item k v = (case v of None \<Rightarrow> [] | Some x \<Rightarrow> [(k, x)])"

definition context_json :: "context_out \<Rightarrow> json" where
  "context_json c = jd ([(''enabled'', JBool True), (''interfaces'', JList (map JStr (out_interfaces c))),
     (''subnets'', JList (map subnet_json (out_subnets c)))] @ opt_item ''domain_name'' (map_option JStr (out_domain_name c)) @
     opt_item ''valid_lifetime'' (map_option JInt (out_valid_lifetime c)) @
     opt_item ''max_valid_lifetime'' (map_option JInt (out_max_valid_lifetime c)))"

definition dhcpd_main :: "string \<Rightarrow> string \<Rightarrow> bool \<Rightarrow> string res" where
  "dhcpd_main source interfaces summary_only =
     rbind (parse_dhcpd source (interfaces_of interfaces) None) (\<lambda>ctx.
     Inr (if summary_only then
            (case summary ctx of (n, m, ifs) \<Rightarrow>
              json_dumps default_format (\<lambda>_. []) (jd [(''subnets'', JInt (int n)), (''reservations'', JInt (int m)),
                (''interfaces'', JList (map JStr ifs))]))
          else json_dumps (indent_format 2) (\<lambda>_. []) (jd [(''dhcp_guardian'', context_json ctx)])))"

definition dhcpd_parser :: arg_parser where
  "dhcpd_parser = argument_parser
     [opt_store ''--interfaces'' ''interfaces'' True ANone, opt_true [''--summary''] ''summary''] (Some (''file'', ''-''))"

text \<open>The program with its arguments; the contents of the standard input and of a file are parameters.\<close>

definition dhcpd_run ::
  "('w, string) act \<Rightarrow> (string \<Rightarrow> ('w, string) act) \<Rightarrow> string list \<Rightarrow> ('w, string) act" where
  "dhcpd_run stdin_read open_read argv =
     abind (alift (parse_args dhcpd_parser argv)) (\<lambda>ns.
     let file = get_default (ns_text ns ''file'') [] in
     abind (if file = ''-'' then stdin_read else open_read file) (\<lambda>source.
     alift (dhcpd_main source (get_default (ns_text ns ''interfaces'') []) (ns_flag ns ''summary''))))"

end
