(* ===== verification/Dhcpd_Props.thy ===== *)
theory Dhcpd_Props
  imports Dhcpd_Context PyJsonText_Props "HOL-Library.Code_Target_Nat"
begin

text \<open>
  The blocks of a file are found again, and every reservation goes to the first subnet that contains
  its address.
\<close>

section \<open>Blocks\<close>

text \<open>A body whose braces are balanced, from an inner depth on.\<close>

fun balanced :: "nat \<Rightarrow> string \<Rightarrow> bool" where
  "balanced d [] = (d = 0)"
| "balanced d (c # cs) =
     (if c = CHR ''{'' then balanced (d + 1) cs
      else if c = CHR ''}'' then 0 < d \<and> balanced (d - 1) cs
      else balanced d cs)"

text \<open>A head of a block as the parser gives it: no separators, no space around it.\<close>

definition plain_head :: "string \<Rightarrow> bool" where
  "plain_head h \<longleftrightarrow> strip h = h \<and> (\<forall>c \<in> set h. c \<notin> set ''{};'')"

definition show_block :: "string \<times> string \<Rightarrow> string" where
  "show_block b = fst b @ ''{'' @ snd b @ ''}''"

lemma block_head_plain: "plain_head h \<Longrightarrow> block_head h = h"
proof -
  assume h: "plain_head h"
  then have "split_on CHR '';'' h = [h]" by (intro split_on_fresh) (auto simp: plain_head_def)
  then show ?thesis using h by (simp add: block_head_def plain_head_def)
qed

lemma blocks_head:
  "\<forall>c \<in> set h. c \<notin> set ''{}'' \<Longrightarrow>
    blocks_loop txt (h @ CHR ''{'' # rest) i 0 start hs = blocks_loop txt rest (i + length h + 1) 1 (i + length h) hs"
  by (induction h arbitrary: i) auto

lemma blocks_body:
  "balanced d body \<Longrightarrow> blocks_loop txt (body @ CHR ''}'' # rest) i (int d + 1) start hs =
    (block_head (slice hs start txt), slice (start + 1) (i + length body) txt) #
      blocks_loop txt rest (i + length body + 1) 0 start (i + length body + 1)"
proof (induction body arbitrary: i d)
  case (Cons c cs)
  show ?case
  proof (cases "c = CHR ''{''")
    case True
    then show ?thesis using Cons.IH [of "d + 1" "i + 1"] Cons.prems by (simp add: add.commute)
  next
    case False
    show ?thesis
    proof (cases "c = CHR ''}''")
      case True
      then obtain d' where "d = Suc d'" "balanced d' cs" using Cons.prems by (cases d) auto
      then show ?thesis using Cons.IH [of d' "i + 1"] True by (simp add: add.commute)
    next
      case other: False
      then show ?thesis using Cons.IH [of d "i + 1"] Cons.prems False by simp
    qed
  qed
qed simp

lemma blocks_step:
  assumes "plain_head h" and "balanced 0 body" and "txt = pre @ show_block (h, body) @ rest"
  shows "blocks_loop txt (show_block (h, body) @ rest) (length pre) 0 start (length pre) =
    (h, body) # blocks_loop txt rest (length (pre @ show_block (h, body))) 0 (length pre + length h)
      (length (pre @ show_block (h, body)))"
proof -
  have "\<forall>c \<in> set h. c \<notin> set ''{}''" using assms(1) by (auto simp: plain_head_def)
  then have "blocks_loop txt (show_block (h, body) @ rest) (length pre) 0 start (length pre) =
      blocks_loop txt (body @ CHR ''}'' # rest) (length pre + length h + 1) (int 0 + 1) (length pre + length h) (length pre)"
    by (simp add: show_block_def blocks_head)
  also have "\<dots> = (block_head (slice (length pre) (length pre + length h) txt),
        slice (length pre + length h + 1) (length pre + length h + 1 + length body) txt) #
      blocks_loop txt rest (length pre + length h + 1 + length body + 1) 0 (length pre + length h)
        (length pre + length h + 1 + length body + 1)"
    by (rule blocks_body [OF assms(2)])
  also have "slice (length pre) (length pre + length h) txt = h" by (simp add: slice_def assms(3) show_block_def)
  also have "slice (length pre + length h + 1) (length pre + length h + 1 + length body) txt = body"
    by (simp add: slice_def assms(3) show_block_def)
  finally show ?thesis using block_head_plain [OF assms(1)] by (simp add: show_block_def add.assoc)
qed

text \<open>
  C38. The blocks of a file are found again: for every sequence of blocks with plain heads and bodies
  whose braces are balanced, however deeply nested, the parser gives exactly these heads and bodies, in their order.
\<close>

theorem blocks_roundtrip:
  assumes "\<forall>(h, body) \<in> set bs. plain_head h \<and> balanced 0 body"
  shows "blocks (concat (map show_block bs)) = bs"
proof -
  have "blocks_loop (pre @ concat (map show_block bs)) (concat (map show_block bs)) (length pre) 0 start (length pre) = bs"
    if "\<forall>(h, body) \<in> set bs. plain_head h \<and> balanced 0 body" for pre start
    using that
  proof (induction bs arbitrary: pre start)
    case (Cons b bs)
    obtain h body where b: "b = (h, body)" by force
    let ?txt = "pre @ show_block (h, body) @ concat (map show_block bs)"
    have "blocks_loop ?txt (show_block (h, body) @ concat (map show_block bs)) (length pre) 0 start (length pre) =
        (h, body) # blocks_loop ?txt (concat (map show_block bs)) (length (pre @ show_block (h, body))) 0 (length pre + length h)
          (length (pre @ show_block (h, body)))"
      using Cons.prems b by (intro blocks_step) auto
    then show ?case using Cons.IH [of "pre @ show_block (h, body)"] Cons.prems b by simp
  qed simp
  from this [of "[]" 0] assms show ?thesis by (simp add: blocks_def)
qed

theorem blocks_roundtrip_witness:
  "blocks (concat (map show_block [(''subnet 192.0.2.0'', ''a;pool {b;}''), (''host x'', [])])) =
    [(''subnet 192.0.2.0'', ''a;pool {b;}''), (''host x'', [])]"
proof (rule blocks_roundtrip)
  have "plain_head ''subnet 192.0.2.0''" "plain_head ''host x''" "balanced 0 ''a;pool {b;}''" by code_simp+
  then show "\<forall>(h, body) \<in> set [(''subnet 192.0.2.0'', ''a;pool {b;}''), (''host x'', [])]. plain_head h \<and> balanced 0 body"
    by simp
qed

text \<open>
  The text outside of blocks is found by a pattern that ends at the first closing brace, so the rest of an
  outer block counts as outside: a domain name after the pool of a subnet is taken for the global one.
\<close>

lemma nested_domain_name:
  "search1 rx_domain (strip_blocks (''subnet a {pool {}option domain-name '' @ [DQUOTE] @ ''x'' @ [DQUOTE] @ '';}'')) = Some ''x''"
  by code_simp

section \<open>Reservations\<close>

definition fits :: "reservation \<Rightarrow> subnet \<Rightarrow> bool" where
  "fits res sub \<longleftrightarrow> (case (ip_address (res_ip res), dict_get (sub_fields sub) ''subnet'') of
     (Some a, Some s) \<Rightarrow> (case ip_network s of Some n \<Rightarrow> in_net a n | None \<Rightarrow> False) | _ \<Rightarrow> False)"

text \<open>The reservations of a subnet, and those that belong to the \<open>i\<close>-th subnet: it is the first they fit.\<close>

definition reservations :: "subnet \<Rightarrow> reservation list" where
  "reservations sub = get_default (sub_reservations sub) []"

definition belongs :: "subnet list \<Rightarrow> nat \<Rightarrow> reservation \<Rightarrow> bool" where
  "belongs subs i res \<longleftrightarrow> i < length subs \<and> fits res (subs ! i) \<and> (\<forall>j < i. \<not> fits res (subs ! j))"

lemma fits_fields: "sub_fields sub = sub_fields sub' \<Longrightarrow> fits res sub = fits res sub'"
  by (simp add: fits_def)

lemma place_Inr:
  "place res subs = Inr subs' \<Longrightarrow> \<exists>i. belongs subs i res \<and> subs' = subs[i := add_reservation res (subs ! i)]"
proof (induction subs arbitrary: subs')
  case (Cons sub subs)
  then obtain a n s where a: "ip_address (res_ip res) = Some a" and s: "dict_get (sub_fields sub) ''subnet'' = Some s"
    and n: "ip_network s = Some n"
    by (auto simp: rbind_eq_Inr parse_address_def parse_network_def dict_index_def split: option.splits)
  have fit: "fits res sub \<longleftrightarrow> in_net a n" by (simp add: fits_def a s n)
  have step: "place res (sub # subs) = (if in_net a n then Inr (add_reservation res sub # subs)
      else rbind (place res subs) (\<lambda>subs'. Inr (sub # subs')))"
    by (simp add: parse_address_def parse_network_def dict_index_def a s n)
  show ?case
  proof (cases "in_net a n")
    case True
    then show ?thesis using Cons.prems step fit by (intro exI [of _ 0]) (simp add: belongs_def)
  next
    case False
    then obtain subs'' where "place res subs = Inr subs''" "subs' = sub # subs''"
      using Cons.prems unfolding step by (auto simp: rbind_eq_Inr)
    moreover from Cons.IH [OF this(1)] obtain i where "belongs subs i res" "subs'' = subs[i := add_reservation res (subs ! i)]"
      by blast
    ultimately show ?thesis using False fit
      by (intro exI [of _ "Suc i"]) (auto simp: belongs_def less_Suc_eq_0_disj)
  qed
qed simp

lemma belongs_unique: "belongs subs i res \<Longrightarrow> belongs subs j res \<Longrightarrow> i = j"
  unfolding belongs_def by (meson linorder_neqE_nat)

lemma belongs_fields: "map sub_fields subs = map sub_fields subs' \<Longrightarrow> belongs subs = belongs subs'"
proof -
  assume eq: "map sub_fields subs = map sub_fields subs'"
  then have len: "length subs = length subs'" by (metis length_map)
  have "fits res (subs ! i) = fits res (subs' ! i)" if "i < length subs" for res i
    using that eq len by (metis fits_fields nth_map)
  then show ?thesis by (auto simp: belongs_def len fun_eq_iff)
qed

lemma placed:
  assumes "rfold place hosts subs = Inr subs'"
  shows "map sub_fields subs' = map sub_fields subs \<and> (\<forall>r \<in> set hosts. \<exists>i. belongs subs i r) \<and>
    (\<forall>i < length subs. reservations (subs' ! i) = reservations (subs ! i) @ filter (belongs subs i) hosts)"
  using assms
proof (induction hosts arbitrary: subs)
  case (Cons r hosts)
  obtain subs1 where p: "place r subs = Inr subs1" and rest: "rfold place hosts subs1 = Inr subs'"
    using Cons.prems by (auto simp: rbind_eq_Inr)
  from place_Inr [OF p] obtain k where k: "belongs subs k r" and subs1: "subs1 = subs[k := add_reservation r (subs ! k)]"
    by blast
  have f: "map sub_fields subs1 = map sub_fields subs"
    using k by (simp add: subs1 map_update add_reservation_def belongs_def list_update_same_conv)
  have b: "belongs subs1 = belongs subs" by (rule belongs_fields [OF f])
  have res: "reservations (subs1 ! i) = reservations (subs ! i) @ (if belongs subs i r then [r] else [])"
    if "i < length subs" for i
  proof -
    have "belongs subs i r \<longleftrightarrow> i = k" using k belongs_unique [OF k, of i] by metis
    then show ?thesis using that by (cases "i = k") (simp_all add: subs1 reservations_def add_reservation_def)
  qed
  have IH: "map sub_fields subs' = map sub_fields subs1" "\<forall>r \<in> set hosts. \<exists>i. belongs subs1 i r"
    "\<And>i. i < length subs1 \<Longrightarrow> reservations (subs' ! i) = reservations (subs1 ! i) @ filter (belongs subs1 i) hosts"
    using Cons.IH [OF rest] by blast+
  have "reservations (subs' ! i) = reservations (subs ! i) @ filter (belongs subs i) (r # hosts)"
    if "i < length subs" for i
    using IH(3) [of i] res [OF that] that unfolding b by (simp add: subs1)
  then show ?case using IH(1,2) k unfolding b f by (intro conjI) (simp_all, blast)
qed simp

lemma map_nth_length: "map (\<lambda>i. f (xs ! i)) [0..<length xs] = map f xs"
  by (rule nth_equalityI) simp_all

lemma count_partition:
  "\<forall>r \<in> set hs. \<exists>i < n. B i r \<and> (\<forall>j < n. B j r \<longrightarrow> j = i) \<Longrightarrow>
    (\<Sum>i\<leftarrow>[0..<n]. length (filter (B i) hs)) = length hs"
proof (induction hs)
  case (Cons r hs)
  from bspec [OF Cons.prems list.set_intros(1)] obtain i where i: "i < n" "B i r" "\<forall>j < n. B j r \<longrightarrow> j = i"
    by (elim exE conjE)
  have "(\<Sum>j\<leftarrow>[0..<n]. if B j r then 1 else 0 :: nat) = (\<Sum>j \<in> {0..<n}. if j = i then 1 else 0)"
    unfolding interv_sum_list_conv_sum_set_nat
  proof (rule sum.cong)
    fix j
    assume "j \<in> {0..<n}"
    then have "B j r \<Longrightarrow> j = i" using i(3) by simp
    then show "(if B j r then 1 else 0 :: nat) = (if j = i then 1 else 0)" using i(2) by (cases "j = i") auto
  qed simp
  also have "\<dots> = 1" using i(1) by simp
  finally have "(\<Sum>j\<leftarrow>[0..<n]. if B j r then 1 else 0 :: nat) = 1" .
  moreover have "(\<Sum>j\<leftarrow>[0..<n]. length (filter (B j) (r # hs))) =
      (\<Sum>j\<leftarrow>[0..<n]. (if B j r then 1 else 0) + length (filter (B j) hs))"
    by (rule arg_cong [where f = sum_list]) simp
  ultimately show ?case using Cons by (simp add: sum_list_addf)
qed simp

text \<open>Subnets have no reservations while the blocks are read.\<close>

lemma blocks_no_reservations:
  assumes "rfold block_step bs ([], [], []) = Inr (subs, ls, hosts)"
  shows "\<forall>sub \<in> set subs. reservations sub = []"
proof -
  have "\<forall>sub \<in> set (fst (subs, ls, hosts)). reservations sub = []"
  proof (rule rfold_invariant [OF assms, where P = "\<lambda>st. \<forall>sub \<in> set (fst st). reservations sub = []"])
    fix hb st st'
    assume "\<forall>sub \<in> set (fst st). reservations sub = []" and "block_step hb st = Inr st'"
    then show "\<forall>sub \<in> set (fst st'). reservations sub = []"
      by (auto simp: block_step_def parse_subnet_def reservations_def Let_def rbind_eq_Inr split: prod.splits if_splits)
  qed simp
  then show ?thesis by simp
qed

text \<open>
  C39. No reservation is lost, duplicated or put elsewhere: when the converter gives a context, every host
  of the file belongs to exactly one subnet, the first one in the file that contains its address; every
  subnet of the context lists exactly its reservations in the order of the file, and the number that the summary prints is
  the number of hosts.
\<close>

theorem reservations_placed:
  assumes "parse_dhcpd source interfaces valid_lifetime = Inr ctx"
  shows "\<exists>subs ls hosts. rfold block_step (blocks (strip_comments source)) ([], [], []) = Inr (subs, ls, hosts) \<and>
    map sub_fields (out_subnets ctx) = map sub_fields subs \<and>
    (\<forall>i < length subs. reservations (out_subnets ctx ! i) = filter (belongs subs i) hosts) \<and>
    (\<forall>r \<in> set hosts. \<exists>!i. belongs subs i r) \<and> fst (snd (summary ctx)) = length hosts"
proof -
  obtain subs ls hosts subs' where blocks: "rfold block_step (blocks (strip_comments source)) ([], [], []) = Inr (subs, ls, hosts)"
    and place: "rfold place hosts subs = Inr subs'" and out: "out_subnets ctx = subs'"
    using assms by (auto simp: parse_dhcpd_def Let_def rbind_eq_Inr)
  note p = placed [OF place]
  have len: "length subs' = length subs" using p by (metis length_map)
  have res: "reservations (subs' ! i) = filter (belongs subs i) hosts" if "i < length subs" for i
    using p blocks_no_reservations [OF blocks] that by simp
  have one: "\<forall>r \<in> set hosts. \<exists>!i. belongs subs i r" using p belongs_unique by blast
  have "fst (snd (summary ctx)) = (\<Sum>i\<leftarrow>[0..<length subs']. length (reservations (subs' ! i)))"
    unfolding summary_def out reservations_def map_nth_length [of "\<lambda>s. length (get_default (sub_reservations s) [])"] by simp
  also have "\<dots> = (\<Sum>i\<leftarrow>[0..<length subs]. length (filter (belongs subs i) hosts))"
    unfolding len by (rule arg_cong [where f = sum_list], rule map_cong) (simp_all add: res)
  also have "\<dots> = length hosts"
    using one by (intro count_partition) (metis belongs_def)
  finally show ?thesis using blocks p res one out by (intro exI [of _ subs] exI [of _ ls] exI [of _ hosts]) simp
qed

definition example_conf :: string where
  "example_conf = ''subnet 10.0.0.0 netmask 255.0.0.0 {range 10.0.0.1 10.0.0.9;}host a {hardware ethernet 02:AB;fixed-address 10.0.0.2;}''"

theorem reservations_placed_witness:
  "\<exists>ctx subs ls hosts. parse_dhcpd example_conf [''eth0''] None = Inr ctx \<and>
    rfold block_step (blocks (strip_comments example_conf)) ([], [], []) = Inr (subs, ls, hosts) \<and>
    fst (snd (summary ctx)) = length hosts"
proof -
  have "isl (parse_dhcpd example_conf [''eth0''] None) = False" by code_simp
  then obtain ctx where ctx: "parse_dhcpd example_conf [''eth0''] None = Inr ctx"
    by (cases "parse_dhcpd example_conf [''eth0''] None") simp_all
  from reservations_placed [OF ctx] ctx show ?thesis by (elim exE conjE) (intro exI conjI)
qed

section \<open>The printed context\<close>

text \<open>The keys of a subnet are those of the converter, each once, and never \<open>reservations\<close>.\<close>

definition plain_fields :: "subnet \<Rightarrow> bool" where
  "plain_fields sub \<longleftrightarrow> wf_dict (sub_fields sub) \<and> ''reservations'' \<notin> set (dict_keys (sub_fields sub))"

lemma parse_subnet_fields: "parse_subnet ws body = Inr (sub, ls) \<Longrightarrow> plain_fields sub"
proof -
  let ?P = "\<lambda>d :: (string, string) dict. wf_dict d \<and> ''reservations'' \<notin> set (dict_keys d)"
  have set: "?P (dict_set k v d)" if "?P d" "k \<noteq> ''reservations''" for k v d
    using that by (auto simp: dict_keys_set)
  have field: "?P (sub_field body kp d)" if "fst kp \<noteq> ''reservations''" "?P d" for kp d
    using that(2) set [OF that(2,1)] unfolding sub_field_def by (cases "search1 (snd kp) body") simp_all
  have "?P (fold (sub_field body) sub_patterns [(''subnet'', show_net net)])" for net
  proof (rule fold_invariant [where Q = "\<lambda>kp. fst kp \<noteq> ''reservations''" and P = ?P])
    show "?P [(''subnet'', show_net net)]" by (simp add: wf_dict_def dict_keys_def)
    show "fst kp \<noteq> ''reservations''" if "kp \<in> set sub_patterns" for kp using that by (auto simp: sub_patterns_def)
  qed (rule field)
  from set [OF this] have "?P (dict_set ''pool'' v (fold (sub_field body) sub_patterns [(''subnet'', show_net net)]))" for v net
    by simp
  then show "parse_subnet ws body = Inr (sub, ls) \<Longrightarrow> plain_fields sub"
    unfolding parse_subnet_def plain_fields_def by (clarsimp simp: rbind_eq_Inr Let_def simp del: dict_keys_set wf_dict_set)
qed

lemma place_fields: "place res subs = Inr subs' \<Longrightarrow> \<forall>s \<in> set subs. plain_fields s \<Longrightarrow> \<forall>s \<in> set subs'. plain_fields s"
  by (induction subs arbitrary: subs') (auto simp: rbind_eq_Inr plain_fields_def add_reservation_def split: if_splits)

lemma context_fields:
  assumes "parse_dhcpd source interfaces v = Inr ctx"
  shows "\<forall>s \<in> set (out_subnets ctx). plain_fields s"
proof -
  obtain subs ls hosts subs' where blocks: "rfold block_step (blocks (strip_comments source)) ([], [], []) = Inr (subs, ls, hosts)"
    and places: "rfold place hosts subs = Inr subs'" and ctx: "out_subnets ctx = subs'"
    using assms by (auto simp: parse_dhcpd_def rbind_eq_Inr Let_def)
  have "\<forall>s \<in> set (fst (subs, ls, hosts)). plain_fields s"
    by (rule rfold_invariant [OF blocks, where P = "\<lambda>st. \<forall>s \<in> set (fst st). plain_fields s"])
      (auto simp: block_step_def rbind_eq_Inr Let_def dest: parse_subnet_fields split: prod.splits if_splits)
  then have "\<forall>s \<in> set subs'. plain_fields s"
    by (intro rfold_invariant [OF places, where P = "\<lambda>subs. \<forall>s \<in> set subs. plain_fields s"]) (auto dest: place_fields)
  then show ?thesis by (simp add: ctx)
qed

lemma subnet_keyed: "plain_fields s \<Longrightarrow> string_keyed (subnet_json s)"
  by (auto simp: subnet_json_def string_keyed_jd plain_fields_def wf_dict_def dict_keys_def comp_def split_def list_all_iff
      reservation_json_def split: option.split)

lemma string_floats: "floats_read r (jd kvs) \<longleftrightarrow> list_all (\<lambda>(k, v). floats_read r v) kvs"
  by (simp add: jd_def list.pred_map comp_def split_def)

lemma subnet_floats: "floats_read r (subnet_json s)"
  by (auto simp: subnet_json_def string_floats list_all_iff reservation_json_def split: option.split)

lemma dhcpd_arguments:
  assumes "is_value dhcpd_parser interfaces"
  shows "dhcpd_run stdin_read open_read [''--interfaces'', interfaces] =
    abind stdin_read (\<lambda>source. alift (dhcpd_main source interfaces False))"
proof -
  note defs = dhcpd_parser_def argument_parser_def opt_store_def opt_true_def opt_show_def
  let ?opts = "[(''interfaces'', Some interfaces)]"
  have line: "command_line ?opts = [''--interfaces'', interfaces]" by (simp add: command_line_def option_words_def)
  have "list_all (known_option dhcpd_parser) ?opts"
    by (simp add: known_option_def defs flag_table_def)
  then have "if values_fit dhcpd_parser ?opts then \<exists>ns. parse_args dhcpd_parser (command_line ?opts) = Inr ns \<and>
      (\<forall>k. dict_get ns k = (case map_of ?opts k of None \<Rightarrow> dict_get (defaults dhcpd_parser) k | Some v \<Rightarrow> Some (stored_value v)))
    else parse_args dhcpd_parser (command_line ?opts) = arg_error"
    by (rule parse_command_line) (simp_all add: defs)
  moreover have "values_fit dhcpd_parser ?opts" using assms by (simp add: values_fit_def)
  ultimately obtain ns where ns: "parse_args dhcpd_parser [''--interfaces'', interfaces] = Inr ns"
    and get: "\<And>k. dict_get ns k = (case map_of ?opts k of None \<Rightarrow> dict_get (defaults dhcpd_parser) k | Some v \<Rightarrow> Some (stored_value v))"
    unfolding line by auto
  have "ns_text ns ''file'' = Some ''-''" "ns_text ns ''interfaces'' = Some interfaces" "\<not> ns_flag ns ''summary''"
    unfolding ns_text_def ns_flag_def get by (simp_all add: defs defaults_def stored_value_def dict_get_def dict_set_def)
  then show ?thesis by (simp add: dhcpd_run_def ns)
qed

text \<open>
  What the converter prints, run as its documentation says, is the context: the text decodes to a
  dictionary with the context as its value.
\<close>

theorem context_printed:
  assumes "is_value dhcpd_parser interfaces" and "stdin_read w = (Inr source, w')"
    and "parse_dhcpd source (interfaces_of interfaces) None = Inr ctx"
  shows "\<exists>t. dhcpd_run stdin_read open_read [''--interfaces'', interfaces] w = (Inr t, w') \<and>
    json_loads t = Some (jd [(''dhcp_guardian'', context_json ctx)])"
proof -
  note assms = assms(3,1,2)
  have "string_keyed (context_json ctx)"
    using context_fields [OF assms(1)] subnet_keyed
    by (auto simp: context_json_def string_keyed_jd opt_item_def list_all_iff split: option.split)
  moreover have "floats_read (\<lambda>_. []) (context_json ctx)"
    using subnet_floats by (auto simp: context_json_def string_floats opt_item_def list_all_iff split: option.split)
  ultimately have "json_loads (json_dumps (indent_format 2) (\<lambda>_. []) (jd [(''dhcp_guardian'', context_json ctx)])) =
      Some (jd [(''dhcp_guardian'', context_json ctx)])"
    by (intro json_loads_dumps_id) (simp_all add: string_keyed_jd string_floats)
  then show ?thesis unfolding dhcpd_arguments [OF assms(2)] by (simp add: dhcpd_main_def assms abind_def alift_def)
qed

end
