(* ===== verification/Geoip_Maps.thy ===== *)
theory Geoip_Maps
  imports PyJson
begin

text \<open>
  The maps of HAProxy from the GeoLite2 databases, \<open>haproxy/files/generate_geoip_maps.py\<close>. A database is
  what the package \<open>maxminddb\<close> iterates over, the networks as text with their records; \<open>None\<close> stands for a
  database that is not there. The parameter \<open>other\<close> is the text of values that are neither names nor numbers (see
  \<open>jstr\<close>).
\<close>

section \<open>The databases\<close>

text \<open>\<open>a.get(k) or b\<close> and the guarded lookups of the loop over the cities.\<close>

definition country_of :: "json \<Rightarrow> json res" where
  "country_of record =
     rbind (rbind (jget_opt record ''country'') (\<lambda>c. if jtruth c then Inr c else jget_opt record ''registered_country'')) (\<lambda>c.
     rbind (if jtruth c then rbind (jget_opt c ''names'') (\<lambda>names.
         if jtruth names then rbind (jget c ''names'') (\<lambda>names. jget_opt names ''en'') else Inr JNull)
       else Inr JNull) (\<lambda>country.
     if \<not> jtruth country \<and> jtruth c then jget_opt c ''iso_code'' else Inr country))"

definition city_of :: "json \<Rightarrow> json res" where
  "city_of record =
     rbind (jget_opt record ''city'') (\<lambda>city.
     if \<not> jtruth city then Inr JNull
     else rbind (rbind (jget record ''city'') (\<lambda>city. jget_opt city ''names'')) (\<lambda>names.
       if jtruth names then rbind (rbind (jget record ''city'') (\<lambda>city. jget city ''names'')) (\<lambda>names. jget_opt names ''en'')
       else Inr JNull))"

type_synonym geo_map = "(string, json) dict"

definition put_if :: "string \<Rightarrow> json \<Rightarrow> geo_map \<Rightarrow> geo_map" where
  "put_if net v m = (if jtruth v then dict_set net v m else m)"

definition city_step :: "string \<times> json \<Rightarrow> geo_map \<times> geo_map \<Rightarrow> (geo_map \<times> geo_map) res" where
  "city_step nr maps =
     (case nr of (net, record) \<Rightarrow> case maps of (country_map, city_map) \<Rightarrow>
      if record = JNull then Inr maps
      else rbind (country_of record) (\<lambda>country.
           rbind (city_of record) (\<lambda>city.
           Inr (put_if net country country_map, put_if net city city_map))))"

definition asn_step ::
  "(json \<Rightarrow> string) \<Rightarrow> string \<times> json \<Rightarrow> geo_map \<times> geo_map \<Rightarrow> (geo_map \<times> geo_map) res" where
  "asn_step other nr maps =
     (case nr of (net, record) \<Rightarrow> case maps of (provider_map, asn_map) \<Rightarrow>
      if record = JNull then Inr maps
      else rbind (jget_opt record ''autonomous_system_organization'') (\<lambda>org.
           rbind (jget_opt record ''autonomous_system_number'') (\<lambda>asn.
           Inr (put_if net org provider_map, if jtruth asn then dict_set net (JStr (jstr other asn)) asn_map else asn_map))))"

section \<open>The files\<close>

text \<open>\<open>sorted(data.items())\<close>: the networks are distinct, so the values are never compared.\<close>

definition write_map :: "(json \<Rightarrow> string) \<Rightarrow> geo_map \<Rightarrow> string" where
  "write_map other data = concat (map (\<lambda>(network, value). network @ '' '' @ jstr other value @ [NL]) (sort_key fst data))"

definition generate_maps ::
  "(json \<Rightarrow> string) \<Rightarrow> (string \<times> json) list option \<Rightarrow> (string \<times> json) list option \<Rightarrow> (string \<times> string) list res" where
  "generate_maps other city_db asn_db =
     rbind (case city_db of None \<Rightarrow> Inr ([], []) | Some db \<Rightarrow> rfold city_step db ([], [])) (\<lambda>(country_map, city_map).
     rbind (case asn_db of None \<Rightarrow> Inr ([], []) | Some db \<Rightarrow> rfold (asn_step other) db ([], [])) (\<lambda>(provider_map, asn_map).
     Inr [(''geoip_country.map'', write_map other country_map), (''geoip_city.map'', write_map other city_map),
          (''geoip_provider.map'', write_map other provider_map), (''geoip_asn.map'', write_map other asn_map)]))"

section \<open>Reading a map\<close>

text \<open>A line of a map: the network up to the first space, the value after it.\<close>

definition read_map :: "string \<Rightarrow> (string \<times> string) list" where
  "read_map s = map (\<lambda>l. case partition_on CHR '' '' l of (n, _, v) \<Rightarrow> (n, v)) (butlast (split_on NL s))"

lemma read_write_map:
  assumes "\<forall>(n, v) \<in> set data. CHR '' '' \<notin> set n \<and> NL \<notin> set n \<and> NL \<notin> set (jstr other v)"
  shows "read_map (write_map other data) = map (\<lambda>(n, v). (n, jstr other v)) (sort_key fst data)"
proof -
  have "read_map (concat (map (\<lambda>(n, v). n @ '' '' @ jstr other v @ [NL]) d)) = map (\<lambda>(n, v). (n, jstr other v)) d"
    if "\<forall>(n, v) \<in> set d. CHR '' '' \<notin> set n \<and> NL \<notin> set n \<and> NL \<notin> set (jstr other v)" for d
    using that
  proof (induction d)
    case (Cons nv d)
    obtain n v where nv: "nv = (n, v)" by force
    let ?rest = "concat (map (\<lambda>(n, v). n @ '' '' @ jstr other v @ [NL]) d)"
    have "split_on NL ((n @ '' '' @ jstr other v) @ NL # ?rest) = (n @ '' '' @ jstr other v) # split_on NL ?rest"
      using Cons.prems nv by (intro split_on_append) auto
    moreover have "partition_on CHR '' '' (n @ CHR '' '' # jstr other v) = (n, True, jstr other v)"
      using Cons.prems nv by (intro partition_on_append) auto
    ultimately show ?case using Cons nv by (simp add: read_map_def)
  qed (simp add: read_map_def)
  then show ?thesis using assms by (simp add: write_map_def)
qed

section \<open>What a loop stores\<close>

text \<open>
  The two loops store into two maps each. What they share: a step stores at most one value per map,
  under the network of the record; so the map holds for every network the value of its last record that has one.
\<close>

definition stored :: "(json \<Rightarrow> json option) \<Rightarrow> (string \<times> json) list \<Rightarrow> (string \<times> json) list" where
  "stored val db = concat (map (\<lambda>(n, r). case (if r = JNull then None else val r) of None \<Rightarrow> [] | Some v \<Rightarrow> [(n, v)]) db)"

definition clean :: "(json \<Rightarrow> string) \<Rightarrow> (string \<times> json) list \<Rightarrow> bool" where
  "clean other kvs \<longleftrightarrow> (\<forall>(n, v) \<in> set kvs. CHR '' '' \<notin> set n \<and> NL \<notin> set n \<and> NL \<notin> set (jstr other v))"

definition holds_last :: "(json \<Rightarrow> string) \<Rightarrow> (string \<times> json) list \<Rightarrow> string \<Rightarrow> bool" where
  "holds_last other kvs s \<longleftrightarrow> sorted (map fst (read_map s)) \<and> distinct (map fst (read_map s)) \<and>
     (\<forall>n. map_of (read_map s) n = map_option (jstr other) (map_of (rev kvs) n))"

locale geo_loop =
  fixes step :: "string \<times> json \<Rightarrow> geo_map \<times> geo_map \<Rightarrow> (geo_map \<times> geo_map) res"
    and part :: "geo_map \<times> geo_map \<Rightarrow> geo_map"
    and val :: "json \<Rightarrow> json option"
  assumes step_part: "step (n, r) maps = Inr maps' \<Longrightarrow>
    part maps' = (case (if r = JNull then None else val r) of None \<Rightarrow> part maps | Some v \<Rightarrow> dict_set n v (part maps))"
begin

lemma loop_part: "rfold step db maps = Inr maps' \<Longrightarrow> part maps' = fold (\<lambda>(n, v) d. dict_set n v d) (stored val db) (part maps)"
proof (induction db arbitrary: maps)
  case (Cons nr db)
  obtain n r where nr: "nr = (n, r)" by force
  obtain maps1 where "step nr maps = Inr maps1" "rfold step db maps1 = Inr maps'"
    using Cons.prems by (auto simp: rbind_eq_Inr simp del: split_paired_Ex)
  then show ?case using Cons.IH step_part [of n r maps maps1] nr by (auto simp: stored_def split: option.splits)
qed (simp add: stored_def)

lemma file_holds_last:
  assumes "rfold step db maps = Inr maps'" and "part maps = []" and "clean other (stored val db)"
  shows "holds_last other (stored val db) (write_map other (part maps'))"
proof -
  let ?d = "part maps'"
  have d: "?d = dict_of (stored val db)" using loop_part [OF assms(1)] assms(2) by (simp add: dict_of_def)
  have get: "map_of ?d n = map_of (rev (stored val db)) n" for n
    unfolding d by (simp add: dict_get_of flip: dict_get_def)
  have dist: "distinct (map fst ?d)" unfolding d using wf_dict_of [of "stored val db"] by (simp add: wf_dict_def dict_keys_def)
  have "set ?d \<subseteq> set (stored val db)"
  proof
    fix x
    assume "x \<in> set ?d"
    then have "map_of ?d (fst x) = Some (snd x)" using dist by (simp add: map_of_eq_Some_iff)
    then have "map_of (rev (stored val db)) (fst x) = Some (snd x)" by (simp only: get)
    then show "x \<in> set (stored val db)" using map_of_SomeD [of "rev (stored val db)" "fst x" "snd x"] by simp
  qed
  then have read: "read_map (write_map other ?d) = map (\<lambda>(n, v). (n, jstr other v)) (sort_key fst ?d)"
    using assms(3) by (intro read_write_map) (auto simp: clean_def)
  have fsts: "map fst (read_map (write_map other ?d)) = map fst (sort_key fst ?d)" by (simp add: read case_prod_beta)
  have dist': "distinct (map fst (sort_key fst ?d))"
    using dist by (metis mset_map mset_sort mset_eq_imp_distinct_iff)
  have same: "map_of (sort_key fst ?d) = map_of ?d"
    using dist' dist by (intro map_of_eqI) (auto simp: map_of_eq_Some_iff)
  have texts: "map_of (map (\<lambda>(n, v). (n, jstr other v)) d) n = map_option (jstr other) (map_of d n)" for d n
    by (induction d) auto
  have "map_of (read_map (write_map other ?d)) n = map_option (jstr other) (map_of (rev (stored val db)) n)" for n
    unfolding read texts same get by (rule refl)
  then show ?thesis using dist' unfolding holds_last_def fsts by simp
qed

end

text \<open>
  The values, as the keys of the record give them: \<open>given_at ks r\<close> is what lies at the path of keys \<open>ks\<close>, if every
  value on the way is there and true.
\<close>

fun given_at :: "string list \<Rightarrow> json \<Rightarrow> json option" where
  "given_at [] v = (if jtruth v then Some v else None)"
| "given_at (k # ks) (JDict d) = (case dict_get d (JStr k) of None \<Rightarrow> None | Some u \<Rightarrow> if jtruth u then given_at ks u else None)"
| "given_at (k # ks) v = None"

fun first_of :: "'a option list \<Rightarrow> 'a option" where
  "first_of [] = None"
| "first_of (Some x # xs) = Some x"
| "first_of (None # xs) = first_of xs"

definition country_value :: "json \<Rightarrow> json option" where
  "country_value r = (let place = if given_at [''country''] r \<noteq> None then ''country'' else ''registered_country''
     in first_of [given_at [place, ''names'', ''en''] r, given_at [place, ''iso_code''] r])"

definition city_value :: "json \<Rightarrow> json option" where
  "city_value r = given_at [''city'', ''names'', ''en''] r"

definition provider_value :: "json \<Rightarrow> json option" where
  "provider_value r = given_at [''autonomous_system_organization''] r"

definition asn_value :: "(json \<Rightarrow> string) \<Rightarrow> json \<Rightarrow> json option" where
  "asn_value other r = map_option (\<lambda>v. JStr (jstr other v)) (given_at [''autonomous_system_number''] r)"

definition true_value :: "json \<Rightarrow> json option" where
  "true_value v = (if jtruth v then Some v else None)"

lemma jget_opt_given: "jget_opt r k = Inr v \<Longrightarrow> given_at (k # ks) r = (if jtruth v then given_at ks v else None)"
  by (cases r) (auto split: option.splits)

lemma true_value_JNull [simp]: "true_value JNull = None"
  by (simp add: true_value_def)

lemma jget_true: "jget_opt r k = Inr v \<Longrightarrow> jtruth v \<Longrightarrow> jget r k = Inr v"
  by (cases "(r, k)" rule: jget_opt.cases) (auto simp: get_default_def split: option.splits)

text \<open>The English name of a place, from its record.\<close>

lemma english_name:
  assumes "jget_opt c ''names'' = Inr names" and "v = (if jtruth names then rbind (jget c ''names'') (\<lambda>names. jget_opt names ''en'') else Inr JNull)"
    and "v = Inr u"
  shows "true_value u = given_at [''names'', ''en''] c"
proof (cases "jtruth names")
  case True
  then have "jget c ''names'' = Inr names" by (rule jget_true [OF assms(1)])
  then have "jget_opt names ''en'' = Inr u" using True assms(2,3) by simp
  then show ?thesis using True by (simp add: jget_opt_given [OF assms(1)] jget_opt_given true_value_def)
next
  case False
  then show ?thesis using assms(2,3) by (simp add: jget_opt_given [OF assms(1)] true_value_def)
qed

lemma country_of_value:
  assumes "country_of r = Inr v"
  shows "true_value v = country_value r"
proof -
  let ?place = "if given_at [''country''] r \<noteq> None then ''country'' else ''registered_country''"
  obtain c where c: "rbind (jget_opt r ''country'') (\<lambda>c. if jtruth c then Inr c else jget_opt r ''registered_country'') = Inr c"
    using assms unfolding country_of_def rbind_eq_Inr by blast
  have place: "given_at (?place # ks) r = (if jtruth c then given_at ks c else None)" for ks
  proof -
    obtain c0 where c0: "jget_opt r ''country'' = Inr c0" using c unfolding rbind_eq_Inr by blast
    show ?thesis using c by (cases "jtruth c0") (simp_all add: c0 jget_opt_given [OF c0] jget_opt_given)
  qed
  have val: "country_value r = first_of [given_at [?place, ''names'', ''en''] r, given_at [?place, ''iso_code''] r]"
    by (simp add: country_value_def Let_def)
  show ?thesis
  proof (cases "jtruth c")
    case False
    then show ?thesis using assms c unfolding val place by (simp add: country_of_def)
  next
    case True
    then obtain names u where names: "jget_opt c ''names'' = Inr names"
      and u: "(if jtruth names then rbind (jget c ''names'') (\<lambda>names. jget_opt names ''en'') else Inr JNull) = Inr u"
      and v: "(if \<not> jtruth u then jget_opt c ''iso_code'' else Inr u) = Inr v"
      using assms c unfolding country_of_def by (auto simp: rbind_eq_Inr simp del: split_paired_Ex)
    note english = english_name [OF names refl u]
    show ?thesis
    proof (cases "jtruth u")
      case u': True
      then have "given_at [''names'', ''en''] c = Some v" "true_value v = Some v"
        using english v by (simp_all add: true_value_def)
      then show ?thesis using True unfolding val place by simp
    next
      case u': False
      then have "jget_opt c ''iso_code'' = Inr v" "given_at [''names'', ''en''] c = None"
        using v english by (simp_all add: true_value_def)
      then show ?thesis using True unfolding val place by (simp add: jget_opt_given true_value_def del: given_at.simps(2))
    qed
  qed
qed

lemma city_of_value:
  assumes "city_of r = Inr v"
  shows "true_value v = city_value r"
proof -
  obtain t where t: "jget_opt r ''city'' = Inr t" using assms unfolding city_of_def rbind_eq_Inr by blast
  show ?thesis
  proof (cases "jtruth t")
    case False
    then show ?thesis using assms by (simp add: city_of_def t city_value_def jget_opt_given [OF t])
  next
    case True
    then have get: "jget r ''city'' = Inr t" by (rule jget_true [OF t])
    obtain names where names: "jget_opt t ''names'' = Inr names"
      and v: "(if jtruth names then rbind (jget t ''names'') (\<lambda>names. jget_opt names ''en'') else Inr JNull) = Inr v"
      using assms True unfolding city_of_def t get rbind_Inr
      by (auto simp: rbind_eq_Inr [of "jget_opt _ _"])
    show ?thesis using english_name [OF names refl v] True by (simp add: city_value_def jget_opt_given [OF t])
  qed
qed

lemma put_if_value: "put_if n v m = (case true_value v of None \<Rightarrow> m | Some u \<Rightarrow> dict_set n u m)"
  by (simp add: put_if_def true_value_def)

lemma city_stepE:
  assumes "city_step (n, r) maps = Inr maps'"
  obtains "r = JNull" "maps' = maps"
  | c t where "r \<noteq> JNull" "country_of r = Inr c" "city_of r = Inr t" "maps' = (put_if n c (fst maps), put_if n t (snd maps))"
  using assms by (cases maps) (auto simp: city_step_def rbind_eq_Inr split: if_splits)

lemma asn_stepE:
  assumes "asn_step other (n, r) maps = Inr maps'"
  obtains "r = JNull" "maps' = maps"
  | p a where "r \<noteq> JNull" "jget_opt r ''autonomous_system_organization'' = Inr p"
      "jget_opt r ''autonomous_system_number'' = Inr a"
      "maps' = (put_if n p (fst maps), if jtruth a then dict_set n (JStr (jstr other a)) (snd maps) else snd maps)"
  using assms by (cases maps) (auto simp: asn_step_def rbind_eq_Inr split: if_splits)

interpretation country: geo_loop city_step fst country_value
  by unfold_locales (erule city_stepE; simp add: put_if_value country_of_value)

interpretation city: geo_loop city_step snd city_value
  by unfold_locales (erule city_stepE; simp add: put_if_value city_of_value)

interpretation provider: geo_loop "asn_step other" fst provider_value for other
  by unfold_locales (erule asn_stepE; simp add: provider_value_def jget_opt_given put_if_def)

interpretation asn: geo_loop "asn_step other" snd "asn_value other" for other
  by unfold_locales (erule asn_stepE; simp add: asn_value_def jget_opt_given)

text \<open>
  C40. The files of the maps hold the databases: when they are generated from networks without spaces
  and values without line feeds, each of the four files, read line by line, has every network at most once and
  in order, with the value of its last record that has one and no other networks. The country of a record
  is the English name of its country, or of its registered country when no country is given; without an English name it
  is the ISO code of the same country. The city is the English name of the city, the provider the
  organization of the autonomous system, and the fourth map has the number of the system.
\<close>

theorem maps_hold_databases:
  assumes "generate_maps other (Some city_db) (Some asn_db) = Inr files"
    and "clean other (stored country_value city_db)" and "clean other (stored city_value city_db)"
    and "clean other (stored provider_value asn_db)" and "clean other (stored (asn_value other) asn_db)"
  shows "\<exists>country city provider asn.
    files = [(''geoip_country.map'', country), (''geoip_city.map'', city), (''geoip_provider.map'', provider), (''geoip_asn.map'', asn)] \<and>
    holds_last other (stored country_value city_db) country \<and> holds_last other (stored city_value city_db) city \<and>
    holds_last other (stored provider_value asn_db) provider \<and> holds_last other (stored (asn_value other) asn_db) asn"
proof -
  obtain cm ct pm am where c: "rfold city_step city_db ([], []) = Inr (cm, ct)" and a: "rfold (asn_step other) asn_db ([], []) = Inr (pm, am)"
    and f: "files = [(''geoip_country.map'', write_map other cm), (''geoip_city.map'', write_map other ct),
      (''geoip_provider.map'', write_map other pm), (''geoip_asn.map'', write_map other am)]"
    using assms(1) by (auto simp: generate_maps_def rbind_eq_Inr)
  have "holds_last other (stored country_value city_db) (write_map other cm)"
    using country.file_holds_last [OF c _ assms(2)] by simp
  moreover have "holds_last other (stored city_value city_db) (write_map other ct)"
    using city.file_holds_last [OF c _ assms(3)] by simp
  moreover have "holds_last other (stored provider_value asn_db) (write_map other pm)"
    using provider.file_holds_last [OF a _ assms(4)] by simp
  moreover have "holds_last other (stored (asn_value other) asn_db) (write_map other am)"
    using asn.file_holds_last [OF a _ assms(5)] by simp
  ultimately show ?thesis using f by simp
qed

definition example_cities :: "(string \<times> json) list" where
  "example_cities = [(''2.0.0.0/8'', jd [(''country'', jd [(''iso_code'', JStr ''DE'')])]), (''1.0.0.0/8'', JNull),
     (''1.0.0.0/8'', jd [(''registered_country'', jd [(''names'', jd [(''en'', JStr ''Viet Nam'')])]),
        (''city'', jd [(''names'', jd [(''en'', JStr ''Hanoi'')])])])]"

definition example_asns :: "(string \<times> json) list" where
  "example_asns = [(''1.0.0.0/8'', jd [(''autonomous_system_number'', JInt 7)])]"

theorem maps_hold_databases_witness:
  "\<exists>country city provider asn.
    generate_maps (\<lambda>_. []) (Some example_cities) (Some example_asns) =
      Inr [(''geoip_country.map'', country), (''geoip_city.map'', city), (''geoip_provider.map'', provider), (''geoip_asn.map'', asn)] \<and>
    map_of (read_map country) ''1.0.0.0/8'' = Some ''Viet Nam'' \<and> map_of (read_map country) ''2.0.0.0/8'' = Some ''DE'' \<and>
    map_of (read_map city) ''1.0.0.0/8'' = Some ''Hanoi'' \<and> map_of (read_map provider) ''1.0.0.0/8'' = None \<and>
    map_of (read_map asn) ''1.0.0.0/8'' = Some ''7''"
proof -
  have "isl (generate_maps (\<lambda>_. []) (Some example_cities) (Some example_asns)) = False" by code_simp
  then obtain files where g: "generate_maps (\<lambda>_. []) (Some example_cities) (Some example_asns) = Inr files"
    by (cases "generate_maps (\<lambda>_. []) (Some example_cities) (Some example_asns)") simp_all
  have clean: "clean (\<lambda>_. []) (stored country_value example_cities)" "clean (\<lambda>_. []) (stored city_value example_cities)"
    "clean (\<lambda>_. []) (stored provider_value example_asns)" "clean (\<lambda>_. []) (stored (asn_value (\<lambda>_. [])) example_asns)"
    by code_simp+
  have vals: "map_option (jstr (\<lambda>_. [])) (map_of (rev (stored country_value example_cities)) ''1.0.0.0/8'') = Some ''Viet Nam''"
    "map_option (jstr (\<lambda>_. [])) (map_of (rev (stored country_value example_cities)) ''2.0.0.0/8'') = Some ''DE''"
    "map_option (jstr (\<lambda>_. [])) (map_of (rev (stored city_value example_cities)) ''1.0.0.0/8'') = Some ''Hanoi''"
    "map_option (jstr (\<lambda>_. [])) (map_of (rev (stored provider_value example_asns)) ''1.0.0.0/8'') = None"
    "map_option (jstr (\<lambda>_. [])) (map_of (rev (stored (asn_value (\<lambda>_. [])) example_asns)) ''1.0.0.0/8'') = Some ''7''"
    by code_simp+
  from maps_hold_databases [OF g clean] obtain country city provider asn where
    "files = [(''geoip_country.map'', country), (''geoip_city.map'', city), (''geoip_provider.map'', provider), (''geoip_asn.map'', asn)]"
    "holds_last (\<lambda>_. []) (stored country_value example_cities) country" "holds_last (\<lambda>_. []) (stored city_value example_cities) city"
    "holds_last (\<lambda>_. []) (stored provider_value example_asns) provider"
    "holds_last (\<lambda>_. []) (stored (asn_value (\<lambda>_. [])) example_asns) asn"
    by blast
  then show ?thesis using g vals by (intro exI [of _ country] exI [of _ city] exI [of _ provider] exI [of _ asn] conjI)
    (simp_all only: holds_last_def)
qed

end
