(* ===== verification/Mattermost.thy ===== *)
theory Mattermost
  imports PyJsonText_Props PyArgparse
begin

text \<open>
  Notifications of Icinga to Mattermost, \<open>icinga2/mattermost-notifications.py\<close>: the text of a message, the
  payload and the body of the request. The parsed command line is a record; an option that is not given
  is \<open>None\<close>. The HTTP request is a parameter.
\<close>

section \<open>The command line\<close>

record args =
  a_url :: string
  a_channel :: "string option"
  a_username :: string
  a_iconurl :: string
  a_notificationtype :: string
  a_hostalias :: string
  a_hoststate :: "string option"
  a_hostoutput :: "string option"
  a_servicedesc :: "string option"
  a_servicestate :: "string option"
  a_serviceoutput :: "string option"
  a_author :: "string option"
  a_comment :: "string option"
  a_oneline :: bool

definition mattermost_parser :: arg_parser where
  "mattermost_parser = argument_parser
     [opt_store ''--url'' ''url'' True ANone,
      opt_store ''--channel'' ''channel'' False ANone,
      opt_store ''--username'' ''username'' False (AText ''Icinga''),
      opt_store ''--iconurl'' ''iconurl'' False
        (AText ''https://s3.amazonaws.com/cloud.ohloh.net/attachments/50631/icinga_logo_med.png''),
      opt_store ''--notificationtype'' ''notificationtype'' True ANone,
      opt_store ''--hostalias'' ''hostalias'' True ANone,
      opt_store ''--hoststate'' ''hoststate'' False ANone,
      opt_store ''--hostoutput'' ''hostoutput'' False ANone,
      opt_store ''--servicedesc'' ''servicedesc'' False ANone,
      opt_store ''--servicestate'' ''servicestate'' False ANone,
      opt_store ''--serviceoutput'' ''serviceoutput'' False ANone,
      opt_store ''--author'' ''author'' False ANone,
      opt_store ''--comment'' ''comment'' False ANone,
      opt_true [''--oneline''] ''oneline'',
      opt_show [''--version'']] None"

text \<open>The options that are required or have a default are texts in every namespace the parser returns.\<close>

definition args_of :: "namespace \<Rightarrow> args" where
  "args_of ns =
     \<lparr>a_url = get_default (ns_text ns ''url'') [], a_channel = ns_text ns ''channel'',
      a_username = get_default (ns_text ns ''username'') [], a_iconurl = get_default (ns_text ns ''iconurl'') [],
      a_notificationtype = get_default (ns_text ns ''notificationtype'') [],
      a_hostalias = get_default (ns_text ns ''hostalias'') [], a_hoststate = ns_text ns ''hoststate'',
      a_hostoutput = ns_text ns ''hostoutput'', a_servicedesc = ns_text ns ''servicedesc'',
      a_servicestate = ns_text ns ''servicestate'', a_serviceoutput = ns_text ns ''serviceoutput'',
      a_author = ns_text ns ''author'', a_comment = ns_text ns ''comment'', a_oneline = ns_flag ns ''oneline''\<rparr>"

definition parse :: "string list \<Rightarrow> args res" where
  "parse argv = rbind (parse_args mattermost_parser argv) (\<lambda>ns. Inr (args_of ns))"

text \<open>\<open>if v\<close> for a string that may be \<open>None\<close>, and the text of such a value.\<close>

definition given :: "string option \<Rightarrow> bool" where
  "given v \<longleftrightarrow> v \<noteq> None \<and> v \<noteq> Some []"

definition opt_text :: "string option \<Rightarrow> string" where
  "opt_text v = get_default v ''None''"

text \<open>\<open>vars(args)\<close>, as the texts that a format string takes from it.\<close>

definition args_vars :: "args \<Rightarrow> (string, string) dict" where
  "args_vars a =
     [(''url'', a_url a), (''channel'', opt_text (a_channel a)), (''username'', a_username a), (''iconurl'', a_iconurl a),
      (''notificationtype'', a_notificationtype a), (''hostalias'', a_hostalias a), (''hoststate'', opt_text (a_hoststate a)),
      (''hostoutput'', opt_text (a_hostoutput a)), (''servicedesc'', opt_text (a_servicedesc a)),
      (''servicestate'', opt_text (a_servicestate a)), (''serviceoutput'', opt_text (a_serviceoutput a)),
      (''author'', opt_text (a_author a)), (''comment'', opt_text (a_comment a)),
      (''oneline'', if a_oneline a then ''True'' else ''False'')]"

section \<open>The message\<close>

text \<open>\<open>template.format(**kw)\<close> for templates whose fields are plain names.\<close>

function str_format :: "(string, string) dict \<Rightarrow> string \<Rightarrow> string res" where
  "str_format kw [] = Inr []"
| "str_format kw (c # s) =
     (if c = CHR ''{'' then
        rbind (dict_index kw (takeWhile (\<lambda>x. x \<noteq> CHR ''}'') s)) (\<lambda>v.
        rbind (str_format kw (drop 1 (dropWhile (\<lambda>x. x \<noteq> CHR ''}'') s))) (\<lambda>t. Inr (v @ t)))
      else rbind (str_format kw s) (\<lambda>t. Inr (c # t)))"
  by pat_completeness auto
termination
  by (relation "measure (\<lambda>(kw, s). length s)") (auto simp: less_Suc_eq_le le_trans [OF diff_le_self length_dropWhile_le])

definition TEMPLATE_HOST :: string where
  "TEMPLATE_HOST = ''__{notificationtype}__ {hostalias} is {hoststate} - {hostoutput}''"

definition TEMPLATE_SERVICE :: string where
  "TEMPLATE_SERVICE = ''__{notificationtype}__ {hostalias}/{servicedesc} is {servicestate} - {serviceoutput}''"

definition emoji :: "string \<Rightarrow> string" where
  "emoji notificationtype =
     get_default (dict_get
       [(''RECOVERY'', '':white_check_mark:''), (''PROBLEM'', '':fire:''), (''DOWNTIMESTART'', '':clock10:''),
        (''DOWNTIMEEND'', '':sunny:''), (''DOWNTIMEREMOVED'', ''''), (''CUSTOM'', '':sound:''),
        (''FLAPPINGSTART'', '':cloud:''), (''FLAPPINGEND'', '':sunny:''), (''ACKNOWLEDGEMENT'', '':exclamation:'')]
       notificationtype) ''''"

definition message_text :: "args \<Rightarrow> string res" where
  "message_text args =
     (let template = (if given (a_servicestate args) then TEMPLATE_SERVICE else TEMPLATE_HOST) in
      rbind (str_format (args_vars args) template) (\<lambda>t.
      let text = emoji (a_notificationtype args) @ '' '' @ t in
      rbind (if a_oneline args then (case splitlines text of [] \<Rightarrow> Inl IndexError | l # _ \<Rightarrow> Inr l) else Inr text) (\<lambda>text.
      let text = (if given (a_author args) then text @ '' authored by '' @ get_default (a_author args) [] else text);
          text = (if given (a_comment args) then text @ '' commented with '' @ get_default (a_comment args) [] else text)
      in Inr text)))"

definition payload_items :: "args \<Rightarrow> string \<Rightarrow> (string \<times> json) list" where
  "payload_items args msg =
     [(''username'', JStr (a_username args)), (''icon_url'', JStr (a_iconurl args)), (''text'', JStr msg)] @
     (if given (a_channel args) then [(''channel'', JStr (get_default (a_channel args) []))] else [])"

definition make_data :: "args \<Rightarrow> (string, string) dict res" where
  "make_data args =
     rbind (message_text args) (\<lambda>msg.
     Inr [(''payload'', json_dumps default_format (\<lambda>_. []) (jd (payload_items args msg)))])"

section \<open>The request\<close>

text \<open>UTF-8 of code points up to 255, and \<open>urllib.parse.quote_plus\<close>.\<close>

definition utf8_char :: "char \<Rightarrow> string" where
  "utf8_char c = (let n = (of_char c :: nat) in
     if n < 128 then [c] else [char_of (192 + n div 64), char_of (128 + n mod 64)])"

definition encode_utf8 :: "string \<Rightarrow> string" where
  "encode_utf8 s = concat (map utf8_char s)"

definition upper_hex :: "nat \<Rightarrow> char" where
  "upper_hex n = (if n < 10 then char_of (48 + n) else char_of (55 + n))"

definition url_safe :: "char \<Rightarrow> bool" where
  "url_safe c \<longleftrightarrow> (let n = (of_char c :: nat) in
     48 \<le> n \<and> n \<le> 57 \<or> 65 \<le> n \<and> n \<le> 90 \<or> 97 \<le> n \<and> n \<le> 122 \<or> c = CHR ''_'' \<or> c = CHR ''.'' \<or> c = CHR ''-'' \<or> c = CHR ''~'')"

definition quote_byte :: "char \<Rightarrow> string" where
  "quote_byte c =
     (if c = CHR '' '' then [CHR ''+'']
      else if url_safe c then [c]
      else [CHR ''%'', upper_hex (of_char c div 16), upper_hex (of_char c mod 16)])"

definition quote_plus :: "string \<Rightarrow> string" where
  "quote_plus s = concat (map quote_byte (encode_utf8 s))"

definition urlencode :: "(string, string) dict \<Rightarrow> string" where
  "urlencode data = join ''&'' (map (\<lambda>(k, v). quote_plus k @ ''='' @ quote_plus v) data)"

text \<open>\<open>urlopen\<close> posts a body to an address and gives the response.\<close>

definition request_post :: "(string \<Rightarrow> string \<Rightarrow> ('w, string) act) \<Rightarrow> string \<Rightarrow> (string, string) dict \<Rightarrow> ('w, string) act" where
  "request_post urlopen url data = urlopen url (urlencode data)"

text \<open>The program, with what it prints.\<close>

definition mattermost_main :: "(string \<Rightarrow> string \<Rightarrow> ('w, string) act) \<Rightarrow> string list \<Rightarrow> ('w, string) act" where
  "mattermost_main urlopen argv =
     abind (alift (parse argv)) (\<lambda>args.
     abind (alift (make_data args)) (\<lambda>data.
     abind (request_post urlopen (a_url args) data) (\<lambda>response.
     alift (decoded (decode_utf8 response)))))"

section \<open>Reading the request\<close>

text \<open>A server that reads a form: fields between \<open>&\<close>, name and value between \<open>=\<close>.\<close>

fun unquote :: "string \<Rightarrow> string" where
  "unquote [] = []"
| "unquote (c # s) =
     (if c = CHR ''+'' then CHR '' '' # unquote s
      else if c = CHR ''%'' then
        (case s of h # l # r \<Rightarrow> char_of (16 * hex_val h + hex_val l) # unquote r | _ \<Rightarrow> [])
      else c # unquote s)"

definition read_form :: "string \<Rightarrow> (string option \<times> string option) list" where
  "read_form body = map (\<lambda>f. case partition_on CHR ''='' f of (k, _, v) \<Rightarrow> (decode_utf8 (unquote k), decode_utf8 (unquote v)))
     (split_on CHR ''&'' body)"

lemma hex_val_upper: "n < 16 \<Longrightarrow> hex_val (upper_hex n) = n"
  by (auto simp: upper_hex_def hex_val_def Let_def of_char_of)

lemma unquote_byte: "unquote (quote_byte c @ s) = c # unquote s"
proof -
  have n: "(of_char c :: nat) < 256" by simp
  then have "(of_char c :: nat) div 16 < 16" by (simp add: less_mult_imp_div_less)
  then have "16 * hex_val (upper_hex (of_char c div 16)) + hex_val (upper_hex (of_char c mod 16)) = (of_char c :: nat)"
    by (simp add: hex_val_upper)
  moreover have "char_of (of_char c :: nat) = c" by simp
  ultimately have "char_of (16 * hex_val (upper_hex (of_char c div 16)) + hex_val (upper_hex (of_char c mod 16))) = c"
    by simp
  then show ?thesis by (auto simp: quote_byte_def url_safe_def)
qed

lemma unquote_quote: "unquote (concat (map quote_byte s)) = s"
  by (induction s) (simp_all add: unquote_byte)

lemma decode_char: "decode_utf8 (utf8_char c @ s) = map_option ((#) c) (decode_utf8 s)"
proof -
  have n: "(of_char c :: nat) < 256" by simp
  show ?thesis
  proof (cases "(of_char c :: nat) < 128")
    case True
    then show ?thesis by (simp add: utf8_char_def)
  next
    case False
    define h where "h = (of_char c :: nat) div 64"
    define l where "l = (of_char c :: nat) mod 64"
    have hl: "(of_char c :: nat) = 64 * h + l" "l < 64" by (simp_all add: h_def l_def)
    then have "h = 2 \<or> h = 3" using n False by linarith
    moreover have "char_of (64 * h + l) = c" unfolding hl(1) [symmetric] by simp
    ultimately show ?thesis using False hl(2)
      by (auto simp: utf8_char_def Let_def h_def [symmetric] l_def [symmetric] of_char_of)
  qed
qed

lemma decode_encode: "decode_utf8 (encode_utf8 s) = Some s"
  by (induction s) (simp_all add: encode_utf8_def decode_char)

lemma unquote_quote_plus: "decode_utf8 (unquote (quote_plus s)) = Some s"
  by (simp add: quote_plus_def unquote_quote decode_encode)

lemma upper_hex_plain: "n < 16 \<Longrightarrow> upper_hex n \<noteq> CHR ''&'' \<and> upper_hex n \<noteq> CHR ''=''"
proof -
  assume "n < 16"
  then have "(of_char (upper_hex n) :: nat) \<ge> 48 \<and> (of_char (upper_hex n) :: nat) \<le> 70 \<and>
      ((of_char (upper_hex n) :: nat) \<le> 57 \<or> (of_char (upper_hex n) :: nat) \<ge> 65)"
    by (auto simp: upper_hex_def of_char_of)
  then show ?thesis by auto
qed

lemma quote_plain: "CHR ''&'' \<notin> set (quote_plus s) \<and> CHR ''='' \<notin> set (quote_plus s)"
proof -
  have "CHR ''&'' \<notin> set (quote_byte c) \<and> CHR ''='' \<notin> set (quote_byte c)" for c
  proof -
    have "(of_char c :: nat) < 256" by simp
    then have "(of_char c :: nat) div 16 < 16" by (simp add: less_mult_imp_div_less)
    from upper_hex_plain [OF this] upper_hex_plain [of "of_char c mod 16"] show ?thesis
      by (auto simp: quote_byte_def url_safe_def)
  qed
  then show ?thesis by (auto simp: quote_plus_def)
qed

lemma read_urlencode: "data \<noteq> [] \<Longrightarrow> read_form (urlencode data) = map (\<lambda>(k, v). (Some k, Some v)) data"
proof -
  assume "data \<noteq> []"
  then have "split_on CHR ''&'' (urlencode data) = map (\<lambda>(k, v). quote_plus k @ ''='' @ quote_plus v) data"
    unfolding urlencode_def using quote_plain by (intro split_on_join) auto
  moreover have "partition_on CHR ''='' (quote_plus k @ CHR ''='' # quote_plus v) = (quote_plus k, True, quote_plus v)" for k v
    using quote_plain by (intro partition_on_append) blast
  ultimately show ?thesis by (auto simp: read_form_def unquote_quote_plus)
qed

section \<open>The text\<close>

lemma splitlines_acc_nonempty: "acc \<noteq> [] \<or> s \<noteq> [] \<Longrightarrow> splitlines_acc acc s \<noteq> []"
  by (induction acc s rule: splitlines_acc.induct) auto

lemma splitlines_acc_plain:
  "\<forall>c \<in> set acc. \<not> is_line_break c \<Longrightarrow> l \<in> set (splitlines_acc acc s) \<Longrightarrow> c \<in> set l \<Longrightarrow> \<not> is_line_break c"
proof (induction acc s arbitrary: l rule: splitlines_acc.induct)
  case (1 acc)
  then show ?case by (auto split: if_splits)
next
  case (2 acc c cs)
  consider "c = CR \<and> cs \<noteq> [] \<and> hd cs = NL" | "\<not> (c = CR \<and> cs \<noteq> [] \<and> hd cs = NL)" "is_line_break c"
    | "\<not> (c = CR \<and> cs \<noteq> [] \<and> hd cs = NL)" "\<not> is_line_break c" by blast
  then show ?case
  proof cases
    case 1
    with "2.prems" "2.IH"(1) [OF 1] show ?thesis by auto
  next
    case 2
    with "2.prems" "2.IH"(2) [OF 2] show ?thesis by auto
  next
    case 3
    with "2.prems" "2.IH"(3) [OF 3] show ?thesis by simp
  qed
qed

text \<open>What a message says, before it is cut to its first line, and what is added to it.\<close>

definition full_text :: "args \<Rightarrow> string" where
  "full_text a = emoji (a_notificationtype a) @ '' __'' @ a_notificationtype a @ ''__ '' @ a_hostalias a @
     (if given (a_servicestate a)
      then ''/'' @ opt_text (a_servicedesc a) @ '' is '' @ opt_text (a_servicestate a) @ '' - '' @ opt_text (a_serviceoutput a)
      else '' is '' @ opt_text (a_hoststate a) @ '' - '' @ opt_text (a_hostoutput a))"

definition addendum :: "args \<Rightarrow> string" where
  "addendum a = (case a_author a of None \<Rightarrow> [] | Some x \<Rightarrow> if x = [] then [] else '' authored by '' @ x) @
     (case a_comment a of None \<Rightarrow> [] | Some x \<Rightarrow> if x = [] then [] else '' commented with '' @ x)"

lemma templates:
  "str_format (args_vars a) TEMPLATE_HOST = Inr (''__'' @ a_notificationtype a @ ''__ '' @ a_hostalias a @ '' is '' @
     opt_text (a_hoststate a) @ '' - '' @ opt_text (a_hostoutput a))"
  "str_format (args_vars a) TEMPLATE_SERVICE = Inr (''__'' @ a_notificationtype a @ ''__ '' @ a_hostalias a @ ''/'' @
     opt_text (a_servicedesc a) @ '' is '' @ opt_text (a_servicestate a) @ '' - '' @ opt_text (a_serviceoutput a))"
  by (simp_all add: TEMPLATE_HOST_def TEMPLATE_SERVICE_def args_vars_def dict_index_def dict_get_def)

lemma message_text_eq:
  "message_text a = Inr ((if a_oneline a then hd (splitlines (full_text a)) else full_text a) @ addendum a)"
proof -
  have "splitlines (full_text a) \<noteq> []"
    unfolding splitlines_def by (rule splitlines_acc_nonempty) (simp add: full_text_def)
  then obtain l ls where l: "splitlines (full_text a) = l # ls" by (cases "splitlines (full_text a)") auto
  have t: "(if given (a_servicestate a) then str_format (args_vars a) TEMPLATE_SERVICE
      else str_format (args_vars a) TEMPLATE_HOST) = Inr (drop (length (emoji (a_notificationtype a)) + 1) (full_text a))"
    by (simp add: templates full_text_def)
  have f: "emoji (a_notificationtype a) @ '' '' @ drop (length (emoji (a_notificationtype a)) + 1) (full_text a) = full_text a"
    by (simp add: full_text_def)
  show ?thesis
    unfolding message_text_def Let_def if_distrib [of "str_format (args_vars a)"] t rbind_Inr f
    by (auto simp: l addendum_def given_def split: option.split)
qed

section \<open>The options\<close>

text \<open>
  The options of a notification that are given, as \<open>icinga2/commands.conf\<close> passes them: each value in
  an argument of its own, after its flag.
\<close>

definition all_options :: "args \<Rightarrow> (string \<times> string option option) list" where
  "all_options a =
     [(''author'', map_option Some (a_author a)), (''channel'', map_option Some (a_channel a)),
      (''comment'', map_option Some (a_comment a)), (''hostalias'', Some (Some (a_hostalias a))),
      (''hostoutput'', map_option Some (a_hostoutput a)), (''hoststate'', map_option Some (a_hoststate a)),
      (''iconurl'', Some (Some (a_iconurl a))), (''notificationtype'', Some (Some (a_notificationtype a))),
      (''oneline'', if a_oneline a then Some None else None), (''servicedesc'', map_option Some (a_servicedesc a)),
      (''serviceoutput'', map_option Some (a_serviceoutput a)), (''servicestate'', map_option Some (a_servicestate a)),
      (''url'', Some (Some (a_url a))), (''username'', Some (Some (a_username a)))]"

fun given_of :: "('k \<times> 'v option) list \<Rightarrow> ('k \<times> 'v) list" where
  "given_of [] = []"
| "given_of ((k, None) # L) = given_of L"
| "given_of ((k, Some x) # L) = (k, x) # given_of L"

definition given_options :: "args \<Rightarrow> given_option list" where
  "given_options a = given_of (all_options a)"

lemma given_of_in: "(k, x) \<in> set (given_of L) \<longleftrightarrow> (k, Some x) \<in> set L"
  by (induction L rule: given_of.induct) auto

lemma given_of_distinct: "distinct (map fst L) \<Longrightarrow> distinct (map fst (given_of L))"
  by (induction L rule: given_of.induct) (force simp: given_of_in image_iff)+

lemma given_of_map: "distinct (map fst L) \<Longrightarrow> map_of (given_of L) q = Option.bind (map_of L q) (\<lambda>v. v)"
proof (induction L rule: given_of.induct)
  case (2 k L)
  then have "map_of L k = None" by (simp add: map_of_eq_None_iff)
  with 2 show ?case by simp
qed simp_all

lemma given_options_map:
  "distinct (map fst (given_options a))"
  "map_of (given_options a) q = Option.bind (map_of (all_options a) q) (\<lambda>v. v)"
  unfolding given_options_def by (rule given_of_distinct given_of_map, simp add: all_options_def)+

definition text_options :: "string list" where
  "text_options = [''author'', ''channel'', ''comment'', ''hostalias'', ''hostoutput'', ''hoststate'', ''iconurl'', ''notificationtype'',
      ''servicedesc'', ''serviceoutput'', ''servicestate'', ''url'', ''username'']"

lemma known_text:
  "k \<in> set text_options \<Longrightarrow> known_option mattermost_parser (k, Some v)"
  "known_option mattermost_parser (''oneline'', None)"
proof -
  have "list_all (\<lambda>k. k \<noteq> [] \<and> (case map_of (flag_table mattermost_parser) (''--'' @ k) of
      None \<Rightarrow> False | Some opt \<Rightarrow> o_dest opt = k \<and> o_action opt = Store)) text_options"
    by code_simp
  then have "\<forall>k \<in> set text_options. k \<noteq> [] \<and> (case map_of (flag_table mattermost_parser) (''--'' @ k) of
      None \<Rightarrow> False | Some opt \<Rightarrow> o_dest opt = k \<and> o_action opt = Store)"
    by (simp only: list_all_iff)
  then show "k \<in> set text_options \<Longrightarrow> known_option mattermost_parser (k, Some v)"
    unfolding known_option_def fst_conv snd_conv by simp
  show "known_option mattermost_parser (''oneline'', None)" by code_simp
qed

lemma given_options_known: "list_all (known_option mattermost_parser) (given_options a)"
proof -
  have "k \<in> set text_options \<and> (\<exists>v. x = Some v) \<or> k = ''oneline'' \<and> x = None"
    if "(k, Some x) \<in> set (all_options a)" for k x
    using that unfolding all_options_def text_options_def
    by (simp only: set_simps insert_iff empty_iff prod.inject) (elim disjE; clarsimp split: if_splits simp: eq_commute [of "Some x"])
  then have "known_option mattermost_parser (k, x)" if "(k, Some x) \<in> set (all_options a)" for k x
    using that known_text by blast
  then show ?thesis by (auto simp: list_all_iff given_options_def given_of_in)
qed

text \<open>In any order, the options are read as they were given, unless a value looks like an option.\<close>

lemma parse_given:
  assumes "mset opts = mset (given_options a)"
  shows "parse (command_line opts) = (if values_fit mattermost_parser opts then Inr a else arg_error)"
proof -
  have set: "set opts = set (given_options a)" using assms by (rule mset_eq_setD)
  have dist: "distinct (map fst opts)"
    using given_options_map(1) [of a] assms by (metis mset_eq_imp_distinct_iff mset_map)
  have look: "map_of opts = map_of (given_options a)"
    using dist given_options_map(1) set by (metis map_of_inject_set)
  have known: "list_all (known_option mattermost_parser) opts"
    using given_options_known [of a] set by (simp add: list_all_iff)
  have "(''url'', Some (a_url a)) \<in> set opts" "(''notificationtype'', Some (a_notificationtype a)) \<in> set opts"
    "(''hostalias'', Some (a_hostalias a)) \<in> set opts"
    by (simp_all add: set given_options_def given_of_in all_options_def)
  then have "''url'' \<in> fst ` set opts" "''notificationtype'' \<in> fst ` set opts" "''hostalias'' \<in> fst ` set opts"
    by force+
  then have req: "\<forall>opt \<in> set (p_options mattermost_parser). o_required opt \<longrightarrow> o_dest opt \<in> fst ` set opts"
    by (simp add: mattermost_parser_def argument_parser_def opt_store_def opt_true_def opt_show_def)
  show ?thesis
  proof (cases "values_fit mattermost_parser opts")
    case False
    then show ?thesis using parse_command_line [OF known dist req] by (simp add: parse_def arg_error_def)
  next
    case True
    then obtain ns where ns: "parse_args mattermost_parser (command_line opts) = Inr ns"
      and get: "\<And>k. dict_get ns k = (case map_of (given_options a) k of None \<Rightarrow> dict_get (defaults mattermost_parser) k
          | Some v \<Rightarrow> Some (stored_value v))"
      using parse_command_line [OF known dist req] unfolding look by auto
    have "args_of ns = a"
      unfolding args_of_def ns_text_def ns_flag_def get given_options_map(2)
      by (cases a) (simp add: all_options_def stored_value_def defaults_def mattermost_parser_def argument_parser_def opt_store_def opt_true_def opt_show_def
          dict_get_def dict_set_def split: option.split)
    then show ?thesis using True ns by (simp add: parse_def)
  qed
qed

text \<open>What the posted dictionary says, key by key.\<close>

definition payload_shown :: "json \<Rightarrow> args \<Rightarrow> string \<Rightarrow> bool" where
  "payload_shown v a msg \<longleftrightarrow>
     jget v ''username'' = Inr (JStr (a_username a)) \<and> jget v ''icon_url'' = Inr (JStr (a_iconurl a)) \<and>
     jget v ''text'' = Inr (JStr msg) \<and>
     jget v ''channel'' = (case a_channel a of
        None \<Rightarrow> Inl (KeyError ''channel'')
      | Some ch \<Rightarrow> if ch = [] then Inl (KeyError ''channel'') else Inr (JStr ch)) \<and>
     (\<forall>k. k \<notin> {''username'', ''icon_url'', ''text'', ''channel''} \<longrightarrow> jget v k = Inl (KeyError k))"

lemma payload_items_shown: "payload_shown (jd (payload_items a msg)) a msg"
  by (simp add: payload_shown_def payload_items_def jd_def dict_get_def given_def split: option.split)

text \<open>
  C16. A notification arrives as it was meant, whatever characters its parts have. When the options of
  \<open>args\<close> are given on the command line, in any order, each value in the argument after its flag, and
  every value is one that the parser takes for a value, the program posts one body to the given address;
  read as a form, it has the one field \<open>payload\<close>, whose JSON has under \<open>username\<close> the user name, under
  \<open>icon_url\<close> the icon, under \<open>text\<close> the text, under \<open>channel\<close> the channel if one is given that is not
  empty, and no other key (\<open>payload_shown\<close>). The text is the emoji and the filled
  template, followed by author and comment, and with \<open>--oneline\<close> the part before them is the first line
  and has no line break. A value that looks like an option, as a comment that begins with a dash
  and has no space, ends the program with exit code 2 before anything is sent.
\<close>

theorem notification_read:
  assumes "mset opts = mset (given_options args)"
  shows "if values_fit mattermost_parser opts then
     \<exists>data msg t v. make_data args = Inr data \<and> message_text args = Inr (msg @ addendum args) \<and>
       mattermost_main urlopen (command_line opts) =
         abind (urlopen (a_url args) (urlencode data)) (\<lambda>response. alift (decoded (decode_utf8 response))) \<and>
       read_form (urlencode data) = [(Some ''payload'', Some t)] \<and>
       json_loads t = Some v \<and> payload_shown v args (msg @ addendum args) \<and>
       (if a_oneline args then msg = hd (splitlines (full_text args)) \<and> (\<forall>c \<in> set msg. \<not> is_line_break c)
        else msg = full_text args)
     else mattermost_main urlopen (command_line opts) = araise (SystemExit ''2'')"
proof (cases "values_fit mattermost_parser opts")
  case False
  then show ?thesis by (simp add: mattermost_main_def parse_given [OF assms] arg_error_def alift_def araise_def abind_def fun_eq_iff)
next
  case fit: True
  define msg where "msg = (if a_oneline args then hd (splitlines (full_text args)) else full_text args)"
  define t where "t = json_dumps default_format (\<lambda>_. []) (jd (payload_items args (msg @ addendum args)))"
  have m: "message_text args = Inr (msg @ addendum args)" by (simp add: message_text_eq msg_def)
  have "string_keyed (jd (payload_items args (msg @ addendum args)))"
    by (simp add: payload_items_def string_keyed_jd)
  moreover have "floats_read (\<lambda>_. []) (jd (payload_items args (msg @ addendum args)))"
    by (simp add: payload_items_def jd_def)
  ultimately have "json_loads t = Some (jd (payload_items args (msg @ addendum args)))"
    unfolding t_def by (intro json_loads_dumps_id) simp_all
  moreover have "read_form (urlencode [(''payload'', t)]) = [(Some ''payload'', Some t)]"
    by (simp add: read_urlencode)
  moreover have "splitlines (full_text args) \<noteq> []"
    unfolding splitlines_def by (rule splitlines_acc_nonempty) (simp add: full_text_def)
  then have "\<forall>c \<in> set msg. \<not> is_line_break c" if "a_oneline args"
    using that splitlines_acc_plain [of "[]" "hd (splitlines (full_text args))" "full_text args"]
    by (simp add: msg_def splitlines_def)
  ultimately show ?thesis
    using m fit by (simp only: if_True, intro exI [of _ "[(''payload'', t)]"] exI [of _ msg] exI [of _ t]
        exI [of _ "jd (payload_items args (msg @ addendum args))"])
      (simp add: payload_items_shown make_data_def request_post_def mattermost_main_def parse_given [OF assms] t_def, simp add: msg_def)
qed

definition ex_args :: args where
  "ex_args = \<lparr>a_url = ''https://chat/hooks/x'', a_channel = Some ''noc'', a_username = ''Icinga'', a_iconurl = ''https://icon'',
     a_notificationtype = ''PROBLEM'', a_hostalias = ''gw04'', a_hoststate = None, a_hostoutput = None,
     a_servicedesc = Some ''dhcp & dns'', a_servicestate = Some ''CRITICAL'',
     a_serviceoutput = Some (''down'' @ [NL] @ ''since 3''), a_author = Some ''noc'', a_comment = None, a_oneline = True\<rparr>"

definition ex_open :: "string \<Rightarrow> string \<Rightarrow> ((string \<times> string) list, string) act" where
  "ex_open url body posts = (Inr ''ok'', posts @ [(url, body)])"

theorem notification_read_witness:
  "(\<exists>body t v. mattermost_main ex_open (command_line (rev (given_options ex_args))) [] = (Inr ''ok'', [(''https://chat/hooks/x'', body)]) \<and>
      read_form body = [(Some ''payload'', Some t)] \<and> json_loads t = Some v \<and>
      jget v ''username'' = Inr (JStr ''Icinga'') \<and> jget v ''icon_url'' = Inr (JStr ''https://icon'') \<and>
      jget v ''channel'' = Inr (JStr ''noc'') \<and>
      jget v ''text'' = Inr (JStr '':fire: __PROBLEM__ gw04/dhcp & dns is CRITICAL - down authored by noc'')) \<and>
    mattermost_main ex_open (command_line (given_options (ex_args\<lparr>a_comment := Some ''-done-''\<rparr>))) [] = (Inl (SystemExit ''2''), [])"
proof -
  have msg: "hd (splitlines (full_text ex_args)) @ addendum ex_args =
      '':fire: __PROBLEM__ gw04/dhcp & dns is CRITICAL - down authored by noc''"
    by code_simp
  have one: "a_oneline ex_args" "a_url ex_args = ''https://chat/hooks/x''" by (simp_all add: ex_args_def)
  have fit: "values_fit mattermost_parser (rev (given_options ex_args))"
    "\<not> values_fit mattermost_parser (given_options (ex_args\<lparr>a_comment := Some ''-done-''\<rparr>))" by code_simp+
  have "mset (rev (given_options ex_args)) = mset (given_options ex_args)" by simp
  from notification_read [OF this, of ex_open] obtain data t v where
    "mattermost_main ex_open (command_line (rev (given_options ex_args))) =
       abind (ex_open (a_url ex_args) (urlencode data)) (\<lambda>response. alift (decoded (decode_utf8 response)))"
    "read_form (urlencode data) = [(Some ''payload'', Some t)]" "json_loads t = Some v"
    "payload_shown v ex_args (hd (splitlines (full_text ex_args)) @ addendum ex_args)"
    unfolding if_P [OF fit(1)] if_P [OF one(1)] by blast
  moreover have "decode_utf8 ''ok'' = Some ''ok''" by code_simp
  ultimately have "\<exists>body t v. mattermost_main ex_open (command_line (rev (given_options ex_args))) [] =
        (Inr ''ok'', [(''https://chat/hooks/x'', body)]) \<and> read_form body = [(Some ''payload'', Some t)] \<and>
      json_loads t = Some v \<and>
      jget v ''username'' = Inr (JStr ''Icinga'') \<and> jget v ''icon_url'' = Inr (JStr ''https://icon'') \<and>
      jget v ''channel'' = Inr (JStr ''noc'') \<and>
      jget v ''text'' = Inr (JStr '':fire: __PROBLEM__ gw04/dhcp & dns is CRITICAL - down authored by noc'')"
    using one(2) unfolding msg
    by (intro exI [of _ "urlencode data"] exI [of _ t] exI [of _ v])
      (simp add: abind_def ex_open_def alift_def decoded_def payload_shown_def, simp add: ex_args_def)
  moreover have "mattermost_main ex_open (command_line (given_options (ex_args\<lparr>a_comment := Some ''-done-''\<rparr>))) [] =
      (Inl (SystemExit ''2''), [])"
    using notification_read [OF refl, of "ex_args\<lparr>a_comment := Some ''-done-''\<rparr>" ex_open] unfolding if_not_P [OF fit(2)]
    by (simp add: araise_def)
  ultimately show ?thesis by blast
qed

end
