(* ===== verification/Netbox_New.thy ===== *)
theory Netbox_New
  imports PyJson
begin

text \<open>
  The unfinished pillar over the GraphQL interface of Netbox, \<open>_pillar/netbox_new.py\<close>: the address, the
  headers and the fixed query of its only function. The HTTP client of Salt is a parameter; its answer
  is not used.
\<close>

text \<open>The query is kept as its lines with their indentation; an empty line has none.\<close>

definition text_of_lines :: "(nat \<times> string) list \<Rightarrow> string" where
  "text_of_lines ls = concat (map (\<lambda>(n, s). replicate n CHR '' '' @ s @ [NL]) ls)"

definition graphql_lines :: "(nat \<times> string) list" where
  \<open>graphql_lines =
   [
    (8, ''{''), (12, ''device_list(name: "guardian-muc01.in.ffmuc.net", status: "ACTIVE") {''), (16, ''id''),
    (16, ''name''), (16, ''role {''), (20, ''id''), (20, ''slug''), (16, ''}''), (16, ''config_context''),
    (16, ''primary_ip4 {''), (20, ''address''), (16, ''}''), (16, ''primary_ip6 {''), (20, ''address''),
    (16, ''}''), (16, ''interfaces {''), (20, ''name''), (20, ''tags {''), (24, ''slug''), (20, ''}''),
    (20, ''custom_fields''), (20, ''ip_addresses {''), (24, ''tags {''), (24, ''slug''), (24, ''}''),
    (24, ''address''), (24, ''status''), (24, ''role''), (24, ''custom_fields''), (20, ''}''), (16, ''}''),
    (16, ''site {''), (20, ''name''), (20, ''slug''), (20, ''prefixes {''), (24, ''prefix''), (20, ''}''),
    (16, ''}''), (16, ''tags {''), (0, ''''), (16, ''}''), (12, ''}''),
    (12, ''virtual_machine_list(name: "webfrontend03.in.ffmuc.net", status: "ACTIVE") {''), (16, ''id''),
    (16, ''name''), (16, ''role {''), (20, ''slug''), (16, ''}''), (16, ''cluster {''), (20, ''site {''),
    (24, ''name''), (24, ''slug''), (24, ''prefixes {''), (28, ''prefix''), (24, ''}''), (20, ''}''),
    (16, ''}''), (16, ''primary_ip4 {''), (20, ''address''), (16, ''}''), (16, ''primary_ip6 {''),
    (20, ''address''), (16, ''}''), (16, ''interfaces {''), (20, ''name''), (20, ''tags {''), (24, ''slug''),
    (20, ''}''), (20, ''custom_fields''), (20, ''ip_addresses {''), (24, ''tags {''), (28, ''slug''),
    (24, ''}''), (24, ''address''), (24, ''status''), (24, ''role''), (24, ''custom_fields''), (20, ''}''),
    (16, ''}''), (16, ''tags {''), (20, ''slug''), (16, ''}''), (12, ''}''), (12, ''service_list {''),
    (16, ''id''), (16, ''name''), (16, ''device {''), (20, ''name''), (20, ''interfaces {''), (24, ''id''),
    (24, ''name''), (24, ''tags {''), (28, ''slug''), (24, ''}''), (24, ''device {''), (28, ''id''),
    (24, ''}''), (20, ''}''), (16, ''}''), (16, ''protocol''), (16, ''ports''), (16, ''ipaddresses {''),
    (20, ''id''), (20, ''tags {''), (24, ''id''), (24, ''slug''), (20, ''}''), (20, ''address''),
    (20, ''status''), (20, ''role''), (20, ''custom_fields''), (16, ''}''), (16, ''custom_fields''),
    (12, ''}''), (8, ''}'')]\<close>

definition graphql :: string where
  "graphql = [NL] @ text_of_lines graphql_lines @ replicate 4 CHR '' ''"

definition graphql_url :: "string \<Rightarrow> string" where
  "graphql_url api_url =
     rstrip_by (\<lambda>c. c \<in> set ''/api'') (rstrip_by (\<lambda>c. c = CHR ''/'') api_url) @ ''/graphql/''"

definition graphql_headers :: "string option \<Rightarrow> (string, string) dict" where
  "graphql_headers api_token = (case api_token of
     None \<Rightarrow> [] | Some t \<Rightarrow> if t = [] then [] else [(''Authorization'', ''Token '' @ t)])"

definition ext_pillar_test ::
  "(string \<Rightarrow> string \<Rightarrow> string \<Rightarrow> (string, string) dict \<Rightarrow> ('w, json) act) \<Rightarrow> (string, string) dict \<Rightarrow> ('w, unit) act" where
  "ext_pillar_test http_query kwargs =
     abind (alift (dict_index kwargs ''api_url'')) (\<lambda>api_url.
     abind (http_query (graphql_url api_url) ''POST'' graphql (graphql_headers (dict_get kwargs ''api_token''))) (\<lambda>response.
     areturn ()))"

section \<open>Facts\<close>

text \<open>The address of the API may be given with or without slashes and \<open>/api\<close> at its end.\<close>

lemma graphql_url_base:
  assumes "base \<noteq> []" and "last base \<notin> set ''/api''" and "set t \<subseteq> set ''/api''"
  shows "graphql_url (base @ t) = base @ ''/graphql/''"
proof -
  obtain b c where base: "base = b @ [c]" using assms(1) by (cases base rule: rev_cases) auto
  have "dropWhile (\<lambda>x. x \<in> set ''/api'') (dropWhile (\<lambda>x. x = CHR ''/'') (rev t @ c # rev b)) = c # rev b"
  proof -
    define u where "u = dropWhile (\<lambda>x. x = CHR ''/'') (rev t)"
    have u: "set u \<subseteq> set ''/api''"
      using assms(3) set_dropWhileD [of _ "\<lambda>x. x = CHR ''/''" "rev t"] unfolding u_def by fastforce
    have "c \<noteq> CHR ''/''" using assms(2) by (auto simp: base)
    then have "dropWhile (\<lambda>x. x = CHR ''/'') (rev t @ c # rev b) = u @ c # rev b"
      unfolding u_def by (cases "\<exists>x \<in> set (rev t). x \<noteq> CHR ''/''") (auto simp: dropWhile_append)
    moreover have "dropWhile (\<lambda>x. x \<in> set ''/api'') (u @ c # rev b) = c # rev b"
      using u assms(2) by (subst dropWhile_append2) (auto simp: base)
    ultimately show ?thesis by simp
  qed
  then show ?thesis by (simp add: graphql_url_def rstrip_by_def base)
qed

text \<open>Other letters of \<open>/api\<close> at the end of the host are removed as well.\<close>

lemma graphql_url_cut: "graphql_url ''https://netbox.wiki/api/'' = ''https://netbox.wik/graphql/''"
  by (simp add: graphql_url_def rstrip_by_def)

text \<open>One selection of the query is empty, which the grammar of GraphQL excludes.\<close>

lemma graphql_empty_selection:
  "take 3 (drop 38 graphql_lines) = [(16, ''tags {''), (0, ''''), (16, ''}'')]"
  by (simp add: graphql_lines_def)

end
