(* ===== verification/Wireguard_V6.thy ===== *)
theory Wireguard_V6
  imports PyStr
begin

text \<open>
  Link-local addresses of WireGuard peers, \<open>_modules/wireguard_v6.py\<close>: a locally administered MAC address
  is made of the MD5 digest of the public key, and an address of the MAC address. The digest and Salt's
  \<open>mac2eui64\<close> are parameters.
\<close>

text \<open>\<open>textwrap.wrap(s, 2)\<close> for a text without blanks and hyphens.\<close>

fun wrap2 :: "string \<Rightarrow> string list" where
  "wrap2 (a # b # r) = [a, b] # wrap2 r"
| "wrap2 [a] = [[a]]"
| "wrap2 [] = []"

definition ascii_encode :: "string \<Rightarrow> string res" where
  "ascii_encode s = (if \<forall>c \<in> set s. (of_char c :: nat) < 128 then Inr s
     else Inl (ValueError ''ordinal not in range(128)''))"

definition temp_mac :: "string \<Rightarrow> string res" where
  "temp_mac hashed_key =
     (case wrap2 hashed_key of
        a # b # c # d # e # _ \<Rightarrow> Inr (''02:'' @ a @ '':'' @ b @ '':'' @ c @ '':'' @ d @ '':'' @ e)
      | _ \<Rightarrow> Inl IndexError)"

text \<open>\<open>re.sub(r"/\d+$", "", s)\<close>: \<open>$\<close> is the end of the text or the place before a final line feed.\<close>

definition drop_prefix_length :: "string \<Rightarrow> string" where
  "drop_prefix_length s =
     (let (body, nl) = (if s \<noteq> [] \<and> last s = NL then (butlast s, [NL]) else (s, []));
          ds = takeWhile is_digit (rev body); rest = dropWhile is_digit (rev body) in
      if ds \<noteq> [] \<and> rest \<noteq> [] \<and> hd rest = CHR ''/'' then rev (tl rest) @ nl else s)"

definition generate :: "(string \<Rightarrow> string) \<Rightarrow> (string \<Rightarrow> string \<Rightarrow> string res) \<Rightarrow> string \<Rightarrow> string res" where
  "generate md5_hexdigest mac2eui64 pubkey =
     rbind (ascii_encode pubkey) (\<lambda>key.
     rbind (temp_mac (md5_hexdigest (key @ [NL]))) (\<lambda>mac.
     rbind (mac2eui64 mac ''fe80::/10'') (\<lambda>addr.
     Inr (drop_prefix_length addr))))"

section \<open>Facts\<close>

definition is_mac :: "string \<Rightarrow> bool" where
  "is_mac m \<longleftrightarrow> (let ps = split_on CHR '':'' m in
     length ps = 6 \<and> (\<forall>p \<in> set ps. length p = 2 \<and> (\<forall>c \<in> set p. is_hexdigit c)))"

lemma colon_no_hexdigit: "is_hexdigit c \<Longrightarrow> c \<noteq> CHR '':''"
  by (auto simp: is_hexdigit_def)

text \<open>A digest of hexadecimal digits gives a unicast, locally administered MAC address.\<close>

lemma temp_mac_is_mac:
  assumes "\<forall>c \<in> set h. is_hexdigit c" and "10 \<le> length h"
  shows "\<exists>m. temp_mac h = Inr m \<and> is_mac m \<and> startswith m ''02:''"
proof -
  obtain a1 a2 b1 b2 c1 c2 d1 d2 e1 e2 r where h: "h = a1 # a2 # b1 # b2 # c1 # c2 # d1 # d2 # e1 # e2 # r"
    using assms(2) by (auto simp: numeral_eq_Suc Suc_le_length_iff)
  have "split_on CHR '':'' (''02:'' @ [a1, a2] @ '':'' @ [b1, b2] @ '':'' @ [c1, c2] @ '':'' @ [d1, d2] @ '':'' @ [e1, e2]) =
      [''02'', [a1, a2], [b1, b2], [c1, c2], [d1, d2], [e1, e2]]"
    using assms(1) by (simp add: h colon_no_hexdigit)
  moreover have "is_hexdigit (CHR ''0'')" "is_hexdigit (CHR ''2'')" by (simp_all add: is_hexdigit_def)
  ultimately show ?thesis using assms(1) by (simp add: temp_mac_def h is_mac_def)
qed

lemma drop_prefix_length_addr:
  assumes "CHR ''/'' \<notin> set a" and "isdigit n"
  shows "drop_prefix_length (a @ CHR ''/'' # n) = a"
proof -
  have d: "\<forall>c \<in> set (rev n). is_digit c" "n \<noteq> []" using assms(2) by (simp_all add: isdigit_def)
  then have "is_digit (last n)" by simp
  then have "last n \<noteq> NL" by (auto simp: is_digit_def)
  moreover have slash: "\<not> is_digit (CHR ''/'')" by (simp add: is_digit_def)
  have "takeWhile is_digit (rev n) = rev n" "dropWhile is_digit (rev n) = []"
    using d(1) by (simp_all add: takeWhile_eq_all_conv)
  then have "takeWhile is_digit (rev n @ CHR ''/'' # rev a) = rev n" "dropWhile is_digit (rev n @ CHR ''/'' # rev a) = CHR ''/'' # rev a"
    using d(1) slash by (simp_all add: takeWhile_append dropWhile_append)
  ultimately show ?thesis using d(2) slash by (simp add: drop_prefix_length_def Let_def)
qed

end
