(* ===== verification/Spec2Isabelle.thy ===== *)
theory Spec2Isabelle
  imports PyRegex Cloudflare_Props Ddns_State Netbox_Lookups Netbox_Pillar Kea_Props Respondd_Limits Respondd_Server
    Respondd_Types Rdns_Props Haproxy_Props
    Dhcpd_Props Geoip_Maps Mattermost Netbox_New Wireguard_V6
begin

text \<open>
  Verification of the Python code of the repository ffmuc-salt-public, the Salt configuration of the
  gateways and servers of Freifunk Muenchen. The repository is mostly declarative (states and templates); its
  programs are Salt modules that run while the configuration is rendered or applied, and programs that the
  states install on the hosts. This library models them as HOL functions and proves what they promise.

  \<^bold>\<open>The parts of the system and how they interact.\<close>

  \<^item> While templates are rendered, the pillar \<open>_pillar/netbox.py\<close> and the execution modules
    \<open>_modules/site_prefixes.py\<close>, \<open>extra_dns_entries.py\<close>, \<open>netbox_vms.py\<close> and \<open>cfssl_certs.py\<close> read the inventory
    (Netbox) and the certificate authority; \<open>_modules/ffmuc_rdns.py\<close> turns the addresses that
    \<open>dns-auth/init.sls\<close> collected into PTR records.
  \<^item> When states are applied, \<open>_states/cloudflare.py\<close> makes the DNS zones at Cloudflare equal to the
    pillar, and \<open>_states/ddns.py\<close>, on top of \<open>_modules/ddns.py\<close>, updates records on an authoritative name server.
  \<^item> On the hosts, \<open>respondd/respondd-tmpl\<close> answers the queries of the mesh for node data;
    \<open>dhcp-server/kea_pool_stats.py\<close> reports and checks DHCP pools; \<open>telegraf/files/haproxy_peers_stats.py\<close> and
    \<open>haproxy/files/generate_geoip_maps.py\<close> serve HAProxy; \<open>dhcp-server/dhcpd_to_context.py\<close> converts old
    configuration into the inventory.

  \<^bold>\<open>Conventions.\<close> A Python exception is a value of \<^typ>\<open>py_exc\<close>; code that can raise has the type \<open>'a res\<close>
  (\<^term>\<open>Inl\<close> the exception); code that talks to the outside is an action \<open>('w, 'a) act\<close> on a world \<open>'w\<close>, which keeps
  its changes when an exception is raised. Everything that is not in the repository (the HTTP
  libraries and the services behind them, dnspython, netifaces, sockets, files, the clock,
  compression, the iteration over a GeoLite2 database) is a parameter, and what a
  property needs of it is a named hypothesis with a witness. The parts of the language and of its standard library that the
  code computes with are modelled: strings, insertion-ordered dictionaries, JSON values and texts, command
  lines, regular expressions, binary64 floats, IP addresses and networks. Strings are lists of the 256 characters of HOL.

  \<^bold>\<open>Shared theories.\<close>

  \<^item> \<open>Prelude\<close>: exceptions, the two monads with their loops (\<open>rmap\<close>, \<open>rfold\<close>, \<open>afold\<close>) and rules (\<open>yields\<close>,
    \<open>keeps\<close>, collected in \<open>keeps_rules\<close>), and dictionaries, whose laws are the locale \<open>dict_interface\<close>,
    interpreted on association lists that keep the order of insertion.
  \<^item> \<open>PyStr\<close>, \<open>PyJson\<close>: string functions (splitting, stripping, decimal numbers) and JSON values with
    Python's subscripts, each with its laws. \<open>PyRegex\<close>: patterns and a backtracking matcher, sound and complete for
    the relation \<open>rx_matches\<close>. \<open>PyFloat\<close>: rounding to 53 bits, its monotonicity and exactness on
    integers; exponents are not bounded, so overflow and subnormal numbers are not modelled.
  \<^item> \<open>PyJsonText\<close>: \<open>json.dumps\<close> in the three formats of the programs (default, compact, indented), sorting of
    keys, \<open>json.loads\<close> and the decoding of bytes as UTF-8. \<open>PyJsonText_Props\<close>: decoding gives back what was
    encoded, with the keys as strings, and no proper prefix of an encoded dictionary or list decodes. The text
    of a float is a parameter that must read back, as \<open>repr\<close> does; code points above 255 are refused by the
    decoder, as HOL has no characters for them.
  \<^item> \<open>PyArgparse\<close>: the module \<open>argparse\<close> (3.11) for the parsers of the four programs that have one: abbreviated
    flags, values after an equals sign, short flags that share an argument, \<open>--\<close>, values that look like options;
    a line of options with their values is parsed exactly when each value may be one (\<open>parse_command_line\<close>).
  \<^item> \<open>Ipaddr\<close>, \<open>Ipaddr_Props\<close>: the module \<open>ipaddress\<close>, addresses as words of 32 and 128 bits, their text with
    the longest run of zeros compressed, and that every address is read back from its text.

  \<^bold>\<open>Components.\<close>

  \<^item> Cloudflare state (\<open>_states/cloudflare.py\<close>). \<open>Cloudflare_Record\<close>: \<open>Record\<close>, \<open>validate\<close> and the
    conversions. \<open>Cloudflare_Zone\<close>: \<open>Zone\<close> with its requests, \<open>sanity_check\<close>, \<open>existing\<close> and \<open>desired\<close>.
    \<open>Cloudflare_Diff\<close>: \<open>diff\<close> and \<open>_order\<close>, with the locale \<open>apply_order\<close> for the two orders.
    \<open>Cloudflare_Script\<close>: the effect of an edit script. \<open>Cloudflare_State\<close>: \<open>apply\<close>, \<open>manage_zone_records\<close> and
    the contract \<open>serves\<close> of the API: a request that is accepted takes effect, a refused one has none, the listing
    gives the zone, on no page when it is empty, and the service keeps a record in a form of its own (\<open>shown\<close>), as it does with
    SRV data. \<open>Cloudflare_Server\<close>: a service in memory that meets it, for the witnesses. \<open>Cloudflare_Props\<close> (C1 to C9): a run settles the
    zone on the managed desired records and leaves no CNAME beside another record on the way; the apply order, the
    protection of unmanaged names, the decision of the sanity check, the end of the paged listing, the
    read-only test mode, stopping at the first failure, and that a second run changes nothing where the listing gives
    the contents back. Three lemmas show where that ends: contents that the service shows otherwise never converge, an unmanaged last
    record blocks a swap of address and CNAME, and does not protect a name whose last record is managed. The order in which
    Python iterates over a set is an arbitrary permutation.
  \<^item> Dynamic DNS. \<open>Ddns\<close> models \<open>_modules/ddns.py\<close>, \<open>Ddns_State\<close> the state. The contract of the
    name server is that of RFC 2136 and RFC 1035, with what it ignores without an error: an update that would put a CNAME beside
    another record, the removal of the SOA and the last NS records of the apex; an added CNAME replaces the old one, and a query at a CNAME is
    answered by the CNAME. Delegations, wildcards, DNAME and DNSSEC are left out. C11 and C12 say what a reported success means against it, with everything
    that stays as it was; C13 and C15 are about the attempts of \<open>add_host\<close> and about \<open>replace_on_change\<close>.
  \<^item> Netbox. \<open>Netbox_Lookups\<close> (C17, C18): the modules of the templates fail closed on every failure of the request, error status,
    body that is not JSON and body without results, stated once in the
    locale \<open>fail_closed\<close> and interpreted on the three of them. \<open>Netbox_Pillar\<close> (C19 to C21): the shape of the pillar,
    addresses under their interfaces, and the error branch.
  \<^item> Kea pools. \<open>Kea_Stats\<close> models \<open>kea_pool_stats.py\<close>; \<open>Kea_Props\<close> (C14, C22 to C25): the exchange on the
    socket ends with the response as soon as it is complete, however it was cut into chunks and whether or not the peer closes, the printed report reads back, every subnet is counted once, percentages are within bounds and monotone in float arithmetic, and the
    exit code is that of the worst range.
  \<^item> Respondd. \<open>Respondd_Base\<close>: \<open>helper.py\<close>, \<open>ratelimit.py\<close> and \<open>respondd.py\<close>. \<open>Respondd_Classes\<close>:
    \<open>nodeinfo.py\<close>, \<open>statistics.py\<close> and \<open>neighbours.py\<close>. \<open>Respondd_Client\<close>: \<open>respondd_client.py\<close> and \<open>ext-respondd.py\<close>.
    \<open>Respondd_Limits\<close> (C26 to C28): the reachable states of the token bucket; with a clock that goes
    back the bucket has no lower bound (\<open>clock_back_refuses\<close>). \<open>Respondd_Merge\<close> (C29): the merge of
    the overlay. \<open>Respondd_Props\<close> (C30): the contract \<open>respondd_class\<close> of a subclass, interpreted on all three, and the
    cache. \<open>Respondd_Server\<close> (C31): one reply for each datagram, to port 45124 of its sender, whose text reads back as
    what \<open>buildStruct\<close> answers in the state that the datagrams before it left.
    \<open>Respondd_Types\<close> (C10): a schema for each of the three structures, and that they conform to it.
  \<^item> Reverse DNS. \<open>Rdns\<close> models \<open>ffmuc_rdns.py\<close>; \<open>Rdns_Props\<close> (C32 to C35): the declarative meaning of
    the records, reading them back, their order and distinct names, and when the function raises.
  \<^item> HAProxy. \<open>Haproxy_Stats\<close> and \<open>Haproxy_Props\<close> (C36, C37): the parser of \<open>show peers\<close> against a
    definition without state, and the lines of the output read back. \<open>Geoip_Maps\<close> (C40): the map files hold
    the values that the paths of keys of the records give, by the locale \<open>geo_loop\<close> for what the loops store.
  \<^item> DHCP conversion. \<open>Dhcpd_Context\<close> and \<open>Dhcpd_Props\<close> (C38, C39): blocks are found again, and every
    reservation goes to the first subnet that contains it; the printed context reads back.
  \<^item> Notifications. \<open>Mattermost\<close> models \<open>mattermost-notifications.py\<close> (C16): the posted form gives back the
    options of the command line as a message, whatever its characters, unless a value looks like an option.
  \<^item> \<open>Netbox_New\<close> models the unfinished pillar \<open>netbox_new.py\<close> with its fixed GraphQL query, and
    \<open>Wireguard_V6\<close> the link-local addresses of \<open>wireguard_v6.py\<close>, both with lemmas only.

  \<^bold>\<open>Loops.\<close> Two loops of the code may not end, the paged listing of \<open>existing\<close> and the read loop of
  \<open>kea_command\<close>; they are \<open>partial_function (option)\<close>, and C6 and C22 prove that they return. All other
  loops run over lists and are structural recursion or folds. The server loop of respondd has no end; it is the
  handling of any finite sequence of datagrams. The scanner of JSON texts alone has fuel, twice the
  length of the text and two, which is enough because every step of a nested value consumes a character (\<open>scan_fuel_enough\<close>).

  \<^bold>\<open>Not modelled.\<close> Usage, log and progress messages, and the
  unit tests of the Kea scripts. States, templates and shell scripts are configuration.
\<close>

end
